(* ===== verification/Prelude.thy ===== *)
theory Prelude
  imports Main "HOL-Library.Word"
begin

text \<open>
  Shared vocabulary of the development: the JavaScript string type and the string
  operations the repository calls, and the generic list facts the components use.

  A JavaScript string is a sequence of UTF-16 code units, so \<open>jstring\<close> is a list of
  16-bit words; \<open>lit\<close> turns an ASCII literal into one. Positions, lengths and comparisons are
  therefore the ones the language has (\<open>length\<close> counts code units, not code points).
\<close>

section \<open>Collections of rewrite rules\<close>

named_theorems js_simps \<open>unfolding rules of the JavaScript string operations\<close>
named_theorems model_defs \<open>definitions of the data the components exchange\<close>

section \<open>JavaScript strings\<close>

type_synonym code_unit = "16 word"
type_synonym jstring = "code_unit list"

definition lit :: "string \<Rightarrow> jstring" where
  "lit s = map of_char s"

lemma of_char_code_unit: "(of_char c :: code_unit) = of_nat (of_char c :: nat)"
  by (simp add: of_nat_of_char)

lemma of_char_code_unit_eq [simp]: "(of_char c :: code_unit) = of_char d \<longleftrightarrow> c = d"
proof
  assume "(of_char c :: code_unit) = of_char d"
  then have "unat (of_nat (of_char c :: nat) :: code_unit)
           = unat (of_nat (of_char d :: nat) :: code_unit)"
    by (simp add: of_char_code_unit)
  moreover have "(of_char c :: nat) < 256" and "(of_char d :: nat) < 256" by auto
  ultimately have "(of_char c :: nat) = of_char d" by (simp add: unat_of_nat)
  then show "c = d" by simp
qed simp

lemma lit_eq_iff [simp]: "lit s = lit t \<longleftrightarrow> s = t"
  unfolding lit_def by (rule inj_map_eq_map) (simp add: inj_on_def)

lemma lit_eq_Nil_iff [simp]: "lit s = [] \<longleftrightarrow> s = []"
  and Nil_eq_lit_iff [simp]: "[] = lit s \<longleftrightarrow> s = []"
  by (auto simp: lit_def)

lemma length_lit [simp]: "length (lit s) = length s"
  by (simp add: lit_def)

lemma lit_append: "lit (s @ t) = lit s @ lit t"
  by (simp add: lit_def)

text \<open>An empty string is falsy, every other string is truthy.\<close>

abbreviation truthy :: "jstring \<Rightarrow> bool" where
  "truthy s \<equiv> s \<noteq> []"

text \<open>Optional chaining on an optional string: absent and empty are both falsy.\<close>

definition truthyOpt :: "jstring option \<Rightarrow> bool" where
  "truthyOpt s = (case s of None \<Rightarrow> False | Some t \<Rightarrow> truthy t)"

lemma truthyOpt_simps [simp]:
  "\<not> truthyOpt None"
  "truthyOpt (Some t) \<longleftrightarrow> t \<noteq> []"
  by (simp_all add: truthyOpt_def)

text \<open>
  The code units that \<open>String.prototype.trim\<close> and the regular expression class
  \<open>\s\<close> take for white space: the WhiteSpace and LineTerminator productions of ECMAScript.
\<close>

definition isSpace :: "code_unit \<Rightarrow> bool" where
  "isSpace u \<longleftrightarrow> u \<in> {0x09, 0x0A, 0x0B, 0x0C, 0x0D, 0x20, 0xA0, 0x1680, 0x2028, 0x2029,
     0x202F, 0x205F, 0x3000, 0xFEFF} \<or> (0x2000 \<le> u \<and> u \<le> 0x200A)"

definition trim :: "jstring \<Rightarrow> jstring" where
  "trim s = rev (dropWhile isSpace (rev (dropWhile isSpace s)))"

definition isDigit :: "code_unit \<Rightarrow> bool" where
  "isDigit u \<longleftrightarrow> 48 \<le> u \<and> u \<le> 57"

definition isLowerAlpha :: "code_unit \<Rightarrow> bool" where
  "isLowerAlpha u \<longleftrightarrow> 97 \<le> u \<and> u \<le> 122"

definition isUpperAlpha :: "code_unit \<Rightarrow> bool" where
  "isUpperAlpha u \<longleftrightarrow> 65 \<le> u \<and> u \<le> 90"

text \<open>\<open>s.replace(/\D/g, "")\<close> keeps the digits.\<close>

definition stripNonDigits :: "jstring \<Rightarrow> jstring" where
  "stripNonDigits s = filter isDigit s"

definition startsWith :: "jstring \<Rightarrow> jstring \<Rightarrow> bool" where
  "startsWith s p \<longleftrightarrow> take (length p) s = p"

fun strIncludes :: "jstring \<Rightarrow> jstring \<Rightarrow> bool" where
  "strIncludes [] p \<longleftrightarrow> p = []"
| "strIncludes (c # s) p \<longleftrightarrow> startsWith (c # s) p \<or> strIncludes s p"

text \<open>\<open>s.split(c)\<close> for a separator of one code unit.\<close>

fun splitOn :: "code_unit \<Rightarrow> jstring \<Rightarrow> jstring list" where
  "splitOn sep [] = [[]]"
| "splitOn sep (c # s) =
     (if c = sep then [] # splitOn sep s
      else (case splitOn sep s of [] \<Rightarrow> [[c]] | p # ps \<Rightarrow> (c # p) # ps))"

text \<open>\<open>parts.join(c)\<close> for a separator string.\<close>

fun join :: "jstring \<Rightarrow> jstring list \<Rightarrow> jstring" where
  "join sep [] = []"
| "join sep [p] = p"
| "join sep (p # q # ps) = p @ sep @ join sep (q # ps)"

definition padStart :: "nat \<Rightarrow> code_unit \<Rightarrow> jstring \<Rightarrow> jstring" where
  "padStart n c s = replicate (n - length s) c @ s"

text \<open>\<open>s.slice(-n)\<close> for \<open>n > 0\<close>: the last \<open>n\<close> code units, or the whole string if it is shorter.\<close>

definition sliceLast :: "nat \<Rightarrow> jstring \<Rightarrow> jstring" where
  "sliceLast n s = drop (length s - n) s"

text \<open>\<open>n.toString(radix)\<close> for a non-negative integer: most significant digit first.\<close>

fun radixDigits :: "nat \<Rightarrow> nat \<Rightarrow> nat list" where
  "radixDigits b n = (if b < 2 \<or> n < b then [n] else radixDigits b (n div b) @ [n mod b])"

declare radixDigits.simps [simp del]

definition digitUnit :: "nat \<Rightarrow> code_unit" where
  "digitUnit d = (if d < 10 then of_nat (48 + d) else of_nat (87 + d))"

definition natToString :: "nat \<Rightarrow> nat \<Rightarrow> jstring" where
  "natToString b n = map digitUnit (radixDigits b n)"

definition intToString :: "int \<Rightarrow> jstring" where
  "intToString i = (if i < 0 then lit ''-'' @ natToString 10 (nat (- i)) else natToString 10 (nat i))"

lemmas [js_simps] = lit_def trim_def isSpace_def isDigit_def isLowerAlpha_def isUpperAlpha_def
  stripNonDigits_def startsWith_def padStart_def sliceLast_def

section \<open>Facts about the string operations\<close>

lemma trim_ends:
  assumes "trim s \<noteq> []"
  shows "\<not> isSpace (hd (trim s))" and "\<not> isSpace (last (trim s))"
proof -
  let ?d = "dropWhile isSpace s"
  let ?t = "dropWhile isSpace (rev ?d)"
  from assms have t: "?t \<noteq> []" by (simp add: trim_def)
  then have "\<not> isSpace (hd ?t)" by (rule hd_dropWhile)
  with t show "\<not> isSpace (last (trim s))" by (simp add: trim_def last_rev)
  from t have d: "?d \<noteq> []" by (metis dropWhile.simps(1) rev.simps(1))
  then have hd_d: "\<not> isSpace (hd ?d)" by (rule hd_dropWhile)
  have "rev ?d = takeWhile isSpace (rev ?d) @ ?t" by simp
  then have "?d = rev ?t @ rev (takeWhile isSpace (rev ?d))"
    by (metis rev_append rev_rev_ident)
  then have "hd ?d = hd (rev ?t)" using t by (metis hd_append2 rev_is_Nil_conv)
  with hd_d show "\<not> isSpace (hd (trim s))" by (simp add: trim_def)
qed

lemma trim_id: "s = [] \<or> (\<not> isSpace (hd s) \<and> \<not> isSpace (last s)) \<Longrightarrow> trim s = s"
  by (cases "s = []") (simp_all add: trim_def dropWhile_eq_self_iff hd_rev
      dropWhile_eq_self_iff [THEN iffD2])

lemma trim_idem [simp]: "trim (trim s) = trim s"
  using trim_ends by (intro trim_id) blast

lemma set_trim: "set (trim s) \<subseteq> set s"
  unfolding trim_def by (metis (no_types, lifting) set_dropWhileD set_rev subsetI)

lemma list_all_stripNonDigits [simp]: "list_all isDigit (stripNonDigits s)"
  by (simp add: stripNonDigits_def list_all_iff)

lemma stripNonDigits_id: "list_all isDigit s \<Longrightarrow> stripNonDigits s = s"
  by (simp add: stripNonDigits_def list_all_iff)

lemma startsWith_append [simp]: "startsWith (p @ s) p"
  by (simp add: startsWith_def)

lemma startsWith_iff: "startsWith s p \<longleftrightarrow> (\<exists>t. s = p @ t)"
  by (metis append_take_drop_id startsWith_append startsWith_def)

lemma strIncludes_iff: "strIncludes s p \<longleftrightarrow> (\<exists>a b. s = a @ p @ b)"
proof (induction s)
  case Nil
  then show ?case by auto
next
  case (Cons c s)
  have "strIncludes (c # s) p \<longleftrightarrow> (\<exists>b. c # s = p @ b) \<or> (\<exists>a b. s = a @ p @ b)"
    using Cons.IH by (simp add: startsWith_iff)
  also have "\<dots> \<longleftrightarrow> (\<exists>a b. c # s = a @ p @ b)" (is "?L \<longleftrightarrow> ?R")
  proof
    assume ?L
    then show ?R by (metis append_Cons append_Nil)
  next
    assume ?R
    then obtain a b where "c # s = a @ p @ b" by blast
    then show ?L by (cases a) auto
  qed
  finally show ?case .
qed

lemma splitOn_neq_Nil [simp]: "splitOn sep s \<noteq> []"
  by (cases s) (auto split: list.splits)

lemma hd_splitOn: "hd (splitOn sep s) = takeWhile (\<lambda>c. c \<noteq> sep) s"
  by (induction s) (auto split: list.splits)

lemma join_splitOn: "join [sep] (splitOn sep s) = s"
proof (induction s)
  case Nil
  then show ?case by simp
next
  case (Cons c s)
  obtain p ps where "splitOn sep s = p # ps"
    by (meson neq_Nil_conv splitOn_neq_Nil)
  with Cons show ?case by (cases ps) auto
qed

lemma length_padStart: "length (padStart n c s) = max n (length s)"
  by (simp add: padStart_def)

lemma length_sliceLast: "length (sliceLast n s) = min n (length s)"
  by (simp add: sliceLast_def)

section \<open>Positional notation\<close>

definition radixValue :: "nat \<Rightarrow> nat list \<Rightarrow> nat" where
  "radixValue b ds = foldl (\<lambda>acc d. acc * b + d) 0 ds"

lemma radixValue_snoc [simp]: "radixValue b (ds @ [d]) = radixValue b ds * b + d"
  by (simp add: radixValue_def)

lemma radixValue_Nil [simp]: "radixValue b [] = 0"
  by (simp add: radixValue_def)

lemma radixValue_radixDigits: "radixValue b (radixDigits b n) = n"
proof (induction b n rule: radixDigits.induct)
  case (1 b n)
  show ?case
  proof (cases "b < 2 \<or> n < b")
    case True
    then show ?thesis
      by (simp add: radixDigits.simps[of b n] radixValue_def)
  next
    case False
    then have "radixDigits b n = radixDigits b (n div b) @ [n mod b]"
      by (simp add: radixDigits.simps[of b n])
    with "1.IH" False show ?thesis by simp
  qed
qed

lemma radixDigits_less: "2 \<le> b \<Longrightarrow> d \<in> set (radixDigits b n) \<Longrightarrow> d < b"
proof (induction b n rule: radixDigits.induct)
  case (1 b n)
  show ?case
  proof (cases "n < b")
    case True
    with "1.prems" show ?thesis by (simp add: radixDigits.simps[of b n])
  next
    case False
    with "1.prems" have "d \<in> set (radixDigits b (n div b)) \<or> d = n mod b"
      by (auto simp add: radixDigits.simps[of b n])
    with "1.IH" "1.prems" False show ?thesis by auto
  qed
qed

lemma radixDigits_neq_Nil [simp]: "radixDigits b n \<noteq> []"
  by (subst radixDigits.simps) simp

lemma length_radixDigits_le: "2 \<le> b \<Longrightarrow> n < b ^ k \<Longrightarrow> 0 < k \<Longrightarrow> length (radixDigits b n) \<le> k"
proof (induction k arbitrary: n)
  case 0
  then show ?case by simp
next
  case (Suc k)
  show ?case
  proof (cases "n < b")
    case True
    with Suc.prems show ?thesis by (simp add: radixDigits.simps[of b n])
  next
    case False
    then have k: "0 < k" using Suc.prems by (cases k) auto
    have "n div b < b ^ k"
      using Suc.prems by (simp add: less_mult_imp_div_less mult.commute)
    then have "length (radixDigits b (n div b)) \<le> k"
      using Suc.IH Suc.prems k by simp
    with False Suc.prems show ?thesis by (simp add: radixDigits.simps[of b n])
  qed
qed

lemma radixValue_drop:
  assumes "\<forall>d \<in> set ds. d < b"
  shows "radixValue b (drop (length ds - k) ds) = radixValue b ds mod b ^ k"
  using assms
proof (induction ds arbitrary: k rule: rev_induct)
  case Nil
  then show ?case by simp
next
  case (snoc d ds)
  show ?case
  proof (cases k)
    case 0
    then show ?thesis by simp
  next
    case (Suc j)
    have d: "d < b" using snoc.prems by simp
    have "radixValue b (drop (length ds - j) ds) = radixValue b ds mod b ^ j"
      using snoc by simp
    moreover have "(radixValue b ds * b + d) mod (b ^ Suc j) = (radixValue b ds mod b ^ j) * b + d"
      using d by (simp add: mod_mult2_eq mult.commute)
    ultimately show ?thesis using Suc by simp
  qed
qed

lemma radixValue_less: "\<forall>d \<in> set ds. d < b \<Longrightarrow> radixValue b ds < b ^ length ds"
proof (induction ds rule: rev_induct)
  case Nil
  then show ?case by simp
next
  case (snoc d ds)
  then have "radixValue b ds + 1 \<le> b ^ length ds" and "d < b" by auto
  then have "(radixValue b ds + 1) * b \<le> b ^ length ds * b" by (intro mult_right_mono) auto
  with \<open>d < b\<close> show ?case by (simp add: mult.commute)
qed

lemma radixValue_replicate_0 [simp]: "radixValue b (replicate n 0 @ ds) = radixValue b ds"
proof -
  have "foldl (\<lambda>acc d. acc * b + d) 0 (replicate n 0) = 0" by (induction n) auto
  then show ?thesis by (simp add: radixValue_def)
qed

lemma unat_digitUnit:
  assumes "d < 36"
  shows "unat (digitUnit d) = (if d < 10 then 48 + d else 87 + d)"
proof -
  have small: "unat (of_nat n :: code_unit) = n" if "n < 65536" for n
    using that by (simp add: unat_of_nat take_bit_nat_eq_self)
  show ?thesis
    using assms small[of "48 + d"] small[of "87 + d"] unfolding digitUnit_def by presburger
qed

lemma digitUnit_inj:
  assumes "c < 36" "d < 36" "digitUnit c = digitUnit d"
  shows "c = d"
proof -
  have "(if c < 10 then 48 + c else 87 + c) = (if d < 10 then 48 + d else 87 + d)"
    unfolding unat_digitUnit[OF assms(1), symmetric] unat_digitUnit[OF assms(2), symmetric]
    by (simp only: assms(3))
  then show ?thesis by (simp split: if_splits)
qed

lemma digitUnit_class: "d < 36 \<Longrightarrow> isDigit (digitUnit d) \<or> isLowerAlpha (digitUnit d)"
  by (simp add: isDigit_def isLowerAlpha_def word_le_nat_alt unat_digitUnit)

lemma digitUnit_digit: "d < 10 \<Longrightarrow> isDigit (digitUnit d)"
  by (simp add: isDigit_def word_le_nat_alt unat_digitUnit)

section \<open>Generic list facts\<close>

lemma find_Some_set: "find P xs = Some x \<Longrightarrow> x \<in> set xs \<and> P x"
  by (metis find_Some_iff nth_mem)

lemma find_None_set: "find P xs = None \<longleftrightarrow> (\<forall>x \<in> set xs. \<not> P x)"
  by (auto simp: find_None_iff)

lemma find_append_None: "find P xs = None \<Longrightarrow> find P (xs @ ys) = find P ys"
  by (induction xs) (auto split: if_splits)

lemma upt_split_at:
  assumes "i \<le> m" "m < n"
  shows "[i..<n] = [i..<m] @ m # [Suc m..<n]"
  using upt_add_eq_append[OF assms(1), of "n - m"] upt_conv_Cons[OF assms(2)] assms(2) by simp

lemma distinct_map_unique:
  "distinct (map f xs) \<Longrightarrow> x \<in> set xs \<Longrightarrow> y \<in> set xs \<Longrightarrow> f x = f y \<Longrightarrow> x = y"
  by (auto simp: distinct_map inj_on_def)

lemma find_unique:
  assumes "distinct (map f xs)" "x \<in> set xs" "f x = k"
  shows "find (\<lambda>y. f y = k) xs = Some x"
proof (cases "find (\<lambda>y. f y = k) xs")
  case None
  with assms show ?thesis by (simp add: find_None_set)
next
  case (Some y)
  with assms have "y \<in> set xs" "f y = f x" by (auto dest: find_Some_set)
  with assms Some show ?thesis by (metis distinct_map_unique)
qed

end
