(* ===== verification/Interfaces.thy ===== *)
theory Interfaces
  imports Prelude
begin

text \<open>
  The interfaces the components rely on, as locales. Every locale is interpreted on the
  operations of a component, in the theory of that component:
  \<^item> \<open>keyed_store\<close>: a table, map or registry with a key: lookup after write and after delete;
  \<^item> \<open>transition_system\<close>: a step relation with an invariant, lifted to reachable states;
  \<^item> \<open>event_machine\<close>: a deterministic handler of events, a special transition system;
  \<^item> \<open>block_codec\<close>: a code that writes every symbol with the same number of code units.
\<close>

section \<open>Keyed stores\<close>

locale keyed_store =
  fixes lookup :: "'k \<Rightarrow> 's \<Rightarrow> 'v option"
    and put :: "'k \<Rightarrow> 'v \<Rightarrow> 's \<Rightarrow> 's"
    and del :: "'k \<Rightarrow> 's \<Rightarrow> 's"
  assumes lookup_put: "lookup k (put k' v s) = (if k = k' then Some v else lookup k s)"
    and lookup_del: "lookup k (del k' s) = (if k = k' then None else lookup k s)"
begin

lemma lookup_put_same: "lookup k (put k v s) = Some v"
  by (simp add: lookup_put)

lemma lookup_del_same: "lookup k (del k s) = None"
  by (simp add: lookup_del)

lemma lookup_put_put: "lookup k (put j u (put j v s)) = lookup k (put j u s)"
  by (simp add: lookup_put)

lemma lookup_del_put: "lookup k (del j (put j v s)) = lookup k (del j s)"
  by (simp add: lookup_del lookup_put)

lemma lookup_other:
  "k \<noteq> j \<Longrightarrow> lookup k (put j v s) = lookup k s"
  "k \<noteq> j \<Longrightarrow> lookup k (del j s) = lookup k s"
  by (simp_all add: lookup_put lookup_del)

text \<open>A list of writes: the last write to a key is the one a lookup sees.\<close>

lemma lookup_puts:
  "lookup k (foldl (\<lambda>s (j, v). put j v s) s kvs)
   = (case map_of (rev kvs) k of None \<Rightarrow> lookup k s | Some v \<Rightarrow> Some v)"
proof (induction kvs arbitrary: s)
  case Nil
  then show ?case by simp
next
  case (Cons kv kvs)
  then show ?case
    by (cases kv) (auto simp: lookup_put map_of_append map_add_def split: option.splits)
qed

end

section \<open>Transition systems and event machines\<close>

locale transition_system =
  fixes step :: "'s \<Rightarrow> 's \<Rightarrow> bool"
    and inv :: "'s \<Rightarrow> bool"
  assumes step_inv: "inv s \<Longrightarrow> step s t \<Longrightarrow> inv t"
begin

lemma reachable_inv:
  assumes "step\<^sup>*\<^sup>* s t" "inv s"
  shows "inv t"
  using assms by (induction rule: rtranclp_induct) (auto intro: step_inv)

lemma unreachable:
  assumes "inv s" "\<not> inv t"
  shows "\<not> step\<^sup>*\<^sup>* s t"
  using assms reachable_inv by blast

end

locale event_machine =
  fixes exec :: "'s \<Rightarrow> 'e \<Rightarrow> 's"
    and good :: "'s \<Rightarrow> bool"
  assumes exec_good: "good s \<Longrightarrow> good (exec s e)"
begin

lemma run_good: "good s \<Longrightarrow> good (foldl exec s es)"
  by (induction es arbitrary: s) (auto intro: exec_good)

lemma run_reaches: "(\<lambda>s t. \<exists>e. t = exec s e)\<^sup>*\<^sup>* s (foldl exec s es)"
proof (induction es arbitrary: s)
  case Nil
  then show ?case by simp
next
  case (Cons e es)
  have "(\<lambda>s t. \<exists>e. t = exec s e) s (exec s e)" by blast
  with Cons.IH[of "exec s e"] show ?case
    by (simp add: converse_rtranclp_into_rtranclp)
qed

end

sublocale event_machine \<subseteq> events: transition_system "\<lambda>s t. \<exists>e. t = exec s e" good
  by unfold_locales (auto intro: exec_good)

section \<open>Codes with a fixed width per symbol\<close>

locale block_codec =
  fixes enc :: "'a \<Rightarrow> 'c list"
    and dec :: "'c list \<Rightarrow> 'a"
    and width :: nat
  assumes width_pos: "0 < width"
    and enc_width: "length (enc x) = width"
    and dec_enc: "dec (enc x) = x"
begin

fun chunks :: "nat \<Rightarrow> 'c list \<Rightarrow> 'c list list" where
  "chunks 0 xs = []"
| "chunks (Suc n) xs =
     (if length xs < width then [] else take width xs # chunks n (drop width xs))"

lemma chunks_enc: "length xs \<le> n \<Longrightarrow> chunks n (concat (map enc xs)) = map enc xs"
proof (induction n arbitrary: xs)
  case 0
  then show ?case by simp
next
  case (Suc n)
  then show ?case using width_pos by (cases xs) (auto simp: enc_width)
qed

lemma length_enc_all: "length (concat (map enc xs)) = width * length xs"
  by (induction xs) (auto simp: enc_width)

lemma decode_all: "length xs \<le> n \<Longrightarrow> map dec (chunks n (concat (map enc xs))) = xs"
  by (simp add: chunks_enc dec_enc comp_def)

lemma enc_all_inj:
  assumes "concat (map enc xs) = concat (map enc ys)"
  shows "xs = ys"
proof -
  have "width * length xs = width * length ys"
    using arg_cong[OF assms, of length] by (simp only: length_enc_all)
  then have "length xs = length ys" using width_pos by simp
  then show ?thesis
    using decode_all[of xs "length xs"] decode_all[of ys "length xs"] assms by simp
qed

end

end
