(* ===== verification/Database.thy ===== *)
theory Database
  imports Complex_Main Interfaces "HOL-Library.AList"
begin

text \<open>
  The PostgreSQL schema of \<open>apps/api/src/db/schema.ts\<close> and the statements the API runs on it.
  A table is the list of its rows; \<open>otps\<close>, whose primary key is the only column it is
  addressed by, is an association list. Every statement checks the constraints the schema
  declares (primary keys, \<open>unique\<close>, \<open>references\<close> with \<open>onDelete: cascade\<close>) and either fails
  with the violated constraint or returns the new database; \<open>db_ok\<close> says that all
  constraints hold, and every statement keeps it.
\<close>

section \<open>Rows\<close>

datatype provider = Phone | Google | Apple
datatype gender = Male | Female
datatype device_os = Ios | Android | Windows | Macos | Web

record device_info =
  di_os :: device_os
  di_osVersion :: jstring
  di_model :: jstring
  di_brand :: jstring
  di_deviceYearClass :: "rat option"
  di_appVersion :: jstring
  di_buildNumber :: jstring

text \<open>A timestamp is a number of milliseconds since the epoch.\<close>

type_synonym timestamp = int

record otp_row =
  o_code :: jstring
  o_attempts :: int
  o_expiresAt :: timestamp
  o_createdAt :: timestamp

record auth_row =
  a_id :: jstring
  a_provider :: provider
  a_identifier :: jstring
  a_email :: "jstring option"

record user_row =
  u_id :: jstring
  u_name :: jstring
  u_gender :: gender
  u_birthYear :: int
  u_createdAt :: timestamp
  u_updatedAt :: timestamp

record token_row =
  t_id :: jstring
  t_authId :: jstring
  t_token :: jstring
  t_deviceInfo :: "device_info option"
  t_expiresAt :: timestamp
  t_revokedAt :: "timestamp option"
  t_lastUsedAt :: timestamp
  t_createdAt :: timestamp

record db =
  otps :: "(jstring \<times> otp_row) list"
  auth :: "auth_row list"
  users :: "user_row list"
  tokens :: "token_row list"

definition empty_db :: db where
  "empty_db = \<lparr>otps = [], auth = [], users = [], tokens = []\<rparr>"

text \<open>The constraints of the schema, by the index or key that enforces them.\<close>

datatype db_constraint =
    AuthPkey | AuthProviderIdentifierUnique | AuthEmailUnique
  | UsersPkey | UsersIdFk
  | TokensPkey | TokensTokenUnique | TokensAuthIdFk

fun isUniqueConstraint :: "db_constraint \<Rightarrow> bool" where
  "isUniqueConstraint UsersIdFk = False"
| "isUniqueConstraint TokensAuthIdFk = False"
| "isUniqueConstraint _ = True"

section \<open>Statements\<close>

subsection \<open>otps\<close>

definition selectOtp :: "jstring \<Rightarrow> db \<Rightarrow> otp_row option" where
  "selectOtp phone d = map_of (otps d) phone"

text \<open>\<open>insert ... onConflictDoUpdate(target: phone)\<close>: the conflict branch sets every other column.\<close>

definition upsertOtp :: "jstring \<Rightarrow> otp_row \<Rightarrow> db \<Rightarrow> db" where
  "upsertOtp phone row d = d\<lparr>otps := AList.update phone row (otps d)\<rparr>"

definition updateOtpAttempts :: "jstring \<Rightarrow> int \<Rightarrow> db \<Rightarrow> db" where
  "updateOtpAttempts phone n d =
     d\<lparr>otps := AList.map_entry phone (\<lambda>r. r\<lparr>o_attempts := n\<rparr>) (otps d)\<rparr>"

definition deleteOtp :: "jstring \<Rightarrow> db \<Rightarrow> db" where
  "deleteOtp phone d = d\<lparr>otps := AList.delete phone (otps d)\<rparr>"

subsection \<open>auth\<close>

definition selectAuth :: "provider \<Rightarrow> jstring \<Rightarrow> db \<Rightarrow> auth_row option" where
  "selectAuth prov ident d =
     find (\<lambda>r. (a_provider r, a_identifier r) = (prov, ident)) (auth d)"

definition selectAuthById :: "jstring \<Rightarrow> db \<Rightarrow> auth_row option" where
  "selectAuthById i d = find (\<lambda>r. a_id r = i) (auth d)"

definition selectAuthByEmail :: "jstring \<Rightarrow> db \<Rightarrow> auth_row option" where
  "selectAuthByEmail e d = find (\<lambda>r. a_email r = Some e) (auth d)"

definition insertAuth :: "auth_row \<Rightarrow> db \<Rightarrow> db_constraint + db" where
  "insertAuth r d =
     (if a_id r \<in> a_id ` set (auth d) then Inl AuthPkey
      else if (a_provider r, a_identifier r) \<in> (\<lambda>x. (a_provider x, a_identifier x)) ` set (auth d)
        then Inl AuthProviderIdentifierUnique
      else if a_email r \<noteq> None \<and> a_email r \<in> a_email ` set (auth d) then Inl AuthEmailUnique
      else Inr (d\<lparr>auth := auth d @ [r]\<rparr>))"

definition updateAuthEmail :: "jstring \<Rightarrow> jstring \<Rightarrow> db \<Rightarrow> db_constraint + db" where
  "updateAuthEmail i e d =
     (if (\<exists>r \<in> set (auth d). a_id r = i) \<and> (\<exists>r \<in> set (auth d). a_id r \<noteq> i \<and> a_email r = Some e)
      then Inl AuthEmailUnique
      else Inr (d\<lparr>auth := map (\<lambda>r. if a_id r = i then r\<lparr>a_email := Some e\<rparr> else r) (auth d)\<rparr>))"

text \<open>Deleting an \<open>auth\<close> row cascades to the profile and the refresh tokens of that row.\<close>

definition deleteAuth :: "jstring \<Rightarrow> db \<Rightarrow> db" where
  "deleteAuth i d =
     d\<lparr>auth := filter (\<lambda>r. a_id r \<noteq> i) (auth d),
       users := filter (\<lambda>r. u_id r \<noteq> i) (users d),
       tokens := filter (\<lambda>r. t_authId r \<noteq> i) (tokens d)\<rparr>"

subsection \<open>users\<close>

definition selectUser :: "jstring \<Rightarrow> db \<Rightarrow> user_row option" where
  "selectUser i d = find (\<lambda>r. u_id r = i) (users d)"

definition insertUser :: "user_row \<Rightarrow> db \<Rightarrow> db_constraint + db" where
  "insertUser r d =
     (if u_id r \<in> u_id ` set (users d) then Inl UsersPkey
      else if u_id r \<notin> a_id ` set (auth d) then Inl UsersIdFk
      else Inr (d\<lparr>users := users d @ [r]\<rparr>))"

subsection \<open>tokens\<close>

definition selectToken :: "jstring \<Rightarrow> db \<Rightarrow> token_row option" where
  "selectToken t d = find (\<lambda>r. t_token r = t) (tokens d)"

definition insertToken :: "token_row \<Rightarrow> db \<Rightarrow> db_constraint + db" where
  "insertToken r d =
     (if t_id r \<in> t_id ` set (tokens d) then Inl TokensPkey
      else if t_token r \<in> t_token ` set (tokens d) then Inl TokensTokenUnique
      else if t_authId r \<notin> a_id ` set (auth d) then Inl TokensAuthIdFk
      else Inr (d\<lparr>tokens := tokens d @ [r]\<rparr>))"

text \<open>\<open>update tokens set token, expires_at, last_used_at where token = old\<close>: no row may match.\<close>

definition rotateToken :: "jstring \<Rightarrow> jstring \<Rightarrow> timestamp \<Rightarrow> timestamp \<Rightarrow> db \<Rightarrow> db_constraint + db" where
  "rotateToken old new expires used d =
     (if (\<exists>r \<in> set (tokens d). t_token r = old) \<and> new \<noteq> old
         \<and> new \<in> t_token ` set (tokens d)
      then Inl TokensTokenUnique
      else Inr (d\<lparr>tokens := map (\<lambda>r. if t_token r = old
              then r\<lparr>t_token := new, t_expiresAt := expires, t_lastUsedAt := used\<rparr>
              else r) (tokens d)\<rparr>))"

definition revokeToken :: "jstring \<Rightarrow> timestamp \<Rightarrow> db \<Rightarrow> db" where
  "revokeToken t ts d =
     d\<lparr>tokens := map (\<lambda>r. if t_token r = t then r\<lparr>t_revokedAt := Some ts\<rparr> else r) (tokens d)\<rparr>"

section \<open>The constraints as an invariant\<close>

definition auth_key :: "auth_row \<Rightarrow> provider \<times> jstring" where
  "auth_key r = (a_provider r, a_identifier r)"

definition auth_emails :: "auth_row list \<Rightarrow> jstring list" where
  "auth_emails rs = List.map_filter a_email rs"

definition db_ok :: "db \<Rightarrow> bool" where
  "db_ok d \<longleftrightarrow>
     distinct (map fst (otps d))
   \<and> distinct (map a_id (auth d))
   \<and> distinct (map auth_key (auth d))
   \<and> distinct (auth_emails (auth d))
   \<and> distinct (map u_id (users d))
   \<and> u_id ` set (users d) \<subseteq> a_id ` set (auth d)
   \<and> distinct (map t_id (tokens d))
   \<and> distinct (map t_token (tokens d))
   \<and> t_authId ` set (tokens d) \<subseteq> a_id ` set (auth d)"

lemma db_okD:
  assumes "db_ok d"
  shows "distinct (map fst (otps d))" "distinct (map a_id (auth d))"
    "distinct (map auth_key (auth d))" "distinct (auth_emails (auth d))"
    "distinct (map u_id (users d))" "u_id ` set (users d) \<subseteq> a_id ` set (auth d)"
    "distinct (map t_id (tokens d))" "distinct (map t_token (tokens d))"
    "t_authId ` set (tokens d) \<subseteq> a_id ` set (auth d)"
  using assms by (simp_all add: db_ok_def)

lemma db_ok_empty [simp]: "db_ok empty_db"
  by (simp add: db_ok_def empty_db_def auth_emails_def List.map_filter_def)

lemma set_auth_emails: "e \<in> set (auth_emails rs) \<longleftrightarrow> Some e \<in> a_email ` set rs"
  by (induction rs) (auto simp: auth_emails_def List.map_filter_def split: option.splits if_splits)

lemma auth_emails_simps [simp]:
  "auth_emails [] = []"
  "auth_emails (r # rs) = (case a_email r of None \<Rightarrow> auth_emails rs | Some e \<Rightarrow> e # auth_emails rs)"
  "auth_emails (rs @ ss) = auth_emails rs @ auth_emails ss"
  by (auto simp: auth_emails_def List.map_filter_def split: option.splits)

lemma distinct_auth_emails_filter:
  "distinct (auth_emails rs) \<Longrightarrow> distinct (auth_emails (filter P rs))"
  by (induction rs) (auto simp: set_auth_emails image_iff split: option.splits)

lemma distinct_auth_emails_update:
  assumes "distinct (auth_emails rs)" "distinct (map a_id rs)"
    and "\<forall>r \<in> set rs. a_id r \<noteq> i \<longrightarrow> a_email r \<noteq> Some e"
  shows "distinct (auth_emails (map (\<lambda>r. if a_id r = i then r\<lparr>a_email := Some e\<rparr> else r) rs))"
  using assms
proof (induction rs)
  case (Cons r rs)
  let ?f = "\<lambda>r. if a_id r = i then r\<lparr>a_email := Some e\<rparr> else r"
  have IH: "distinct (auth_emails (map ?f rs))"
    using Cons by (auto split: option.splits)
  show ?case
  proof (cases "a_id r = i")
    case True
    with Cons.prems have "\<forall>x \<in> set rs. a_id x \<noteq> i" by (auto simp: image_iff)
    moreover from this have "map ?f rs = rs" by (simp add: map_idI)
    moreover have "e \<notin> set (auth_emails rs)"
      using Cons.prems(3) \<open>\<forall>x \<in> set rs. a_id x \<noteq> i\<close> by (force simp: set_auth_emails image_iff)
    ultimately show ?thesis using True IH by simp
  next
    case False
    have "x \<notin> set (auth_emails (map ?f rs))" if "a_email r = Some x" for x
      using that False Cons.prems
      by (auto simp: set_auth_emails image_iff split: option.splits if_splits)
    with False IH show ?thesis by (auto split: option.splits)
  qed
qed simp

subsection \<open>Every statement keeps the constraints\<close>

lemma db_ok_upsertOtp [simp]: "db_ok d \<Longrightarrow> db_ok (upsertOtp p r d)"
  by (simp add: db_ok_def upsertOtp_def distinct_update)

lemma db_ok_updateOtpAttempts [simp]: "db_ok d \<Longrightarrow> db_ok (updateOtpAttempts p n d)"
  by (simp add: db_ok_def updateOtpAttempts_def distinct_map_entry)

lemma db_ok_deleteOtp [simp]: "db_ok d \<Longrightarrow> db_ok (deleteOtp p d)"
  by (simp add: db_ok_def deleteOtp_def distinct_delete)

lemma db_ok_insertAuth: "db_ok d \<Longrightarrow> insertAuth r d = Inr d' \<Longrightarrow> db_ok d'"
proof -
  assume ok: "db_ok d" and ins: "insertAuth r d = Inr d'"
  from ins have d': "d' = d\<lparr>auth := auth d @ [r]\<rparr>" and "a_id r \<notin> a_id ` set (auth d)"
    and "auth_key r \<notin> auth_key ` set (auth d)"
    and "\<forall>e. a_email r = Some e \<longrightarrow> e \<notin> set (auth_emails (auth d))"
    by (auto simp: insertAuth_def auth_key_def set_auth_emails split: if_splits)
  with ok show ?thesis
    unfolding d' db_ok_def by (auto simp: image_subset_iff split: option.splits)
qed

lemma db_ok_updateAuthEmail:
  assumes ok: "db_ok d" and upd: "updateAuthEmail i e d = Inr d'"
  shows "db_ok d'"
proof -
  define f where "f = (\<lambda>r :: auth_row. if a_id r = i then r\<lparr>a_email := Some e\<rparr> else r)"
  from upd have d': "d' = d\<lparr>auth := map f (auth d)\<rparr>"
    by (simp add: updateAuthEmail_def f_def split: if_splits)
  have "a_id \<circ> f = a_id" "auth_key \<circ> f = auth_key" by (auto simp: f_def auth_key_def)
  moreover have "distinct (auth_emails (map f (auth d)))"
  proof (cases "\<exists>r \<in> set (auth d). a_id r = i")
    case True
    with upd have "\<forall>r \<in> set (auth d). a_id r \<noteq> i \<longrightarrow> a_email r \<noteq> Some e"
      by (auto simp: updateAuthEmail_def split: if_splits)
    with ok show ?thesis
      unfolding f_def by (intro distinct_auth_emails_update) (auto simp: db_ok_def)
  next
    case False
    then have "map f (auth d) = auth d" by (auto simp: f_def intro: map_idI)
    with ok show ?thesis by (simp add: db_ok_def)
  qed
  ultimately show ?thesis using ok unfolding d' db_ok_def by (simp add: image_comp)
qed

lemma db_ok_deleteAuth [simp]: "db_ok d \<Longrightarrow> db_ok (deleteAuth i d)"
  by (auto simp: db_ok_def deleteAuth_def distinct_auth_emails_filter distinct_map_filter)

lemma db_ok_insertUser: "db_ok d \<Longrightarrow> insertUser r d = Inr d' \<Longrightarrow> db_ok d'"
  by (auto simp: db_ok_def insertUser_def image_subset_iff split: if_splits)

lemma db_ok_insertToken: "db_ok d \<Longrightarrow> insertToken r d = Inr d' \<Longrightarrow> db_ok d'"
  by (auto simp: db_ok_def insertToken_def image_subset_iff split: if_splits)

lemma db_ok_revokeToken [simp]:
  assumes "db_ok d"
  shows "db_ok (revokeToken t ts d)"
proof -
  define f where "f = (\<lambda>r :: token_row. if t_token r = t then r\<lparr>t_revokedAt := Some ts\<rparr> else r)"
  have "t_id \<circ> f = t_id" "t_token \<circ> f = t_token" "t_authId \<circ> f = t_authId" by (auto simp: f_def)
  with assms show ?thesis
    unfolding db_ok_def revokeToken_def f_def[symmetric] by (simp add: image_comp)
qed

lemma db_ok_rotateToken:
  assumes "db_ok d" "rotateToken old new ex us d = Inr d'"
  shows "db_ok d'"
proof -
  define f where "f = (\<lambda>r :: token_row. if t_token r = old
    then r\<lparr>t_token := new, t_expiresAt := ex, t_lastUsedAt := us\<rparr> else r)"
  from assms(2) have d': "d' = d\<lparr>tokens := map f (tokens d)\<rparr>"
    by (simp add: rotateToken_def f_def split: if_splits)
  have dist: "distinct (map t_token (tokens d))" using assms(1) by (simp add: db_ok_def)
  have "inj_on (t_token \<circ> f) (set (tokens d))"
  proof (rule inj_onI)
    fix x y assume xy: "x \<in> set (tokens d)" "y \<in> set (tokens d)"
      and eq: "(t_token \<circ> f) x = (t_token \<circ> f) y"
    have "new = old \<or> (\<forall>r \<in> set (tokens d). t_token r \<noteq> old) \<or> new \<notin> t_token ` set (tokens d)"
      using assms(2) by (auto simp: rotateToken_def split: if_splits)
    with xy eq have "t_token x = t_token y" by (auto simp: f_def split: if_splits)
    with dist xy show "x = y" by (metis distinct_map_unique)
  qed
  with dist have "distinct (map (t_token \<circ> f) (tokens d))" by (simp add: distinct_map)
  moreover have "t_id \<circ> f = t_id" "t_authId \<circ> f = t_authId" by (auto simp: f_def)
  ultimately show ?thesis using assms(1) unfolding d' db_ok_def by (simp add: image_comp)
qed

section \<open>What statements do to later lookups\<close>

text \<open>The \<open>otps\<close> table is a keyed store.\<close>

interpretation otp_table: keyed_store selectOtp upsertOtp deleteOtp
  by unfold_locales (auto simp: selectOtp_def upsertOtp_def deleteOtp_def update_conv' delete_conv')

lemma selectOtp_updateOtpAttempts:
  "selectOtp p (updateOtpAttempts q n d) =
     (if p = q then map_option (\<lambda>r. r\<lparr>o_attempts := n\<rparr>) (selectOtp p d) else selectOtp p d)"
  by (simp add: selectOtp_def updateOtpAttempts_def map_of_map_entry split: option.splits)

lemmas otp_lookups = otp_table.lookup_put otp_table.lookup_del selectOtp_updateOtpAttempts

lemma otp_ops_other_tables [simp]:
  "auth (upsertOtp p r d) = auth d" "users (upsertOtp p r d) = users d"
  "tokens (upsertOtp p r d) = tokens d"
  "auth (updateOtpAttempts p n d) = auth d" "users (updateOtpAttempts p n d) = users d"
  "tokens (updateOtpAttempts p n d) = tokens d"
  "auth (deleteOtp p d) = auth d" "users (deleteOtp p d) = users d"
  "tokens (deleteOtp p d) = tokens d"
  by (simp_all add: upsertOtp_def updateOtpAttempts_def deleteOtp_def)

lemma selectToken_Some: "selectToken t d = Some r \<Longrightarrow> r \<in> set (tokens d) \<and> t_token r = t"
  by (simp add: selectToken_def) (drule find_Some_set, simp)

lemma selectAuth_Some:
  "selectAuth p i d = Some r \<Longrightarrow> r \<in> set (auth d) \<and> a_provider r = p \<and> a_identifier r = i"
  by (simp add: selectAuth_def) (drule find_Some_set, simp)

lemma selectAuthById_Some: "selectAuthById i d = Some r \<Longrightarrow> r \<in> set (auth d) \<and> a_id r = i"
  by (simp add: selectAuthById_def) (drule find_Some_set, simp)

lemma selectAuthByEmail_Some: "selectAuthByEmail e d = Some r \<Longrightarrow> r \<in> set (auth d) \<and> a_email r = Some e"
  by (simp add: selectAuthByEmail_def) (drule find_Some_set, simp)

lemma selectUser_Some: "selectUser i d = Some r \<Longrightarrow> r \<in> set (users d) \<and> u_id r = i"
  by (simp add: selectUser_def) (drule find_Some_set, simp)

lemmas select_SomeD = selectToken_Some selectAuth_Some selectAuthById_Some
  selectAuthByEmail_Some selectUser_Some

lemma select_None_iff:
  "selectToken t d = None \<longleftrightarrow> t \<notin> t_token ` set (tokens d)"
  "selectAuth p i d = None \<longleftrightarrow> (p, i) \<notin> auth_key ` set (auth d)"
  "selectAuthById i d = None \<longleftrightarrow> i \<notin> a_id ` set (auth d)"
  "selectAuthByEmail e d = None \<longleftrightarrow> Some e \<notin> a_email ` set (auth d)"
  "selectUser i d = None \<longleftrightarrow> i \<notin> u_id ` set (users d)"
  by (auto simp: selectToken_def selectAuth_def selectAuthById_def selectAuthByEmail_def
      selectUser_def auth_key_def find_None_set image_iff)

text \<open>A row of a table that satisfies the constraints is the one its key selects.\<close>

lemma selectToken_in:
  "db_ok d \<Longrightarrow> r \<in> set (tokens d) \<Longrightarrow> selectToken (t_token r) d = Some r"
  unfolding selectToken_def by (rule find_unique) (auto dest: db_okD)

lemma selectUser_in: "db_ok d \<Longrightarrow> r \<in> set (users d) \<Longrightarrow> selectUser (u_id r) d = Some r"
  unfolding selectUser_def by (rule find_unique) (auto dest: db_okD)

lemma selectAuthById_in: "db_ok d \<Longrightarrow> r \<in> set (auth d) \<Longrightarrow> selectAuthById (a_id r) d = Some r"
  unfolding selectAuthById_def by (rule find_unique) (auto dest: db_okD)

lemma selectAuth_in:
  "db_ok d \<Longrightarrow> r \<in> set (auth d) \<Longrightarrow> selectAuth (a_provider r) (a_identifier r) d = Some r"
  using find_unique[of auth_key "auth d" r "auth_key r"] db_okD(3)[of d]
  by (simp add: selectAuth_def auth_key_def)

lemma selectToken_rotateToken:
  assumes "db_ok d" "rotateToken old new ex us d = Inr d'" "selectToken old d = Some r"
  shows "selectToken new d' = Some (r\<lparr>t_token := new, t_expiresAt := ex, t_lastUsedAt := us\<rparr>)"
    and "new \<noteq> old \<Longrightarrow> selectToken old d' = None"
proof -
  let ?f = "\<lambda>r. if t_token r = old then r\<lparr>t_token := new, t_expiresAt := ex, t_lastUsedAt := us\<rparr> else r"
  from assms(2) have d': "tokens d' = map ?f (tokens d)"
    by (auto simp: rotateToken_def split: if_splits)
  from assms(3) have r: "r \<in> set (tokens d)" "t_token r = old" by (auto dest: selectToken_Some)
  then have "?f r \<in> set (tokens d')" unfolding d' by force
  then have "r\<lparr>t_token := new, t_expiresAt := ex, t_lastUsedAt := us\<rparr> \<in> set (tokens d')" using r by simp
  with db_ok_rotateToken[OF assms(1,2)]
  show "selectToken new d' = Some (r\<lparr>t_token := new, t_expiresAt := ex, t_lastUsedAt := us\<rparr>)"
    using selectToken_in by fastforce
  show "selectToken old d' = None" if "new \<noteq> old"
    using that by (auto simp: select_None_iff d' image_iff)
qed

lemma selectToken_revokeToken:
  "selectToken t (revokeToken u ts d) =
     (if t = u then map_option (\<lambda>r. r\<lparr>t_revokedAt := Some ts\<rparr>) (selectToken t d) else selectToken t d)"
proof -
  have "find (\<lambda>r. t_token r = t) (map (\<lambda>r. if t_token r = u then r\<lparr>t_revokedAt := Some ts\<rparr> else r) rs)
    = (if t = u then map_option (\<lambda>r. r\<lparr>t_revokedAt := Some ts\<rparr>) (find (\<lambda>r. t_token r = t) rs)
       else find (\<lambda>r. t_token r = t) rs)" for rs :: "token_row list"
    by (induction rs) auto
  from this[of "tokens d"] show ?thesis by (simp add: selectToken_def revokeToken_def)
qed

end
