(* ===== verification/Runtime.thy ===== *)
theory Runtime
  imports Interfaces
begin

text \<open>
  Asynchronous JavaScript code as a resumption. A value of type \<open>('w, 'e, 'a) prog\<close> is a
  running \<open>async\<close> function over a world of type \<open>'w\<close> that returns an \<open>'a\<close> or throws an
  \<open>'e\<close>. It has returned, has thrown, never returns, makes a synchronous effect and goes on
  (\<open>Sync\<close>: it reads the clock, draws random bytes, sets a variable), awaits an operation
  of the outside (\<open>Await\<close>: a database statement, a request), or awaits a promise that another
  function settles (\<open>Wait\<close>: the function has no turn while the promise is pending). Other
  functions run only where one awaits, which is what \<open>turn\<close> and \<open>sys_step\<close> say; \<open>run\<close> is
  the execution of one function with no other running.
\<close>

section \<open>Resumptions\<close>

datatype ('w, 'e, 'a) prog =
    Ret 'a
  | Throw 'e
  | Hang
  | Sync "'w \<Rightarrow> ('w, 'e, 'a) prog \<times> 'w"
  | Await "'w \<Rightarrow> ('w, 'e, 'a) prog \<times> 'w"
  | Wait "'w \<Rightarrow> ('w, 'e, 'a) prog option"

datatype ('e, 'a) outcome = Done 'a | Thrown 'e | Hung

primrec bindP :: "('w, 'e, 'a) prog \<Rightarrow> ('a \<Rightarrow> ('w, 'e, 'b) prog) \<Rightarrow> ('w, 'e, 'b) prog" where
  "bindP (Ret a) k = k a"
| "bindP (Throw e) k = Throw e"
| "bindP Hang k = Hang"
| "bindP (Sync f) k = Sync (\<lambda>w. map_prod (\<lambda>p. bindP p k) id (f w))"
| "bindP (Await f) k = Await (\<lambda>w. map_prod (\<lambda>p. bindP p k) id (f w))"
| "bindP (Wait f) k = Wait (\<lambda>w. map_option (\<lambda>p. bindP p k) (f w))"

text \<open>\<open>tryP p\<close> turns the completion of \<open>p\<close> into a value; \<open>catch\<close> and \<open>finally\<close> follow.\<close>

primrec tryP :: "('w, 'e, 'a) prog \<Rightarrow> ('w, 'f, 'e + 'a) prog" where
  "tryP (Ret a) = Ret (Inr a)"
| "tryP (Throw e) = Ret (Inl e)"
| "tryP Hang = Hang"
| "tryP (Sync f) = Sync (\<lambda>w. map_prod tryP id (f w))"
| "tryP (Await f) = Await (\<lambda>w. map_prod tryP id (f w))"
| "tryP (Wait f) = Wait (\<lambda>w. map_option tryP (f w))"

definition catchP :: "('w, 'e, 'a) prog \<Rightarrow> ('e \<Rightarrow> ('w, 'f, 'a) prog) \<Rightarrow> ('w, 'f, 'a) prog" where
  "catchP p h = bindP (tryP p) (\<lambda>r. case r of Inl e \<Rightarrow> h e | Inr a \<Rightarrow> Ret a)"

definition finallyP :: "('w, 'e, 'a) prog \<Rightarrow> ('w, 'e, unit) prog \<Rightarrow> ('w, 'e, 'a) prog" where
  "finallyP p q =
     bindP (tryP p) (\<lambda>r. bindP q (\<lambda>_. case r of Inl e \<Rightarrow> Throw e | Inr a \<Rightarrow> Ret a))"

definition getW :: "('w \<Rightarrow> 'a) \<Rightarrow> ('w, 'e, 'a) prog" where
  "getW g = Sync (\<lambda>w. (Ret (g w), w))"

definition syncW :: "('w \<Rightarrow> 'a \<times> 'w) \<Rightarrow> ('w, 'e, 'a) prog" where
  "syncW f = Sync (\<lambda>w. map_prod Ret id (f w))"

definition setW :: "('w \<Rightarrow> 'w) \<Rightarrow> ('w, 'e, unit) prog" where
  "setW h = Sync (\<lambda>w. (Ret (), h w))"

definition awaitW :: "('w \<Rightarrow> ('e + 'a) \<times> 'w) \<Rightarrow> ('w, 'e, 'a) prog" where
  "awaitW f = Await (\<lambda>w.
     (case fst (f w) of Inl e \<Rightarrow> Throw e | Inr a \<Rightarrow> Ret a, snd (f w)))"

text \<open>\<open>waitW\<close> awaits a promise: nothing while it is pending, else how it was settled.\<close>

definition waitW :: "('w \<Rightarrow> ('e + 'a) option) \<Rightarrow> ('w, 'e, 'a) prog" where
  "waitW g = Wait (\<lambda>w. case g w of
     None \<Rightarrow> None
   | Some (Inl e) \<Rightarrow> Some (Throw e)
   | Some (Inr a) \<Rightarrow> Some (Ret a))"

section \<open>One function running alone\<close>

text \<open>A promise that is pending with nothing else running is never settled: \<open>Hung\<close>.\<close>

primrec run :: "('w, 'e, 'a) prog \<Rightarrow> 'w \<Rightarrow> ('e, 'a) outcome \<times> 'w" where
  "run (Ret a) = (\<lambda>w. (Done a, w))"
| "run (Throw e) = (\<lambda>w. (Thrown e, w))"
| "run Hang = (\<lambda>w. (Hung, w))"
| "run (Sync f) = (\<lambda>w. case map_prod run id (f w) of (r, w') \<Rightarrow> r w')"
| "run (Await f) = (\<lambda>w. case map_prod run id (f w) of (r, w') \<Rightarrow> r w')"
| "run (Wait f) = (\<lambda>w. case map_option run (f w) of None \<Rightarrow> (Hung, w) | Some r \<Rightarrow> r w)"

lemma prog_induct [case_names Ret Throw Hang Sync Await Wait]:
  assumes "\<And>a. P (Ret a)" "\<And>e. P (Throw e)" "P Hang"
    and "\<And>f. (\<And>w. P (fst (f w))) \<Longrightarrow> P (Sync f)"
    and "\<And>f. (\<And>w. P (fst (f w))) \<Longrightarrow> P (Await f)"
    and "\<And>f. (\<And>w q. f w = Some q \<Longrightarrow> P q) \<Longrightarrow> P (Wait f)"
  shows "P p"
proof (induction p)
  case (Sync f)
  then show ?case by (intro assms(4)) (metis fsts.intros rangeI)
next
  case (Await f)
  then show ?case by (intro assms(5)) (metis fsts.intros rangeI)
next
  case (Wait f)
  then show ?case by (intro assms(6)) (metis option.set_intros rangeI)
qed (auto intro: assms)

lemma run_Sync: "run (Sync f) w = run (fst (f w)) (snd (f w))"
  and run_Await: "run (Await f) w = run (fst (f w)) (snd (f w))"
  by (simp_all add: case_prod_beta)

lemma run_Wait: "run (Wait f) w = (case f w of None \<Rightarrow> (Hung, w) | Some q \<Rightarrow> run q w)"
  by (simp split: option.split)

declare run.simps(4-6) [simp del]
declare run_Sync [simp] run_Await [simp] run_Wait [simp]

lemma run_bindP:
  "run (bindP p k) w = (case run p w of
      (Done a, w') \<Rightarrow> run (k a) w'
    | (Thrown e, w') \<Rightarrow> (Thrown e, w')
    | (Hung, w') \<Rightarrow> (Hung, w'))"
  by (induction p arbitrary: w rule: prog_induct) (simp_all add: case_prod_beta split: option.split)

lemma run_tryP:
  "run (tryP p) w = (case run p w of
      (Done a, w') \<Rightarrow> (Done (Inr a), w')
    | (Thrown e, w') \<Rightarrow> (Done (Inl e), w')
    | (Hung, w') \<Rightarrow> (Hung, w'))"
  by (induction p arbitrary: w rule: prog_induct) (simp_all add: case_prod_beta split: option.split)

lemma run_catchP:
  "run (catchP p h) w = (case run p w of
      (Done a, w') \<Rightarrow> (Done a, w')
    | (Thrown e, w') \<Rightarrow> run (h e) w'
    | (Hung, w') \<Rightarrow> (Hung, w'))"
  by (auto simp: catchP_def run_bindP run_tryP split: outcome.splits prod.splits)

lemma run_finallyP:
  "run (finallyP p q) w = (case run p w of
      (Done a, w') \<Rightarrow> (case run q w' of
          (Done _, w'') \<Rightarrow> (Done a, w'') | (Thrown e, w'') \<Rightarrow> (Thrown e, w'')
        | (Hung, w'') \<Rightarrow> (Hung, w''))
    | (Thrown e, w') \<Rightarrow> (case run q w' of
          (Done _, w'') \<Rightarrow> (Thrown e, w'') | (Thrown e', w'') \<Rightarrow> (Thrown e', w'')
        | (Hung, w'') \<Rightarrow> (Hung, w''))
    | (Hung, w') \<Rightarrow> (Hung, w'))"
  by (auto simp: finallyP_def run_bindP run_tryP split: outcome.splits prod.splits)

lemma run_getW: "run (getW g) w = (Done (g w), w)"
  and run_setW: "run (setW h) w = (Done (), h w)"
  and run_syncW: "run (syncW f) w = (Done (fst (f w)), snd (f w))"
  by (simp_all add: getW_def setW_def syncW_def case_prod_beta)

lemma run_awaitW:
  "run (awaitW f) w = (case f w of
      (Inl e, w') \<Rightarrow> (Thrown e, w')
    | (Inr a, w') \<Rightarrow> (Done a, w'))"
  by (auto simp: awaitW_def split: prod.splits sum.splits)

lemma run_waitW: "run (waitW g) w = (case g w of
      None \<Rightarrow> (Hung, w)
    | Some (Inl e) \<Rightarrow> (Thrown e, w)
    | Some (Inr a) \<Rightarrow> (Done a, w))"
  by (simp add: waitW_def split: option.splits sum.splits)

lemmas run_simps = run_Sync run_Await run_Wait run_waitW run_bindP run_tryP run_catchP run_finallyP
  run_getW run_setW run_syncW run_awaitW

declare run_simps [simp]

lemma bindP_assoc: "bindP (bindP p k) l = bindP p (\<lambda>a. bindP (k a) l)"
  by (induction p rule: prog_induct) 
    (auto simp: prod.map_comp comp_def fun_eq_iff map_prod_def case_prod_beta map_option_case
      split: option.split)

lemma bindP_Ret: "bindP p Ret = p"
  by (induction p rule: prog_induct)
    (auto simp: fun_eq_iff map_prod_def case_prod_beta map_option_case
      intro: prod_eqI split: option.split)

section \<open>Functions running together\<close>

text \<open>
  \<open>settle\<close> runs the synchronous code up to the next \<open>await\<close>. A turn performs the awaited
  operation, or takes the value of the promise, and then runs the synchronous code that follows.
\<close>

primrec settle :: "('w, 'e, 'a) prog \<Rightarrow> 'w \<Rightarrow> ('w, 'e, 'a) prog \<times> 'w" where
  "settle (Ret a) = (\<lambda>w. (Ret a, w))"
| "settle (Throw e) = (\<lambda>w. (Throw e, w))"
| "settle Hang = (\<lambda>w. (Hang, w))"
| "settle (Sync f) = (\<lambda>w. case map_prod settle id (f w) of (g, w') \<Rightarrow> g w')"
| "settle (Await f) = (\<lambda>w. (Await f, w))"
| "settle (Wait f) = (\<lambda>w. (Wait f, w))"

fun turn :: "('w, 'e, 'a) prog \<Rightarrow> 'w \<Rightarrow> (('w, 'e, 'a) prog \<times> 'w) option" where
  "turn (Sync f) w = Some (settle (Sync f) w)"
| "turn (Await f) w = (case f w of (p, w') \<Rightarrow> Some (settle p w'))"
| "turn (Wait f) w = map_option (\<lambda>p. settle p w) (f w)"
| "turn (Ret a) w = None"
| "turn (Throw e) w = None"
| "turn Hang w = None"

type_synonym ('w, 'e, 'a) sys = "'w \<times> ('w, 'e, 'a) prog list"

inductive sys_step :: "('w, 'e, 'a) sys \<Rightarrow> ('w, 'e, 'a) sys \<Rightarrow> bool" where
  sys_turn: "i < length ps \<Longrightarrow> turn (ps ! i) w = Some (p', w')
     \<Longrightarrow> sys_step (w, ps) (w', ps[i := p'])"

inductive_cases sys_stepE: "sys_step (w, ps) s"

fun schedule :: "nat list \<Rightarrow> ('w, 'e, 'a) sys \<Rightarrow> ('w, 'e, 'a) sys" where
  "schedule [] s = s"
| "schedule (i # is) (w, ps) =
     (if i < length ps then
        (case turn (ps ! i) w of
           None \<Rightarrow> schedule is (w, ps)
         | Some (p', w') \<Rightarrow> schedule is (w', ps[i := p']))
      else schedule is (w, ps))"

lemma schedule_reachable: "sys_step\<^sup>*\<^sup>* s (schedule is s)"
proof (induction "is" s rule: schedule.induct)
  case (1 s)
  then show ?case by simp
next
  case (2 i "is" w ps)
  show ?case
  proof (cases "i < length ps \<and> turn (ps ! i) w \<noteq> None")
    case True
    then obtain p' w' where t: "turn (ps ! i) w = Some (p', w')" by fastforce
    with True have "sys_step (w, ps) (w', ps[i := p'])" by (auto intro: sys_turn)
    moreover have "sys_step\<^sup>*\<^sup>* (w', ps[i := p']) (schedule is (w', ps[i := p']))"
      using "2.IH"(2) True t by simp
    ultimately show ?thesis using True t by (simp add: converse_rtranclp_into_rtranclp)
  next
    case False
    with "2.IH" show ?thesis by (auto split: option.splits)
  qed
qed

text \<open>One turn of every function of a system, in order.\<close>

lemma turns_in_order:
  assumes len: "length qs = length ps" and "Q w"
    and turn: "\<And>i w. i < length ps \<Longrightarrow> Q w \<Longrightarrow> \<exists>w'. turn (ps ! i) w = Some (qs ! i, w') \<and> Q w'"
  shows "\<exists>w'. sys_step\<^sup>*\<^sup>* (w, ps) (w', qs) \<and> Q w'"
proof -
  have "\<exists>w'. sys_step\<^sup>*\<^sup>* (w, ps) (w', take k qs @ drop k ps) \<and> Q w'" if "k \<le> length ps" for k
    using that
  proof (induction k)
    case 0
    then show ?case using assms(2) by auto
  next
    case (Suc k)
    then obtain v where v: "sys_step\<^sup>*\<^sup>* (w, ps) (v, take k qs @ drop k ps)" "Q v" by auto
    let ?m = "take k qs @ drop k ps"
    from Suc.prems len have k: "k < length ?m" and nth: "?m ! k = ps ! k" by (auto simp: nth_append)
    from turn[of k v] Suc.prems v(2) obtain v' where t: "turn (?m ! k) v = Some (qs ! k, v')" and q: "Q v'"
      unfolding nth by auto
    have "?m[k := qs ! k] = take (Suc k) qs @ drop (Suc k) ps"
      using Suc.prems len
      by (simp add: list_update_append take_Suc_conv_app_nth drop_Suc drop_update_swap Cons_nth_drop_Suc[symmetric])
    with sys_turn[OF k t] v q show ?case by (metis rtranclp.rtrancl_into_rtrancl)
  qed
  from this[of "length ps"] len show ?thesis by simp
qed

lemma settle_Sync: "settle (Sync f) w = settle (fst (f w)) (snd (f w))"
  by (simp add: case_prod_beta)

declare settle.simps(4) [simp del]
declare settle_Sync [simp]

lemma run_settle: "run (fst (settle p w)) (snd (settle p w)) = run p w"
  by (induction p arbitrary: w rule: prog_induct) simp_all

text \<open>The turns of a function: from an effect to the next place where it awaits.\<close>

lemma turn_cases [consumes 1, case_names Sync Await Wait]:
  assumes "turn p w = Some (p', w')"
  obtains (Sync) f where "p = Sync f" "(p', w') = settle p w"
  | (Await) f where "p = Await f" "(p', w') = settle (fst (f w)) (snd (f w))"
  | (Wait) f q where "p = Wait f" "f w = Some q" "(p', w') = settle q w"
  using assms by (cases p) (auto simp: case_prod_beta)

lemma run_turn:
  assumes "turn p w = Some (p', w')"
  shows "run p' w' = run p w"
  using assms
proof (cases rule: turn_cases)
  case (Sync f)
  then show ?thesis using run_settle[of p w] by (metis fst_conv snd_conv)
next
  case (Await f)
  then show ?thesis using run_settle[of "fst (f w)" "snd (f w)"] by (metis fst_conv snd_conv run_Await)
next
  case (Wait f q)
  then have "run p w = run q w" by simp
  with Wait show ?thesis using run_settle[of q w] by (metis fst_conv snd_conv)
qed

lemma turn_awaitW:
  "turn (bindP (awaitW f) k) w = Some (case fst (f w) of
      Inl e \<Rightarrow> (Throw e, snd (f w)) | Inr a \<Rightarrow> settle (k a) (snd (f w)))"
  by (auto simp: awaitW_def split: sum.splits)

text \<open>
  A function that is the only one running goes through exactly the execution \<open>run\<close> gives, and
  where \<open>run\<close> says \<open>Hung\<close> it ends in a program that has neither finished nor another turn.
\<close>

fun rests :: "('e, 'a) outcome \<Rightarrow> ('w, 'e, 'a) prog \<Rightarrow> 'w \<Rightarrow> bool" where
  "rests (Done a) p w \<longleftrightarrow> p = Ret a"
| "rests (Thrown e) p w \<longleftrightarrow> p = Throw e"
| "rests Hung p w \<longleftrightarrow> turn p w = None \<and> (\<forall>a. p \<noteq> Ret a) \<and> (\<forall>e. p \<noteq> Throw e)"

definition alone :: "('w, 'e, 'a) prog \<Rightarrow> 'w \<Rightarrow> ('e, 'a) outcome \<times> 'w \<Rightarrow> bool" where
  "alone p w r \<longleftrightarrow> (\<exists>p'. sys_step\<^sup>*\<^sup>* (w, [p]) (snd r, [p']) \<and> rests (fst r) p' (snd r))"

lemma alone_turn: "turn p w = Some (p', w') \<Longrightarrow> alone p' w' r \<Longrightarrow> alone p w r"
  using sys_turn[of 0 "[p]" w p' w'] unfolding alone_def
  by (auto intro: converse_rtranclp_into_rtranclp)

lemma alone_stop: "rests (fst r) p w \<Longrightarrow> snd r = w \<Longrightarrow> alone p w r"
  by (auto simp: alone_def)

lemma settled_alone: "alone (fst (settle p w)) (snd (settle p w)) (run p w)"
proof (induction p arbitrary: w rule: prog_induct)
  case (Await f)
  show ?case
    by (simp, rule alone_turn[OF _ Await[of w "snd (f w)"]]) (simp add: case_prod_beta)
next
  case (Wait f)
  show ?case
  proof (cases "f w")
    case None
    then show ?thesis by (intro alone_stop) simp_all
  next
    case (Some q)
    then show ?thesis
      by (simp, intro alone_turn[OF _ Wait[OF Some, of w]]) simp
  qed
qed (simp_all add: alone_stop)

lemma run_alone: "alone p w (run p w)"
proof (cases p)
  case (Sync f)
  then show ?thesis by (metis alone_turn settled_alone prod.collapse turn.simps(1))
qed (use settled_alone[of p w] in simp_all)

lemma run_alone_done: "run p w = (Done a, w') \<Longrightarrow> sys_step\<^sup>*\<^sup>* (w, [p]) (w', [Ret a])"
  using run_alone[of p w] by (simp add: alone_def)

section \<open>Guarantees: what every effect of a function keeps\<close>

text \<open>
  \<open>guar I R p\<close>: whenever \<open>p\<close> makes an effect in a world that satisfies \<open>I\<close>, the world
  after it satisfies \<open>I\<close> and is related to the one before it by \<open>R\<close>. The worlds that \<open>p\<close>
  meets are not assumed to be the ones it left: other functions may run between its effects.
  So when every function of a system guarantees \<open>I\<close> and a reflexive and transitive \<open>R\<close>,
  both hold in every state the system reaches, for every interleaving.
\<close>

primrec guar :: "('w \<Rightarrow> bool) \<Rightarrow> ('w \<Rightarrow> 'w \<Rightarrow> bool) \<Rightarrow> ('w, 'e, 'a) prog \<Rightarrow> bool" where
  "guar I R (Ret a) \<longleftrightarrow> True"
| "guar I R (Throw e) \<longleftrightarrow> True"
| "guar I R Hang \<longleftrightarrow> True"
| "guar I R (Sync f) \<longleftrightarrow>
     (\<forall>w. I w \<longrightarrow> fst (map_prod (guar I R) id (f w)) \<and> I (snd (f w)) \<and> R w (snd (f w)))"
| "guar I R (Await f) \<longleftrightarrow>
     (\<forall>w. I w \<longrightarrow> fst (map_prod (guar I R) id (f w)) \<and> I (snd (f w)) \<and> R w (snd (f w)))"
| "guar I R (Wait f) \<longleftrightarrow> (\<forall>w. I w \<longrightarrow> (case map_option (guar I R) (f w) of None \<Rightarrow> True | Some g \<Rightarrow> g))"

lemma guar_bindP: "guar I R p \<Longrightarrow> (\<And>a. guar I R (k a)) \<Longrightarrow> guar I R (bindP p k)"
  by (induction p rule: prog_induct) (auto simp: map_prod_def case_prod_beta split: option.splits)

lemma guar_tryP: "guar I R p \<Longrightarrow> guar I R (tryP p)"
  by (induction p rule: prog_induct) (auto simp: map_prod_def case_prod_beta split: option.splits)

lemma guar_catchP: "guar I R p \<Longrightarrow> (\<And>e. guar I R (h e)) \<Longrightarrow> guar I R (catchP p h)"
  unfolding catchP_def by (intro guar_bindP guar_tryP) (auto split: sum.splits)

lemma guar_finallyP: "guar I R p \<Longrightarrow> guar I R q \<Longrightarrow> guar I R (finallyP p q)"
  unfolding finallyP_def by (intro guar_bindP guar_tryP) (auto split: sum.splits)

lemma guar_awaitW:
  assumes "\<And>w. I w \<Longrightarrow> I (snd (f w)) \<and> R w (snd (f w))"
  shows "guar I R (awaitW f)"
  using assms by (auto simp: awaitW_def split: sum.splits)

lemma guar_waitW: "guar I R (waitW g)"
  by (auto simp: waitW_def split: option.splits sum.splits)

text \<open>The answer of an awaited operation is known to come from a world that satisfies \<open>I\<close>.\<close>

lemma guar_await_bindP:
  assumes "\<And>w. I w \<Longrightarrow> I (snd (f w)) \<and> R w (snd (f w))"
    and "\<And>w a. I w \<Longrightarrow> fst (f w) = Inr a \<Longrightarrow> guar I R (k a)"
  shows "guar I R (bindP (awaitW f) k)"
  using assms by (auto simp: awaitW_def split: sum.splits)

lemma guar_get_bindP:
  assumes "\<And>w. R w w" and "\<And>w. I w \<Longrightarrow> guar I R (k (g w))"
  shows "guar I R (bindP (getW g) k)"
  using assms by (simp add: getW_def)

lemma guar_getW: "(\<And>w. R w w) \<Longrightarrow> guar I R (getW g)"
  and guar_setW: "(\<And>w. I w \<Longrightarrow> I (h w) \<and> R w (h w)) \<Longrightarrow> guar I R (setW h)"
  and guar_syncW: "(\<And>w. I w \<Longrightarrow> I (snd (u w)) \<and> R w (snd (u w))) \<Longrightarrow> guar I R (syncW u)"
  by (simp_all add: getW_def setW_def syncW_def)

locale world_guarantee =
  fixes I :: "'w \<Rightarrow> bool"
    and R :: "'w \<Rightarrow> 'w \<Rightarrow> bool"
  assumes refl: "R w w"
    and trans: "R u v \<Longrightarrow> R v w \<Longrightarrow> R u w"
begin

lemma run_keeps: "guar I R p \<Longrightarrow> I w \<Longrightarrow> I (snd (run p w)) \<and> R w (snd (run p w))"
proof (induction p arbitrary: w rule: prog_induct)
  case (Sync f)
  then have "I (snd (f w))" "R w (snd (f w))" "guar I R (fst (f w))" by simp_all
  with Sync.IH[of w "snd (f w)"] show ?case by (auto intro: trans)
next
  case (Await f)
  then have "I (snd (f w))" "R w (snd (f w))" "guar I R (fst (f w))" by simp_all
  with Await.IH[of w "snd (f w)"] show ?case by (auto intro: trans)
next
  case (Wait f)
  then show ?case by (cases "f w") (auto simp: refl)
qed (simp_all add: refl)

lemma settle_keeps:
  "guar I R p \<Longrightarrow> I w \<Longrightarrow>
     I (snd (settle p w)) \<and> R w (snd (settle p w)) \<and> guar I R (fst (settle p w))"
proof (induction p arbitrary: w rule: prog_induct)
  case (Sync f)
  then have "I (snd (f w))" "R w (snd (f w))" "guar I R (fst (f w))" by simp_all
  with Sync.IH[of w "snd (f w)"] show ?case by (auto intro: trans)
qed (simp_all add: refl)

lemma turn_keeps:
  assumes "guar I R p" "I w" "turn p w = Some (p', w')"
  shows "I w' \<and> R w w' \<and> guar I R p'"
  using assms(3)
proof (cases rule: turn_cases)
  case (Sync f)
  with settle_keeps[of p w] assms show ?thesis by (metis fst_conv snd_conv)
next
  case (Await f)
  with assms have "I (snd (f w))" "R w (snd (f w))" "guar I R (fst (f w))" by simp_all
  with Await settle_keeps[of "fst (f w)" "snd (f w)"] show ?thesis
    by (metis fst_conv snd_conv trans)
next
  case (Wait f q)
  with assms have "guar I R q" by (auto split: option.splits)
  with Wait settle_keeps[of q w] assms(2) show ?thesis by (metis fst_conv snd_conv)
qed

lemma system_keeps:
  assumes "sys_step\<^sup>*\<^sup>* (w, ps) (w', ps')" and "list_all (guar I R) ps" and "I w"
  shows "I w' \<and> R w w' \<and> list_all (guar I R) ps'"
  using assms
proof (induction "(w', ps')" arbitrary: w' ps' rule: rtranclp_induct)
  case base
  then show ?case by (simp add: refl)
next
  case (step s)
  obtain v qs where s: "s = (v, qs)" by (cases s)
  with step have IH: "I v" "R w v" "list_all (guar I R) qs" by auto
  from step.hyps(2)[unfolded s] obtain i p' where "i < length qs"
    and "turn (qs ! i) v = Some (p', w')" and "ps' = qs[i := p']"
    by (auto elim: sys_stepE)
  moreover from this IH have "I w' \<and> R v w' \<and> guar I R p'"
    by (metis list_all_length turn_keeps)
  ultimately show ?case
    using IH by (auto simp: list_all_length nth_list_update intro: trans)
qed

end

end
