(* ===== verification/Platform.thy ===== *)
theory Platform
  imports Database Runtime
begin

text \<open>
  What the API code runs on. \<open>env\<close> is the set of bindings of the worker, \<open>ext\<close> the
  functions the source calls and does not contain (JWT libraries, the database driver, the
  Unicode and e-mail tables of the runtime and of zod, remote services, the JSON parser, the
  hash functions), which are parameters of the model. \<open>world\<close>
  is everything a handler can read or change: the database, the clock, the random byte
  source, the identifier source, the tasks handed to \<open>waitUntil\<close>, the cache of database
  clients, and the schedule of the network (how long each awaited statement takes and
  whether it fails). On Workers the clock advances only while a handler awaits, so
  only an awaited statement moves it.
\<close>

section \<open>JSON values and exceptions\<close>

datatype json =
    JNull
  | JBool bool
  | JNum rat
  | JStr jstring
  | JArr "json list"
  | JObj "(jstring \<times> json) list"

type_synonym fields = "(jstring \<times> json) list"

fun jsonField :: "jstring \<Rightarrow> json \<Rightarrow> json option" where
  "jsonField k (JObj fs) = map_of fs k"
| "jsonField k _ = None"

text \<open>\<open>{...a, ...b}\<close>: a key of \<open>b\<close> overwrites in place or is appended.\<close>

definition spread :: "fields \<Rightarrow> fields \<Rightarrow> fields" where
  "spread a b = foldl (\<lambda>acc (k, v). AList.update k v acc) a b"

lemma spread_Nil [simp]: "spread a [] = a"
  by (simp add: spread_def)

datatype exn =
    Error jstring
  | DbError db_constraint
  | DbFault jstring
  | ZodError json
  | Rejected json
  | TypeError jstring

section \<open>Bindings and third-party functions\<close>

record env =
  ENV :: "jstring option"
  APP_NAME :: jstring
  APP_URL :: jstring
  DATABASE_URL :: jstring
  JWT_SECRET :: jstring
  SMS_API_KEY :: jstring
  SMS_SENDER_ID :: jstring
  R2_ACCESS_KEY_ID :: jstring
  R2_SECRET_ACCESS_KEY :: jstring
  R2_BUCKET_NAME :: jstring
  R2_ENDPOINT :: jstring
  R2_PUBLIC_URL :: jstring
  GOOGLE_MAPS_API_KEY :: jstring
  EMAIL_PROVIDER :: jstring
  EMAIL_API_KEY :: jstring
  EMAIL_FROM :: jstring

record jwt_payload =
  jwt_sub :: jstring
  jwt_iat :: int
  jwt_exp :: int

text \<open>Requests to other services and their answers.\<close>

datatype http_body = NoBody | JsonBody json | BytesBody "8 word list"

record http_request =
  hq_method :: jstring
  hq_url :: jstring
  hq_headers :: "(jstring \<times> jstring) list"
  hq_body :: http_body

record http_response =
  hr_status :: nat
  hr_text :: jstring
  hr_json :: "json option"
  hr_headers :: "(jstring \<times> jstring) list"

definition hr_ok :: "http_response \<Rightarrow> bool" where
  "hr_ok r \<longleftrightarrow> 200 \<le> hr_status r \<and> hr_status r \<le> 299"

text \<open>The e-mail templates of \<open>apps/api/src/emails\<close>, by their properties.\<close>

datatype email_template = WelcomeEmail (we_appName: jstring) (we_username: jstring)
  (we_dashboardUrl: jstring) (we_supportUrl: jstring)

record email_options =
  eo_from :: jstring
  eo_to :: jstring
  eo_subject :: jstring
  eo_template :: email_template

record ext =
  x_sign :: "jwt_payload \<Rightarrow> jstring \<Rightarrow> jstring"
  x_verify :: "jstring \<Rightarrow> jstring \<Rightarrow> timestamp \<Rightarrow> exn + jwt_payload"
  x_jwtVerify :: "jstring \<Rightarrow> jstring list \<Rightarrow> jstring \<Rightarrow> timestamp \<Rightarrow> exn + fields"
  x_decodeJwt :: "jstring \<Rightarrow> exn + fields"
  x_neon :: "jstring \<Rightarrow> jstring option"
  x_dbMessage :: "db_constraint \<Rightarrow> jstring"
  x_toLowerCase :: "jstring \<Rightarrow> jstring"
  x_toUpperCase :: "jstring \<Rightarrow> jstring"
  x_letterOrMark :: "nat \<Rightarrow> bool"
  x_isEmail :: "jstring \<Rightarrow> bool"
  x_fetch :: "http_request \<Rightarrow> exn + http_response"
  x_jsonParse :: "jstring \<Rightarrow> json option"
  x_isJsonContent :: "jstring \<Rightarrow> bool"
  x_render :: "email_template \<Rightarrow> jstring"
  x_resend :: "jstring \<Rightarrow> email_options \<Rightarrow> jstring option"
  x_sha256 :: "8 word list \<Rightarrow> 8 word list"
  x_hmac :: "8 word list \<Rightarrow> 8 word list \<Rightarrow> 8 word list"
  x_hostname :: "jstring \<Rightarrow> exn + jstring"
  x_issues :: "(jstring list \<times> jstring option) list \<Rightarrow> json"

record ctx =
  c_env :: env
  c_ext :: ext

text \<open>\<open>error.message\<close> of a thrown value; a rejected plain object has none.\<close>

fun errMessage :: "ext \<Rightarrow> exn \<Rightarrow> jstring" where
  "errMessage x (Error m) = m"
| "errMessage x (DbError c) = x_dbMessage x c"
| "errMessage x (DbFault m) = m"
| "errMessage x (ZodError _) = []"
| "errMessage x (Rejected _) = []"
| "errMessage x (TypeError m) = m"

text \<open>\<open>error instanceof Error\<close>.\<close>

fun isErrorInstance :: "exn \<Rightarrow> bool" where
  "isErrorInstance (Rejected _) = False"
| "isErrorInstance _ = True"

section \<open>The world of a request\<close>

text \<open>
  What the network does to one exchange: the time it takes, the error it fails with, if any,
  and, of a failed exchange with the database, whether the statement was executed before the
  answer was lost.
\<close>

datatype io = Io (io_delay: nat) (io_fault: "jstring option") (io_lost: bool)

datatype task =
    SendOtpTask jstring jstring
  | DeleteAuthTask jstring
  | WelcomeEmailTask jstring jstring

record world =
  w_db :: db
  w_now :: timestamp
  w_io :: "io list"
  w_rand :: "nat \<Rightarrow> 8 word"
  w_randPos :: nat
  w_ids :: "nat \<Rightarrow> jstring"
  w_idPos :: nat
  w_tasks :: "task list"
  w_dbCache :: "jstring list"
  w_sent :: "http_request list"

text \<open>The next event of the network; an empty schedule is a network with no delay and no fault.\<close>

definition nextIo :: "world \<Rightarrow> io" where
  "nextIo w = (case w_io w of [] \<Rightarrow> Io 0 None False | e # _ \<Rightarrow> e)"

definition afterIo :: "world \<Rightarrow> world" where
  "afterIo w = w\<lparr>w_now := w_now w + int (io_delay (nextIo w)), w_io := tl (w_io w)\<rparr>"

text \<open>
  An awaited statement is an exchange with the database over HTTP. A violated constraint is
  thrown as the driver's error. When the network fails, the handler sees the failure, and the
  statement has not been executed, or it has been (and committed) and only its answer is lost.
  The statement sees the time at which it runs (\<open>defaultNow()\<close> columns).
\<close>

definition sqlEffect :: "(timestamp \<Rightarrow> db \<Rightarrow> db_constraint + ('a \<times> db)) \<Rightarrow> world \<Rightarrow> world" where
  "sqlEffect q w = (case q (w_now (afterIo w)) (w_db w) of
     Inl c \<Rightarrow> afterIo w | Inr (a, d) \<Rightarrow> (afterIo w)\<lparr>w_db := d\<rparr>)"

definition sql :: "(timestamp \<Rightarrow> db \<Rightarrow> db_constraint + ('a \<times> db)) \<Rightarrow> (world, exn, 'a) prog" where
  "sql q = awaitW (\<lambda>w.
     (case io_fault (nextIo w) of
        Some m \<Rightarrow> (Inl (DbFault m), if io_lost (nextIo w) then sqlEffect q w else afterIo w)
      | None \<Rightarrow>
         (case q (w_now (afterIo w)) (w_db w) of
            Inl c \<Rightarrow> Inl (DbError c) | Inr (a, d) \<Rightarrow> Inr a, sqlEffect q w)))"

definition sqlQuery :: "(db \<Rightarrow> 'a) \<Rightarrow> (world, exn, 'a) prog" where
  "sqlQuery q = sql (\<lambda>t d. Inr (q d, d))"

definition sqlExec :: "(timestamp \<Rightarrow> db \<Rightarrow> db) \<Rightarrow> (world, exn, unit) prog" where
  "sqlExec u = sql (\<lambda>t d. Inr ((), u t d))"

definition sqlCheck :: "(timestamp \<Rightarrow> db \<Rightarrow> db_constraint + db) \<Rightarrow> (world, exn, unit) prog" where
  "sqlCheck u = sql (\<lambda>t d. case u t d of Inl c \<Rightarrow> Inl c | Inr d' \<Rightarrow> Inr ((), d'))"

text \<open>\<open>fetch\<close>: the request leaves the worker; the network may fail, which rejects with a \<open>TypeError\<close>.\<close>

definition fetchP :: "ctx \<Rightarrow> http_request \<Rightarrow> (world, exn, http_response) prog" where
  "fetchP c req = awaitW (\<lambda>w.
     (let w' = (afterIo w)\<lparr>w_sent := w_sent w @ [req]\<rparr> in
      case io_fault (nextIo w) of
        Some m \<Rightarrow> (Inl (TypeError m), w')
      | None \<Rightarrow> (x_fetch (c_ext c) req, w')))"

text \<open>\<open>createId()\<close> of cuid2.\<close>

definition createId :: "(world, exn, jstring) prog" where
  "createId = syncW (\<lambda>w. (w_ids w (w_idPos w), w\<lparr>w_idPos := Suc (w_idPos w)\<rparr>))"

text \<open>\<open>crypto.getRandomValues\<close> on an array of \<open>n\<close> bytes.\<close>

definition getRandomValues :: "nat \<Rightarrow> (world, exn, 8 word list) prog" where
  "getRandomValues n = syncW (\<lambda>w.
     (map (\<lambda>i. w_rand w (w_randPos w + i)) [0..<n], w\<lparr>w_randPos := w_randPos w + n\<rparr>))"

definition waitUntil :: "task \<Rightarrow> (world, exn, unit) prog" where
  "waitUntil t = setW (\<lambda>w. w\<lparr>w_tasks := w_tasks w @ [t]\<rparr>)"

section \<open>\<open>utils/date.ts\<close>\<close>

definition now :: "(world, exn, timestamp) prog" where
  "now = getW w_now"

definition minutesAgo :: "int \<Rightarrow> (world, exn, timestamp) prog" where
  "minutesAgo minutes = getW (\<lambda>w. w_now w - minutes * 60 * 1000)"

definition minutesFromNow :: "int \<Rightarrow> (world, exn, timestamp) prog" where
  "minutesFromNow minutes = getW (\<lambda>w. w_now w + minutes * 60 * 1000)"

definition hoursAgo :: "int \<Rightarrow> (world, exn, timestamp) prog" where
  "hoursAgo hours = getW (\<lambda>w. w_now w - hours * 60 * 60 * 1000)"

definition hoursFromNow :: "int \<Rightarrow> (world, exn, timestamp) prog" where
  "hoursFromNow hours = getW (\<lambda>w. w_now w + hours * 60 * 60 * 1000)"

definition daysAgo :: "int \<Rightarrow> (world, exn, timestamp) prog" where
  "daysAgo days = getW (\<lambda>w. w_now w - days * 24 * 60 * 60 * 1000)"

definition daysFromNow :: "int \<Rightarrow> (world, exn, timestamp) prog" where
  "daysFromNow days = getW (\<lambda>w. w_now w + days * 24 * 60 * 60 * 1000)"

section \<open>\<open>utils/env.ts\<close> and \<open>adapters/database.ts\<close>\<close>

abbreviation getEnv :: "ctx \<Rightarrow> env" where
  "getEnv c \<equiv> c_env c"

definition isDev :: "ctx \<Rightarrow> bool" where
  "isDev c \<longleftrightarrow> ENV (getEnv c) = Some (lit ''development'')"

record r2_config =
  r2_accessKeyId :: jstring
  r2_secretAccessKey :: jstring
  r2_bucketName :: jstring
  r2_publicUrl :: jstring
  r2_endpoint :: jstring

definition getR2Config :: "ctx \<Rightarrow> exn + r2_config" where
  "getR2Config c = (let e = getEnv c in
     if (\<not> isDev c \<and> \<not> truthy (R2_ACCESS_KEY_ID e))
        \<or> (\<not> isDev c \<and> \<not> truthy (R2_SECRET_ACCESS_KEY e))
        \<or> \<not> truthy (R2_BUCKET_NAME e)
        \<or> \<not> truthy (R2_PUBLIC_URL e)
        \<or> \<not> truthy (R2_ENDPOINT e)
     then Inl (Error (lit ''R2 configuration is missing''))
     else Inr \<lparr>r2_accessKeyId = R2_ACCESS_KEY_ID e, r2_secretAccessKey = R2_SECRET_ACCESS_KEY e,
               r2_bucketName = R2_BUCKET_NAME e, r2_publicUrl = R2_PUBLIC_URL e,
               r2_endpoint = R2_ENDPOINT e\<rparr>)"

text \<open>
  \<open>getDb\<close>: a missing connection string throws; a client is created once per connection
  string and cached. \<open>x_neon\<close> is the driver's constructor, which may refuse the string.
\<close>

definition getDb :: "ctx \<Rightarrow> (world, exn, unit) prog" where
  "getDb c = (let s = DATABASE_URL (getEnv c) in
     if \<not> truthy s
     then Throw (Error (lit ''DATABASE_URL is not set in the environment variables''))
     else Sync (\<lambda>w.
       if s \<in> set (w_dbCache w) then (Ret (), w)
       else (case x_neon (c_ext c) s of
               Some m \<Rightarrow> (Throw (Error (lit ''Failed to initialize database connection: '' @ m)), w)
             | None \<Rightarrow> (Ret (), w\<lparr>w_dbCache := w_dbCache w @ [s]\<rparr>))))"

text \<open>\<open>checkDbHealth\<close>: \<open>None\<close> is healthy, \<open>Some\<close> carries the error message.\<close>

definition checkDbHealth :: "ctx \<Rightarrow> (world, exn, jstring option) prog" where
  "checkDbHealth c =
     catchP (bindP (getDb c) (\<lambda>_. bindP (sqlQuery (\<lambda>d. ())) (\<lambda>_. Ret None)))
       (\<lambda>e. Ret (Some (if isErrorInstance e then errMessage (c_ext c) e
                      else lit ''Unknown database error'')))"

section \<open>Running the effects\<close>

definition quiet :: "world \<Rightarrow> bool" where
  "quiet w \<longleftrightarrow> w_io w = []"

definition connected :: "ctx \<Rightarrow> world \<Rightarrow> bool" where
  "connected c w \<longleftrightarrow> truthy (DATABASE_URL (getEnv c)) \<and> DATABASE_URL (getEnv c) \<in> set (w_dbCache w)"

lemma nextIo_quiet [simp]: "quiet w \<Longrightarrow> nextIo w = Io 0 None False"
  and afterIo_quiet [simp]: "quiet w \<Longrightarrow> afterIo w = w"
  by (simp_all add: quiet_def nextIo_def afterIo_def)

lemma run_sql_quiet:
  assumes "quiet w"
  shows "run (sql q) w = (case q (w_now w) (w_db w) of
      Inl c \<Rightarrow> (Thrown (DbError c), w)
    | Inr (a, d) \<Rightarrow> (Done a, w\<lparr>w_db := d\<rparr>))"
  using assms by (simp add: sql_def sqlEffect_def split: sum.splits prod.splits)

lemma run_sqlQuery_quiet: "quiet w \<Longrightarrow> run (sqlQuery q) w = (Done (q (w_db w)), w)"
  and run_sqlExec_quiet: "quiet w \<Longrightarrow> run (sqlExec u) w = (Done (), w\<lparr>w_db := u (w_now w) (w_db w)\<rparr>)"
  by (simp_all add: sqlQuery_def sqlExec_def run_sql_quiet)

lemma run_sqlCheck_quiet:
  assumes "quiet w"
  shows "run (sqlCheck u) w = (case u (w_now w) (w_db w) of
      Inl c \<Rightarrow> (Thrown (DbError c), w)
    | Inr d \<Rightarrow> (Done (), w\<lparr>w_db := d\<rparr>))"
  using assms by (simp add: sqlCheck_def run_sql_quiet split: sum.splits)

lemma run_getDb_connected: "connected c w \<Longrightarrow> run (getDb c) w = (Done (), w)"
  by (simp add: getDb_def connected_def Let_def)

lemma run_dates [simp]:
  "run now w = (Done (w_now w), w)"
  "run (minutesAgo m) w = (Done (w_now w - m * 60 * 1000), w)"
  "run (minutesFromNow m) w = (Done (w_now w + m * 60 * 1000), w)"
  "run (hoursAgo h) w = (Done (w_now w - h * 60 * 60 * 1000), w)"
  "run (hoursFromNow h) w = (Done (w_now w + h * 60 * 60 * 1000), w)"
  "run (daysAgo n) w = (Done (w_now w - n * 24 * 60 * 60 * 1000), w)"
  "run (daysFromNow n) w = (Done (w_now w + n * 24 * 60 * 60 * 1000), w)"
  by (simp_all add: now_def minutesAgo_def minutesFromNow_def hoursAgo_def hoursFromNow_def
      daysAgo_def daysFromNow_def)

lemma run_createId [simp]:
  "run createId w = (Done (w_ids w (w_idPos w)), w\<lparr>w_idPos := Suc (w_idPos w)\<rparr>)"
  by (simp add: createId_def)

lemma run_waitUntil [simp]: "run (waitUntil t) w = (Done (), w\<lparr>w_tasks := w_tasks w @ [t]\<rparr>)"
  by (simp add: waitUntil_def)

lemma run_getRandomValues [simp]:
  "run (getRandomValues n) w = (Done (map (\<lambda>i. w_rand w (w_randPos w + i)) [0..<n]),
     w\<lparr>w_randPos := w_randPos w + n\<rparr>)"
  by (simp add: getRandomValues_def)

lemma run_fetchP_quiet:
  "quiet w \<Longrightarrow> run (fetchP c req) w =
     (case x_fetch (c_ext c) req of Inl e \<Rightarrow> Thrown e | Inr r \<Rightarrow> Done r, w\<lparr>w_sent := w_sent w @ [req]\<rparr>)"
  by (auto simp: fetchP_def Let_def split: sum.splits)

lemma quiet_update [simp]:
  "quiet (w\<lparr>w_db := d\<rparr>) = quiet w" "quiet (w\<lparr>w_tasks := ts\<rparr>) = quiet w"
  "quiet (w\<lparr>w_idPos := i\<rparr>) = quiet w" "quiet (w\<lparr>w_randPos := i\<rparr>) = quiet w"
  "quiet (w\<lparr>w_now := t\<rparr>) = quiet w" "quiet (w\<lparr>w_sent := rs\<rparr>) = quiet w"
  by (simp_all add: quiet_def)

lemma connected_update [simp]:
  "connected c (w\<lparr>w_db := d\<rparr>) = connected c w" "connected c (w\<lparr>w_tasks := ts\<rparr>) = connected c w"
  "connected c (w\<lparr>w_idPos := i\<rparr>) = connected c w" "connected c (w\<lparr>w_randPos := i\<rparr>) = connected c w"
  "connected c (w\<lparr>w_now := t\<rparr>) = connected c w" "connected c (w\<lparr>w_sent := rs\<rparr>) = connected c w"
  by (simp_all add: connected_def)

lemmas run_quiet = run_sqlQuery_quiet run_sqlExec_quiet run_sqlCheck_quiet run_getDb_connected

section \<open>Guarantees of the effects\<close>

text \<open>
  A property of worlds that reads only the database, and a relation that reads only the
  database and the clock: what a statement must keep for a handler to keep it.
\<close>

definition db_prop :: "(db \<Rightarrow> bool) \<Rightarrow> world \<Rightarrow> bool" where
  "db_prop J w \<longleftrightarrow> J (w_db w)"

definition db_rel :: "(db \<Rightarrow> db \<Rightarrow> bool) \<Rightarrow> world \<Rightarrow> world \<Rightarrow> bool" where
  "db_rel S w w' \<longleftrightarrow> S (w_db w) (w_db w')"

lemma w_db_afterIo [simp]: "w_db (afterIo w) = w_db w"
  by (simp add: afterIo_def)

locale db_guarantee =
  fixes J :: "db \<Rightarrow> bool"
    and S :: "db \<Rightarrow> db \<Rightarrow> bool"
  assumes S_refl: "S d d"
    and S_trans: "S d d' \<Longrightarrow> S d' d'' \<Longrightarrow> S d d''"
begin

abbreviation ok :: "(world, exn, 'a) prog \<Rightarrow> bool" where
  "ok p \<equiv> guar (db_prop J) (db_rel S) p"

lemma rel_refl: "db_rel S w w"
  by (simp add: db_rel_def S_refl)

lemma same_db: "w_db w' = w_db w \<Longrightarrow> db_prop J w \<Longrightarrow> db_prop J w' \<and> db_rel S w w'"
  by (simp add: db_prop_def db_rel_def S_refl)

lemma sql_keeps:
  assumes q: "\<And>t d a d'. J d \<Longrightarrow> q t d = Inr (a, d') \<Longrightarrow> J d' \<and> S d d'"
    and k: "\<And>t d a d'. J d \<Longrightarrow> q t d = Inr (a, d') \<Longrightarrow> ok (k a)"
  shows "ok (bindP (sql q) k)"
  unfolding sql_def
proof (rule guar_await_bindP)
  fix w assume w: "db_prop J w"
  have "db_prop J (sqlEffect q w) \<and> db_rel S w (sqlEffect q w)"
    using w q[of "w_db w" "w_now (afterIo w)"]
    by (auto simp: sqlEffect_def db_prop_def db_rel_def S_refl split: sum.splits)
  then show "db_prop J (snd (case io_fault (nextIo w) of
        Some m \<Rightarrow> (Inl (DbFault m), if io_lost (nextIo w) then sqlEffect q w else afterIo w)
      | None \<Rightarrow> (case q (w_now (afterIo w)) (w_db w) of
            Inl c \<Rightarrow> Inl (DbError c) | Inr (a, d) \<Rightarrow> Inr a, sqlEffect q w))) \<and>
      db_rel S w (snd (case io_fault (nextIo w) of
        Some m \<Rightarrow> (Inl (DbFault m), if io_lost (nextIo w) then sqlEffect q w else afterIo w)
      | None \<Rightarrow> (case q (w_now (afterIo w)) (w_db w) of
            Inl c \<Rightarrow> Inl (DbError c) | Inr (a, d) \<Rightarrow> Inr a, sqlEffect q w)))"
    using w same_db[of "afterIo w" w] by (simp split: option.splits)
next
  fix w a
  assume "db_prop J w" and "fst (case io_fault (nextIo w) of
        Some m \<Rightarrow> (Inl (DbFault m), if io_lost (nextIo w) then sqlEffect q w else afterIo w)
      | None \<Rightarrow> (case q (w_now (afterIo w)) (w_db w) of
            Inl c \<Rightarrow> Inl (DbError c) | Inr (a, d) \<Rightarrow> Inr a, sqlEffect q w)) = Inr a"
  then show "ok (k a)"
    using k[of "w_db w" "w_now (afterIo w)"]
    by (auto simp: db_prop_def split: option.splits sum.splits prod.splits)
qed

lemma query_keeps:
  "(\<And>d. J d \<Longrightarrow> ok (k (q d))) \<Longrightarrow> ok (bindP (sqlQuery q) k)"
  unfolding sqlQuery_def by (rule sql_keeps) (auto simp: S_refl)

lemma exec_keeps:
  "(\<And>t d. J d \<Longrightarrow> J (u t d) \<and> S d (u t d)) \<Longrightarrow> ok (k ()) \<Longrightarrow> ok (bindP (sqlExec u) k)"
  unfolding sqlExec_def by (rule sql_keeps) auto

lemma check_keeps:
  "(\<And>t d d'. J d \<Longrightarrow> u t d = Inr d' \<Longrightarrow> J d' \<and> S d d') \<Longrightarrow> ok (k ())
     \<Longrightarrow> ok (bindP (sqlCheck u) k)"
  unfolding sqlCheck_def by (rule sql_keeps) (auto split: sum.splits)

lemma pure_keeps:
  "(\<And>t. ok (k t)) \<Longrightarrow> ok (bindP now k)"
  "(\<And>t. ok (k t)) \<Longrightarrow> ok (bindP (minutesAgo m) k)"
  "(\<And>t. ok (k t)) \<Longrightarrow> ok (bindP (minutesFromNow m) k)"
  "(\<And>t. ok (k t)) \<Longrightarrow> ok (bindP (daysFromNow m) k)"
  by (auto simp: now_def minutesAgo_def minutesFromNow_def daysFromNow_def
      intro!: guar_get_bindP rel_refl)

lemma createId_keeps: "(\<And>i. ok (k i)) \<Longrightarrow> ok (bindP createId k)"
  unfolding createId_def by (intro guar_bindP guar_syncW same_db) auto

lemma getRandomValues_keeps: "(\<And>i. ok (k i)) \<Longrightarrow> ok (bindP (getRandomValues n) k)"
  unfolding getRandomValues_def by (intro guar_bindP guar_syncW same_db) auto

lemma waitUntil_keeps: "ok (k ()) \<Longrightarrow> ok (bindP (waitUntil t) k)"
  unfolding waitUntil_def by (intro guar_bindP guar_setW same_db) auto

lemma getDb_keeps: "ok (k ()) \<Longrightarrow> ok (bindP (getDb c) k)"
  by (rule guar_bindP)
    (auto simp: getDb_def Let_def db_prop_def db_rel_def S_refl split: option.splits)

lemma fetchP_keeps: "(\<And>r. ok (k r)) \<Longrightarrow> ok (bindP (fetchP c req) k)"
  unfolding fetchP_def Let_def
  by (intro guar_bindP guar_awaitW same_db) (auto split: option.splits)

lemmas effect_keeps = query_keeps exec_keeps check_keeps pure_keeps createId_keeps
  getRandomValues_keeps waitUntil_keeps getDb_keeps fetchP_keeps

end

sublocale db_guarantee \<subseteq> worlds: world_guarantee "db_prop J" "db_rel S"
  by unfold_locales (auto simp: db_rel_def intro: S_refl S_trans)

end
