(* ===== verification/Text.thy ===== *)
theory Text
  imports Complex_Main Interfaces
begin

text \<open>
  The text helpers of \<open>packages/utils/shared/src/text.ts\<close>. Case conversion outside ASCII is
  a table of the runtime: \<open>upper\<close> and \<open>lower\<close> stand for \<open>toUpperCase\<close> and \<open>toLowerCase\<close>
  and are arguments of the functions that use them; \<open>asciiUpper\<close> and \<open>asciiLower\<close> are what
  they do on ASCII text.
\<close>

section \<open>Code points\<close>

definition isHighSurrogate :: "code_unit \<Rightarrow> bool" where
  "isHighSurrogate u \<longleftrightarrow> 0xD800 \<le> u \<and> u \<le> 0xDBFF"

definition isLowSurrogate :: "code_unit \<Rightarrow> bool" where
  "isLowSurrogate u \<longleftrightarrow> 0xDC00 \<le> u \<and> u \<le> 0xDFFF"

text \<open>The string iterator, as \<open>Array.from\<close> and \<open>u\<close>-flag regular expressions use it.\<close>

fun codePoints :: "jstring \<Rightarrow> nat list" where
  "codePoints [] = []"
| "codePoints [u] = [unat u]"
| "codePoints (u # v # s) =
     (if isHighSurrogate u \<and> isLowSurrogate v
      then (0x10000 + (unat u - 0xD800) * 0x400 + (unat v - 0xDC00)) # codePoints s
      else unat u # codePoints (v # s))"

definition getUnicodeLength :: "jstring \<Rightarrow> nat" where
  "getUnicodeLength text = length (codePoints text)"

definition calculateReadingTime :: "jstring \<Rightarrow> int \<Rightarrow> int \<Rightarrow> int" where
  "calculateReadingTime text baseTime charTime =
     (let charCount = int (getUnicodeLength text);
          calculatedTime = baseTime + charCount * charTime
      in min (max calculatedTime 2000) 10000)"

section \<open>Capitalisation\<close>

definition asciiUpper :: "jstring \<Rightarrow> jstring" where
  "asciiUpper s = map (\<lambda>u. if isLowerAlpha u then u - 32 else u) s"

definition asciiLower :: "jstring \<Rightarrow> jstring" where
  "asciiLower s = map (\<lambda>u. if isUpperAlpha u then u + 32 else u) s"

definition charAt0 :: "jstring \<Rightarrow> jstring" where
  "charAt0 s = take 1 s"

definition capitalizeFirst :: "(jstring \<Rightarrow> jstring) \<Rightarrow> jstring \<Rightarrow> jstring" where
  "capitalizeFirst upper text =
     (if \<not> truthy text then text else upper (charAt0 text) @ drop 1 text)"

lemma dropWhile_shorter:
  "dropWhile (\<lambda>u. \<not> P u) s \<noteq> [] \<Longrightarrow> length (dropWhile P (dropWhile (\<lambda>u. \<not> P u) s)) < length s"
proof -
  let ?r = "dropWhile (\<lambda>u. \<not> P u) s"
  assume r: "?r \<noteq> []"
  have "P (hd ?r)" using hd_dropWhile[OF r] by simp
  with r obtain x xs where "?r = x # xs" "P x" by (metis list.exhaust_sel)
  then have "length (dropWhile P ?r) < length ?r"
    using length_dropWhile_le[of P xs] by simp
  then show ?thesis using length_dropWhile_le[of "\<lambda>u. \<not> P u" s] by linarith
qed

text \<open>\<open>text.split(/\s+/)\<close>: a run of white space separates two pieces; pieces at the ends may be empty.\<close>

function splitSpaces :: "jstring \<Rightarrow> jstring list" where
  "splitSpaces s =
     (let word = takeWhile (\<lambda>u. \<not> isSpace u) s; rest = dropWhile (\<lambda>u. \<not> isSpace u) s
      in if rest = [] then [word] else word # splitSpaces (dropWhile isSpace rest))"
  by pat_completeness auto

termination
  by (relation "measure length") (auto intro: dropWhile_shorter)

declare splitSpaces.simps [simp del]

definition hasLatinChars :: "jstring \<Rightarrow> bool" where
  "hasLatinChars word \<longleftrightarrow> list_ex (\<lambda>u. isLowerAlpha u \<or> isUpperAlpha u) word"

definition capitalizeWord :: "(jstring \<Rightarrow> jstring) \<Rightarrow> (jstring \<Rightarrow> jstring) \<Rightarrow> jstring \<Rightarrow> jstring" where
  "capitalizeWord upper lower word =
     (if \<not> truthy word then word
      else if hasLatinChars word then upper (charAt0 word) @ lower (drop 1 word)
      else word)"

definition capitalizeWords :: "(jstring \<Rightarrow> jstring) \<Rightarrow> (jstring \<Rightarrow> jstring) \<Rightarrow> jstring \<Rightarrow> jstring" where
  "capitalizeWords upper lower text =
     join (lit '' '') (map (capitalizeWord upper lower) (splitSpaces text))"

definition getArticle :: "(jstring \<Rightarrow> jstring) \<Rightarrow> jstring \<Rightarrow> jstring" where
  "getArticle lower word =
     (if \<not> truthy word then lit ''a''
      else if lower (charAt0 word) \<in> set [lit ''a'', lit ''e'', lit ''i'', lit ''o'', lit ''u'']
      then lit ''an'' else lit ''a'')"

section \<open>Durations\<close>

text \<open>
  \<open>parseDuration\<close> on a string: the regular expression \<open>^(\d+(?:\.\d+)?)(s|ms)$\<close> splits it
  into a decimal number and a unit. The number is the rational the decimal denotes.
\<close>

datatype duration = DurationNumber rat | DurationText jstring

text \<open>\<open>parseInt\<close>: white space, a sign, the longest run of digits; \<open>None\<close> is \<open>NaN\<close>.\<close>

definition parseInt :: "jstring \<Rightarrow> int option" where
  "parseInt s = (let t = dropWhile isSpace s;
       neg = (t \<noteq> [] \<and> hd t = 45);
       u = (if t \<noteq> [] \<and> (hd t = 45 \<or> hd t = 43) then tl t else t);
       ds = takeWhile isDigit u;
       n = int (foldl (\<lambda>acc d. acc * 10 + (unat d - 48)) 0 ds)
     in if ds = [] then None else Some (if neg then - n else n))"

definition digitsValue :: "jstring \<Rightarrow> rat" where
  "digitsValue ds = foldl (\<lambda>acc u. acc * 10 + of_nat (unat u - 48)) 0 ds"

definition parseDecimal :: "jstring \<Rightarrow> (rat \<times> jstring) option" where
  "parseDecimal s =
     (let whole = takeWhile isDigit s; rest = dropWhile isDigit s in
      if whole = [] then None
      else case rest of
        [] \<Rightarrow> Some (digitsValue whole, [])
      | u # t \<Rightarrow>
          (let frac = takeWhile isDigit t in
           if [u] = lit ''.'' \<and> frac \<noteq> []
           then Some (digitsValue whole + digitsValue frac / 10 ^ length frac, dropWhile isDigit t)
           else Some (digitsValue whole, rest)))"

definition parseDuration :: "duration \<Rightarrow> jstring + rat" where
  "parseDuration d = (case d of
       DurationNumber n \<Rightarrow> Inr n
     | DurationText s \<Rightarrow>
         (case parseDecimal s of
            Some (v, u) \<Rightarrow>
              (if u = lit ''s'' then Inr (v * 1000) else if u = lit ''ms'' then Inr v
               else Inl (lit ''Invalid duration format: '' @ s @ lit ''. Use format like \"3s\" or \"500ms\"''))
          | None \<Rightarrow> Inl (lit ''Invalid duration format: '' @ s @ lit ''. Use format like \"3s\" or \"500ms\"'')))"

section \<open>Facts\<close>

lemma codePoints_length_le: "length (codePoints s) \<le> length s"
  by (induction s rule: codePoints.induct) auto

lemma codePoints_bmp:
  "list_all (\<lambda>u. \<not> isHighSurrogate u) s \<Longrightarrow> codePoints s = map unat s"
  by (induction s rule: codePoints.induct) auto

lemma length_codePoints_append_pair:
  assumes "isHighSurrogate u" "isLowSurrogate v" "list_all (\<lambda>u. \<not> isHighSurrogate u) s"
  shows "length (codePoints (s @ [u, v])) = Suc (length s)"
  using assms by (induction s rule: codePoints.induct) auto

lemma splitSpaces_nonspace: "list_all (\<lambda>u. \<not> isSpace u) s \<Longrightarrow> splitSpaces s = [s]"
proof -
  assume "list_all (\<lambda>u. \<not> isSpace u) s"
  then have "takeWhile (\<lambda>u. \<not> isSpace u) s = s" "dropWhile (\<lambda>u. \<not> isSpace u) s = []"
    by (auto simp: list_all_iff)
  then show ?thesis by (simp add: splitSpaces.simps[of s])
qed

lemma splitSpaces_pieces: "w \<in> set (splitSpaces s) \<Longrightarrow> list_all (\<lambda>u. \<not> isSpace u) w"
proof (induction s rule: splitSpaces.induct)
  case (1 s)
  let ?rest = "dropWhile (\<lambda>u. \<not> isSpace u) s"
  have word: "list_all (\<lambda>u. \<not> isSpace u) (takeWhile (\<lambda>u. \<not> isSpace u) s)"
    by (auto simp: list_all_iff dest: set_takeWhileD)
  from "1.prems" have "w = takeWhile (\<lambda>u. \<not> isSpace u) s
      \<or> (?rest \<noteq> [] \<and> w \<in> set (splitSpaces (dropWhile isSpace ?rest)))"
    by (auto simp: splitSpaces.simps[of s] Let_def split: if_splits)
  with "1.IH" word show ?case by auto
qed

lemma splitSpaces_neq_Nil [simp]: "splitSpaces s \<noteq> []"
  by (subst splitSpaces.simps) (simp add: Let_def)

text \<open>Joining pieces without white space by single spaces and splitting again gives the pieces back.\<close>

lemma splitSpaces_join:
  assumes "ws \<noteq> []" "\<forall>w \<in> set ws. list_all (\<lambda>u. \<not> isSpace u) w" "\<forall>w \<in> set (tl ws). w \<noteq> []"
  shows "splitSpaces (join (lit '' '') ws) = ws"
  using assms
proof (induction ws rule: induct_list012)
  case (2 w)
  then show ?case by (simp add: splitSpaces_nonspace)
next
  case (3 w v ws)
  let ?t = "join (lit '' '') (v # ws)"
  have sp: "lit '' '' = [0x20]" "isSpace 0x20" by (simp_all add: lit_def isSpace_def)
  have w: "list_all (\<lambda>u. \<not> isSpace u) w" and v: "list_all (\<lambda>u. \<not> isSpace u) v" "v \<noteq> []"
    using "3.prems" by auto
  have tw: "takeWhile (\<lambda>u. \<not> isSpace u) (w @ 0x20 # ?t) = w"
    and dw: "dropWhile (\<lambda>u. \<not> isSpace u) (w @ 0x20 # ?t) = 0x20 # ?t"
    using w sp(2) by (simp_all add: list_all_iff takeWhile_append dropWhile_append)
  obtain u v' where u: "v = u # v'" using v by (cases v) auto
  then have "dropWhile isSpace ?t = ?t" using v by (cases ws) (auto simp: list_all_iff)
  then have "dropWhile isSpace (0x20 # ?t) = ?t" using sp(2) by simp
  moreover have "splitSpaces ?t = v # ws" using "3.IH"(2) "3.prems" by simp
  ultimately have "splitSpaces (w @ 0x20 # ?t) = w # v # ws"
    unfolding splitSpaces.simps[of "w @ 0x20 # ?t"] tw dw Let_def by simp
  then show ?case by (simp add: sp(1))
qed simp

end
