(* ===== verification/Schemas.thy ===== *)
theory Schemas
  imports Platform Text
begin

text \<open>
  The request schemas of \<open>packages/schemas/src\<close>. A schema maps an optional JSON value
  (\<open>None\<close> is \<open>undefined\<close>) to its issues or to the parsed value. The combinators are read
  as zod 4 documents them: a value of the wrong type or a failed check before a
  \<open>transform\<close> ends the parse of that value, the \<open>refine\<close> checks after it all run, and an
  object collects the issues of all its fields and drops the fields it does not name. An
  issue is a path and a message; a message of \<open>None\<close> is zod's own. Unicode classes, lower
  case and the e-mail pattern are in \<open>ext\<close>.
\<close>

section \<open>Combinators\<close>

type_synonym issue = "jstring list \<times> jstring option"
type_synonym 'a parsed = "issue list + 'a"

definition typeIssue :: "'a parsed" where
  "typeIssue = Inl [([], None)]"

definition failMsg :: "string \<Rightarrow> 'a parsed" where
  "failMsg m = Inl [([], Some (lit m))]"

definition andThen :: "'a parsed \<Rightarrow> ('a \<Rightarrow> 'b parsed) \<Rightarrow> 'b parsed" where
  "andThen r k = (case r of Inl is \<Rightarrow> Inl is | Inr a \<Rightarrow> k a)"

text \<open>The \<open>refine\<close> checks of a schema: all failed ones are reported, in order.\<close>

definition refineAll :: "'a \<Rightarrow> (bool \<times> string) list \<Rightarrow> 'a parsed" where
  "refineAll a checks =
     (case filter (\<lambda>(b, m). \<not> b) checks of
        [] \<Rightarrow> Inr a
      | failed \<Rightarrow> Inl (map (\<lambda>(b, m). ([], Some (lit m))) failed))"

definition atPath :: "string \<Rightarrow> 'a parsed \<Rightarrow> issue list" where
  "atPath k r = (case r of Inl is \<Rightarrow> map (\<lambda>(p, m). (lit k # p, m)) is | Inr _ \<Rightarrow> [])"

definition objectFields :: "json option \<Rightarrow> fields parsed" where
  "objectFields v = (case v of Some (JObj fs) \<Rightarrow> Inr fs | _ \<Rightarrow> typeIssue)"

definition zOptional :: "(json option \<Rightarrow> 'a parsed) \<Rightarrow> json option \<Rightarrow> 'a option parsed" where
  "zOptional s v = (case v of None \<Rightarrow> Inr None | Some j \<Rightarrow> andThen (s v) (\<lambda>a. Inr (Some a)))"

definition zString :: "json option \<Rightarrow> jstring parsed" where
  "zString v = (case v of Some (JStr s) \<Rightarrow> Inr s | _ \<Rightarrow> typeIssue)"

definition zNonempty :: "string \<Rightarrow> json option \<Rightarrow> jstring parsed" where
  "zNonempty m v = andThen (zString v) (\<lambda>s. if s = [] then failMsg m else Inr s)"

definition zEnum :: "(string \<times> 'a) list \<Rightarrow> string option \<Rightarrow> json option \<Rightarrow> 'a parsed" where
  "zEnum opts m v = (case v of
       Some (JStr s) \<Rightarrow>
         (case find (\<lambda>(k, a). lit k = s) opts of
            Some (k, a) \<Rightarrow> Inr a
          | None \<Rightarrow> Inl [([], map_option lit m)])
     | _ \<Rightarrow> Inl [([], map_option lit m)])"

section \<open>\<open>primitives.ts\<close>\<close>

text \<open>\<open>/^[2-9]\d{2}[2-9](?!11)\d{2}\d{4}$/\<close>\<close>

definition isDigit29 :: "code_unit \<Rightarrow> bool" where
  "isDigit29 u \<longleftrightarrow> 50 \<le> u \<and> u \<le> 57"

fun isPhone :: "jstring \<Rightarrow> bool" where
  "isPhone [a, b, c, d, e, f, g, h, i, j] \<longleftrightarrow>
     isDigit29 a \<and> isDigit b \<and> isDigit c \<and> isDigit29 d \<and> \<not> (e = 49 \<and> f = 49)
     \<and> isDigit e \<and> isDigit f \<and> isDigit g \<and> isDigit h \<and> isDigit i \<and> isDigit j"
| "isPhone _ \<longleftrightarrow> False"

definition phone :: "json option \<Rightarrow> jstring parsed" where
  "phone v = andThen (zNonempty ''Phone number is required'' v) (\<lambda>val.
     let t = stripNonDigits (trim val) in
     refineAll t [(isPhone t, ''Invalid phone number'')])"

definition email :: "ext \<Rightarrow> json option \<Rightarrow> jstring parsed" where
  "email x v = andThen (zNonempty ''Email is required'' v) (\<lambda>val.
     let t = x_toLowerCase x (trim val) in
     if x_isEmail x t then Inr t else failMsg ''Invalid email address'')"

definition isOtp :: "jstring \<Rightarrow> bool" where
  "isOtp s \<longleftrightarrow> length s = 6 \<and> list_all isDigit s"

definition otp :: "json option \<Rightarrow> jstring parsed" where
  "otp v = andThen (zNonempty ''OTP is required'' v) (\<lambda>val.
     let t = trim val in refineAll t [(isOtp t, ''OTP must be 6 digits'')])"

text \<open>\<open>/^[\p{L}\p{M}\s]+$/u\<close>\<close>

definition isNameText :: "ext \<Rightarrow> jstring \<Rightarrow> bool" where
  "isNameText x s \<longleftrightarrow> codePoints s \<noteq> []
     \<and> list_all (\<lambda>p. x_letterOrMark x p \<or> (p < 65536 \<and> isSpace (of_nat p))) (codePoints s)"

definition userName :: "ext \<Rightarrow> json option \<Rightarrow> jstring parsed" where
  "userName x v = andThen (zNonempty ''Name is required'' v) (\<lambda>val.
     let t = trim val in
     refineAll t
       [(2 \<le> length t, ''Name is too short''),
        (length t \<le> 50, ''Name is too long (max 50 characters)''),
        (isNameText x t, ''Name contains invalid characters'')])"

definition gender :: "json option \<Rightarrow> gender parsed" where
  "gender v = zEnum [(''male'', Male), (''female'', Female)] (Some ''Gender is required'') v"

text \<open>
  \<open>z.number().int()\<close> wants a safe integer; a fraction ends the checks, an integer beyond the
  safe range does not. \<open>year\<close> is \<open>new Date().getFullYear()\<close>.
\<close>

definition birthYear :: "int \<Rightarrow> json option \<Rightarrow> int parsed" where
  "birthYear year v = (case v of
       Some (JNum q) \<Rightarrow>
         (if q \<noteq> of_int \<lfloor>q\<rfloor> then failMsg ''Birth year must be a whole number''
          else refineAll \<lfloor>q\<rfloor>
            [(\<bar>\<lfloor>q\<rfloor>\<bar> \<le> 2 ^ 53 - 1, ''Birth year must be a whole number''),
             (1900 \<le> \<lfloor>q\<rfloor>, ''Birth year too far in the past''),
             (\<lfloor>q\<rfloor> \<le> year - 13, ''Must be at least 13 years old'')])
     | _ \<Rightarrow> failMsg ''Birth year is required'')"

definition deviceOs :: "json option \<Rightarrow> device_os parsed" where
  "deviceOs v = zEnum [(''ios'', Ios), (''android'', Android), (''windows'', Windows),
     (''macos'', Macos), (''web'', Web)] None v"

definition zNullableNumber :: "json option \<Rightarrow> rat option parsed" where
  "zNullableNumber v = (case v of
       Some JNull \<Rightarrow> Inr None
     | Some (JNum q) \<Rightarrow> Inr (Some q)
     | _ \<Rightarrow> typeIssue)"

definition deviceInfo :: "json option \<Rightarrow> device_info parsed" where
  "deviceInfo v = andThen (objectFields v) (\<lambda>fs.
     let a = deviceOs (map_of fs (lit ''os''));
         b = zString (map_of fs (lit ''osVersion''));
         c = zString (map_of fs (lit ''model''));
         d = zString (map_of fs (lit ''brand''));
         e = zNullableNumber (map_of fs (lit ''deviceYearClass''));
         f = zString (map_of fs (lit ''appVersion''));
         g = zString (map_of fs (lit ''buildNumber''))
     in case (a, b, c, d, e, f, g) of
          (Inr a', Inr b', Inr c', Inr d', Inr e', Inr f', Inr g') \<Rightarrow>
            Inr \<lparr>di_os = a', di_osVersion = b', di_model = c', di_brand = d',
                 di_deviceYearClass = e', di_appVersion = f', di_buildNumber = g'\<rparr>
        | _ \<Rightarrow> Inl (atPath ''os'' a @ atPath ''osVersion'' b @ atPath ''model'' c @ atPath ''brand'' d
                 @ atPath ''deviceYearClass'' e @ atPath ''appVersion'' f @ atPath ''buildNumber'' g))"

definition isRefreshTokenText :: "jstring \<Rightarrow> bool" where
  "isRefreshTokenText s \<longleftrightarrow> length s = 24 \<and> list_all (\<lambda>u. isDigit u \<or> isLowerAlpha u) s"

definition refreshToken :: "json option \<Rightarrow> jstring parsed" where
  "refreshToken v = andThen (zNonempty ''Refresh token is required'' v) (\<lambda>val.
     let t = trim val in
     refineAll t
       [(length t = 24, ''Invalid refresh token length''),
        (isRefreshTokenText t, ''Invalid refresh token format'')])"

datatype otp_purpose = LoginPurpose | SignupPurpose

definition otpRequestPurpose :: "json option \<Rightarrow> otp_purpose parsed" where
  "otpRequestPurpose v = zEnum [(''login'', LoginPurpose), (''signup'', SignupPurpose)] None v"

definition oauthIdToken :: "json option \<Rightarrow> jstring parsed" where
  "oauthIdToken v = andThen (zNonempty ''OAuth ID token is required'' v) (\<lambda>val.
     let t = trim val in refineAll t [(100 \<le> length t, ''Invalid OAuth ID token format'')])"

section \<open>\<open>auth.ts\<close>\<close>

record otp_request =
  or_phone :: jstring
  or_purpose :: otp_purpose

record phone_signup_request =
  ps_phone :: jstring
  ps_code :: jstring
  ps_name :: jstring
  ps_gender :: gender
  ps_birthYear :: int
  ps_deviceInfo :: "device_info option"

record phone_signin_request =
  pi_phone :: jstring
  pi_code :: jstring
  pi_deviceInfo :: "device_info option"

record oauth_signin_request =
  oi_idToken :: jstring
  oi_deviceInfo :: "device_info option"

record oauth_signup_request =
  os_provider :: provider
  os_providerId :: jstring
  os_email :: jstring
  os_name :: jstring
  os_gender :: gender
  os_birthYear :: int
  os_deviceInfo :: "device_info option"

record refresh_request =
  rr_refreshToken :: jstring

definition otpRequestSchema :: "json option \<Rightarrow> otp_request parsed" where
  "otpRequestSchema v = andThen (objectFields v) (\<lambda>fs.
     let a = phone (map_of fs (lit ''phone'')); b = otpRequestPurpose (map_of fs (lit ''purpose''))
     in case (a, b) of
          (Inr a', Inr b') \<Rightarrow> Inr \<lparr>or_phone = a', or_purpose = b'\<rparr>
        | _ \<Rightarrow> Inl (atPath ''phone'' a @ atPath ''purpose'' b))"

definition phoneSignupSchema :: "ext \<Rightarrow> int \<Rightarrow> json option \<Rightarrow> phone_signup_request parsed" where
  "phoneSignupSchema x year v = andThen (objectFields v) (\<lambda>fs.
     let a = phone (map_of fs (lit ''phone''));
         b = otp (map_of fs (lit ''code''));
         c = userName x (map_of fs (lit ''name''));
         d = gender (map_of fs (lit ''gender''));
         e = birthYear year (map_of fs (lit ''birthYear''));
         f = zOptional deviceInfo (map_of fs (lit ''deviceInfo''))
     in case (a, b, c, d, e, f) of
          (Inr a', Inr b', Inr c', Inr d', Inr e', Inr f') \<Rightarrow>
            Inr \<lparr>ps_phone = a', ps_code = b', ps_name = c', ps_gender = d', ps_birthYear = e',
                 ps_deviceInfo = f'\<rparr>
        | _ \<Rightarrow> Inl (atPath ''phone'' a @ atPath ''code'' b @ atPath ''name'' c @ atPath ''gender'' d
                 @ atPath ''birthYear'' e @ atPath ''deviceInfo'' f))"

definition phoneSignInSchema :: "json option \<Rightarrow> phone_signin_request parsed" where
  "phoneSignInSchema v = andThen (objectFields v) (\<lambda>fs.
     let a = phone (map_of fs (lit ''phone''));
         b = otp (map_of fs (lit ''code''));
         c = zOptional deviceInfo (map_of fs (lit ''deviceInfo''))
     in case (a, b, c) of
          (Inr a', Inr b', Inr c') \<Rightarrow> Inr \<lparr>pi_phone = a', pi_code = b', pi_deviceInfo = c'\<rparr>
        | _ \<Rightarrow> Inl (atPath ''phone'' a @ atPath ''code'' b @ atPath ''deviceInfo'' c))"

definition oauthSignInSchema :: "json option \<Rightarrow> oauth_signin_request parsed" where
  "oauthSignInSchema v = andThen (objectFields v) (\<lambda>fs.
     let a = oauthIdToken (map_of fs (lit ''idToken''));
         b = zOptional deviceInfo (map_of fs (lit ''deviceInfo''))
     in case (a, b) of
          (Inr a', Inr b') \<Rightarrow> Inr \<lparr>oi_idToken = a', oi_deviceInfo = b'\<rparr>
        | _ \<Rightarrow> Inl (atPath ''idToken'' a @ atPath ''deviceInfo'' b))"

definition refreshTokensSchema :: "json option \<Rightarrow> refresh_request parsed" where
  "refreshTokensSchema v = andThen (objectFields v) (\<lambda>fs.
     let a = refreshToken (map_of fs (lit ''refreshToken''))
     in case a of
          Inr a' \<Rightarrow> Inr \<lparr>rr_refreshToken = a'\<rparr>
        | Inl _ \<Rightarrow> Inl (atPath ''refreshToken'' a))"

definition oauthSignupSchema :: "ext \<Rightarrow> int \<Rightarrow> json option \<Rightarrow> oauth_signup_request parsed" where
  "oauthSignupSchema x year v = andThen (objectFields v) (\<lambda>fs.
     let a = zEnum [(''google'', Google), (''apple'', Apple)] None (map_of fs (lit ''provider''));
         b = zNonempty ''Provider ID is required'' (map_of fs (lit ''providerId''));
         c = email x (map_of fs (lit ''email''));
         d = userName x (map_of fs (lit ''name''));
         e = gender (map_of fs (lit ''gender''));
         f = birthYear year (map_of fs (lit ''birthYear''));
         g = zOptional deviceInfo (map_of fs (lit ''deviceInfo''))
     in case (a, b, c, d, e, f, g) of
          (Inr a', Inr b', Inr c', Inr d', Inr e', Inr f', Inr g') \<Rightarrow>
            Inr \<lparr>os_provider = a', os_providerId = b', os_email = c', os_name = d', os_gender = e',
                 os_birthYear = f', os_deviceInfo = g'\<rparr>
        | _ \<Rightarrow> Inl (atPath ''provider'' a @ atPath ''providerId'' b @ atPath ''email'' c @ atPath ''name'' d
                 @ atPath ''gender'' e @ atPath ''birthYear'' f @ atPath ''deviceInfo'' g))"

definition logoutSchema :: "json option \<Rightarrow> refresh_request parsed" where
  "logoutSchema v = andThen (objectFields v) (\<lambda>fs.
     let a = refreshToken (map_of fs (lit ''refreshToken''))
     in case a of
          Inr a' \<Rightarrow> Inr \<lparr>rr_refreshToken = a'\<rparr>
        | Inl _ \<Rightarrow> Inl (atPath ''refreshToken'' a))"

section \<open>\<open>upload.ts\<close>\<close>

text \<open>\<open>/^image\/(jpeg|jpg|png|webp)$/\<close>\<close>

definition isImageType :: "jstring \<Rightarrow> bool" where
  "isImageType s \<longleftrightarrow> s \<in> set (map lit [''image/jpeg'', ''image/jpg'', ''image/png'', ''image/webp''])"

record presigned_request =
  pr_contentType :: jstring
  pr_fileName :: jstring

record direct_upload_query =
  du_key :: jstring
  du_contentType :: jstring

definition presignedUrlSchema :: "json option \<Rightarrow> presigned_request parsed" where
  "presignedUrlSchema v = andThen (objectFields v) (\<lambda>fs.
     let a = andThen (zString (map_of fs (lit ''contentType'')))
           (\<lambda>s. refineAll s [(isImageType s, ''Only image files are allowed'')]);
         b = andThen (zString (map_of fs (lit ''fileName'')))
           (\<lambda>s. refineAll s [(s \<noteq> [], ''File name is required''), (length s \<le> 100, ''File name too long'')])
     in case (a, b) of
          (Inr a', Inr b') \<Rightarrow> Inr \<lparr>pr_contentType = a', pr_fileName = b'\<rparr>
        | _ \<Rightarrow> Inl (atPath ''contentType'' a @ atPath ''fileName'' b))"

definition directUploadQuerySchema :: "json option \<Rightarrow> direct_upload_query parsed" where
  "directUploadQuerySchema v = andThen (objectFields v) (\<lambda>fs.
     let a = zNonempty ''Key is required'' (map_of fs (lit ''key''));
         b = andThen (zString (map_of fs (lit ''contentType'')))
           (\<lambda>s. refineAll s [(isImageType s, ''Invalid content type'')])
     in case (a, b) of
          (Inr a', Inr b') \<Rightarrow> Inr \<lparr>du_key = a', du_contentType = b'\<rparr>
        | _ \<Rightarrow> Inl (atPath ''key'' a @ atPath ''contentType'' b))"

section \<open>Facts\<close>

lemma andThen_simps [simp]:
  "andThen (Inr a) k = k a" "andThen (Inl is) k = Inl is"
  by (simp_all add: andThen_def)

lemma andThen_eq_Inr [simp]: "andThen r k = Inr b \<longleftrightarrow> (\<exists>a. r = Inr a \<and> k a = Inr b)"
  by (cases r) auto

lemma refineAll_eq_Inr [simp]: "refineAll a cs = Inr b \<longleftrightarrow> b = a \<and> list_all fst cs"
proof -
  have "filter (\<lambda>(b, m). \<not> b) cs = [] \<longleftrightarrow> list_all fst cs"
    by (induction cs) auto
  then show ?thesis by (auto simp: refineAll_def split: list.splits)
qed

lemma zString_eq_Inr [simp]: "zString v = Inr s \<longleftrightarrow> v = Some (JStr s)"
  by (auto simp: zString_def typeIssue_def split: option.splits json.splits)

lemma zNonempty_eq_Inr [simp]: "zNonempty m v = Inr s \<longleftrightarrow> v = Some (JStr s) \<and> s \<noteq> []"
  by (auto simp: zNonempty_def failMsg_def)

lemma isDigit29_isDigit: "isDigit29 u \<Longrightarrow> isDigit u"
  by (auto simp: isDigit29_def isDigit_def word_le_nat_alt)

lemma isDigit_not_space: "isDigit u \<Longrightarrow> \<not> isSpace u"
  by (auto simp: isDigit_def isSpace_def word_le_nat_alt)

lemma isLowerAlpha_not_space: "isLowerAlpha u \<Longrightarrow> \<not> isSpace u"
  by (auto simp: isLowerAlpha_def isSpace_def word_le_nat_alt)

lemma trim_no_space: "list_all (\<lambda>u. \<not> isSpace u) s \<Longrightarrow> trim s = s"
  by (cases "s = []") (auto intro!: trim_id simp: list_all_iff)

lemma trim_digits: "list_all isDigit s \<Longrightarrow> trim s = s"
  by (rule trim_no_space) (auto simp: list_all_iff isDigit_not_space)

lemma isPhone_shape: "isPhone p \<Longrightarrow> length p = 10 \<and> list_all isDigit p"
  by (cases p rule: isPhone.cases) (auto simp: isDigit29_isDigit)

lemma phone_eq_Inr:
  "phone v = Inr p \<longleftrightarrow> (\<exists>s. v = Some (JStr s) \<and> s \<noteq> [] \<and> p = stripNonDigits (trim s) \<and> isPhone p)"
  by (auto simp: phone_def Let_def)

lemma otp_eq_Inr:
  "otp v = Inr c \<longleftrightarrow> (\<exists>s. v = Some (JStr s) \<and> s \<noteq> [] \<and> c = trim s \<and> isOtp c)"
  by (auto simp: otp_def Let_def)

lemma refreshToken_eq_Inr:
  "refreshToken v = Inr t \<longleftrightarrow>
     (\<exists>s. v = Some (JStr s) \<and> s \<noteq> [] \<and> t = trim s \<and> isRefreshTokenText t)"
  by (auto simp: refreshToken_def Let_def isRefreshTokenText_def)

lemma birthYear_eq_Inr:
  "birthYear year v = Inr y \<longleftrightarrow>
     v = Some (JNum (of_int y)) \<and> \<bar>y\<bar> \<le> 2 ^ 53 - 1 \<and> 1900 \<le> y \<and> y \<le> year - 13"
  by (auto simp: birthYear_def failMsg_def split: option.splits json.splits if_splits)

end
