(* ===== verification/Responses.thy ===== *)
theory Responses
  imports Platform
begin

text \<open>
  The response helpers of \<open>apps/api/src/utils/response.ts\<close>. A response is a status and a JSON
  body (\<open>c.body(null, 204)\<close> has none). Every error helper is a call of \<open>res_err\<close> with a
  status and a code; \<open>respCode\<close> reads the code back, as the client does.
\<close>

record response =
  r_status :: nat
  r_body :: "json option"

record response_options =
  ro_status :: "nat option"
  ro_meta :: "fields option"

record pagination_meta =
  pm_page :: nat
  pm_limit :: nat
  pm_total :: nat
  pm_totalPages :: nat

definition noOptions :: response_options where
  "noOptions = \<lparr>ro_status = None, ro_meta = None\<rparr>"

definition res_ok :: "fields \<Rightarrow> response_options \<Rightarrow> response" where
  "res_ok data options =
     \<lparr>r_status = (case ro_status options of None \<Rightarrow> 200 | Some s \<Rightarrow> s),
      r_body = Some (JObj (spread data
        (case ro_meta options of None \<Rightarrow> [] | Some m \<Rightarrow> [(lit ''meta'', JObj m)])))\<rparr>"

definition res_created :: "fields \<Rightarrow> response" where
  "res_created data = res_ok data \<lparr>ro_status = Some 201, ro_meta = None\<rparr>"

definition res_noContent :: response where
  "res_noContent = \<lparr>r_status = 204, r_body = None\<rparr>"

definition res_err :: "jstring \<Rightarrow> nat option \<Rightarrow> jstring option \<Rightarrow> json option \<Rightarrow> response" where
  "res_err error status code details =
     \<lparr>r_status = (case status of None \<Rightarrow> 400 | Some s \<Rightarrow> s),
      r_body = Some (JObj
        ([(lit ''error'', JStr error),
          (lit ''code'', JStr (case code of None \<Rightarrow> lit ''UNKNOWN_ERROR'' | Some k \<Rightarrow> k))]
         @ (case details of None \<Rightarrow> [] | Some d \<Rightarrow> [(lit ''details'', d)])))\<rparr>"

definition jnat :: "nat \<Rightarrow> json" where
  "jnat n = JNum (of_nat n)"

definition paginationFields :: "pagination_meta \<Rightarrow> json" where
  "paginationFields p = JObj [(lit ''page'', jnat (pm_page p)), (lit ''limit'', jnat (pm_limit p)),
     (lit ''total'', jnat (pm_total p)), (lit ''totalPages'', jnat (pm_totalPages p))]"

definition reservedKeys :: "jstring list" where
  "reservedKeys = [lit ''pagination'', lit ''page'', lit ''limit'', lit ''total'', lit ''totalPages'']"

definition res_paginated :: "json list \<Rightarrow> pagination_meta \<Rightarrow> response_options \<Rightarrow> response" where
  "res_paginated data pagination options =
     (if (case ro_meta options of None \<Rightarrow> False
          | Some m \<Rightarrow> list_ex (\<lambda>key. key \<in> set reservedKeys) (map fst m))
      then res_err (lit ''Pagination meta keys are reserved'') (Some 500) (Some (lit ''INTERNAL_ERROR'')) None
      else res_ok [(lit ''items'', JArr data)]
        (options\<lparr>ro_meta := Some (spread [(lit ''pagination'', paginationFields pagination)]
           (case ro_meta options of None \<Rightarrow> [] | Some m \<Rightarrow> m))\<rparr>))"

section \<open>The error helpers\<close>

definition res_coded :: "nat \<Rightarrow> string \<Rightarrow> jstring \<Rightarrow> response" where
  "res_coded status code error = res_err error (Some status) (Some (lit code)) None"

text \<open>A default argument of a helper is taken when the caller passes no text.\<close>

definition orDefault :: "jstring option \<Rightarrow> string \<Rightarrow> jstring" where
  "orDefault error text = (case error of None \<Rightarrow> lit text | Some e \<Rightarrow> e)"

lemma orDefault_simps [simp]: "orDefault None t = lit t" "orDefault (Some e) t = e"
  by (simp_all add: orDefault_def)

definition res_badRequest :: "jstring \<Rightarrow> json option \<Rightarrow> response" where
  "res_badRequest error details = res_err error (Some 400) (Some (lit ''BAD_REQUEST'')) details"

definition res_unauthorized :: "jstring option \<Rightarrow> response" where
  "res_unauthorized error = res_coded 401 ''UNAUTHORIZED'' (orDefault error ''Unauthorized'')"

definition res_missingToken :: "jstring option \<Rightarrow> response" where
  "res_missingToken error = res_coded 401 ''MISSING_TOKEN''
     (orDefault error ''Access token required'')"

definition res_invalidToken :: "jstring option \<Rightarrow> response" where
  "res_invalidToken error = res_coded 401 ''INVALID_TOKEN''
     (orDefault error ''Invalid access token'')"

definition res_expiredToken :: "jstring option \<Rightarrow> response" where
  "res_expiredToken error = res_coded 401 ''EXPIRED_TOKEN''
     (orDefault error ''Access token expired'')"

definition res_invalidRefreshToken :: "jstring option \<Rightarrow> response" where
  "res_invalidRefreshToken error = res_coded 401 ''INVALID_REFRESH_TOKEN''
     (orDefault error ''Invalid or expired refresh token'')"

definition res_invalidOtp :: "jstring option \<Rightarrow> response" where
  "res_invalidOtp error = res_coded 401 ''OTP_INVALID''
     (orDefault error ''Invalid OTP! Please check and try again.'')"

definition res_expiredOtp :: "jstring option \<Rightarrow> response" where
  "res_expiredOtp error = res_coded 401 ''EXPIRED_OTP''
     (orDefault error ''OTP has expired'')"

definition res_tooManyOtpAttempts :: "jstring option \<Rightarrow> response" where
  "res_tooManyOtpAttempts error = res_coded 401 ''OTP_MAX_ATTEMPTS''
     (orDefault error ''Too many failed attempts. Please request a new OTP.'')"

definition res_rateLimited :: "jstring option \<Rightarrow> response" where
  "res_rateLimited error = res_coded 429 ''RATE_LIMITED''
     (orDefault error ''Too many requests, try again later'')"

definition res_otpRateLimited :: "jstring option \<Rightarrow> response" where
  "res_otpRateLimited error = res_coded 429 ''OTP_RATE_LIMITED''
     (orDefault error ''Too many OTP requests, try again later'')"

definition res_forbidden :: "jstring option \<Rightarrow> response" where
  "res_forbidden error = res_coded 403 ''FORBIDDEN'' (orDefault error ''Forbidden'')"

definition res_notFound :: "jstring option \<Rightarrow> response" where
  "res_notFound error = res_coded 404 ''NOT_FOUND''
     (orDefault error ''Not found'')"

definition res_conflict :: "jstring \<Rightarrow> json option \<Rightarrow> response" where
  "res_conflict error details = res_err error (Some 409) (Some (lit ''CONFLICT'')) details"

definition res_validationError :: "json \<Rightarrow> response" where
  "res_validationError details =
     res_err (lit ''Validation failed'') (Some 422) (Some (lit ''VALIDATION_ERROR'')) (Some details)"

definition res_tooManyRequests :: "jstring option \<Rightarrow> response" where
  "res_tooManyRequests error = res_coded 429 ''TOO_MANY_REQUESTS'' (orDefault error ''Too many requests'')"

definition res_internalError :: "jstring option \<Rightarrow> response" where
  "res_internalError error = res_coded 500 ''INTERNAL_ERROR'' (orDefault error ''Internal server error'')"

definition res_serviceUnavailable :: "jstring option \<Rightarrow> response" where
  "res_serviceUnavailable error = res_coded 503 ''SERVICE_UNAVAILABLE'' (orDefault error ''Service unavailable'')"

definition res_databaseError :: "jstring option \<Rightarrow> response" where
  "res_databaseError error = res_coded 500 ''DATABASE_ERROR'' (orDefault error ''Database operation failed'')"

definition res_smsServiceError :: "jstring option \<Rightarrow> response" where
  "res_smsServiceError error = res_coded 503 ''SMS_SERVICE_ERROR'' (orDefault error ''SMS service unavailable'')"

definition res_userNotFound :: "jstring option \<Rightarrow> response" where
  "res_userNotFound error = res_coded 404 ''USER_NOT_FOUND'' (orDefault error ''User not found'')"

definition res_userExists :: "jstring option \<Rightarrow> response" where
  "res_userExists error = res_coded 409 ''USER_EXISTS'' (orDefault error ''User already exists'')"

definition res_profileIncomplete :: "jstring option \<Rightarrow> response" where
  "res_profileIncomplete error = res_coded 409 ''PROFILE_INCOMPLETE'' (orDefault error ''User profile incomplete'')"

lemmas res_defs = res_badRequest_def res_unauthorized_def res_missingToken_def
  res_invalidToken_def res_expiredToken_def res_invalidRefreshToken_def res_invalidOtp_def
  res_expiredOtp_def res_tooManyOtpAttempts_def res_rateLimited_def res_otpRateLimited_def
  res_forbidden_def res_notFound_def res_validationError_def
  res_tooManyRequests_def res_internalError_def res_serviceUnavailable_def
  res_databaseError_def res_smsServiceError_def res_userNotFound_def res_userExists_def
  res_profileIncomplete_def

section \<open>Reading a response\<close>

definition bodyField :: "string \<Rightarrow> response \<Rightarrow> json option" where
  "bodyField k r = (case r_body r of None \<Rightarrow> None | Some b \<Rightarrow> jsonField (lit k) b)"

definition respCode :: "response \<Rightarrow> jstring option" where
  "respCode r = (case bodyField ''code'' r of Some (JStr s) \<Rightarrow> Some s | _ \<Rightarrow> None)"

lemma r_status_coded [simp]: "r_status (res_coded s k m) = s"
  by (simp add: res_coded_def res_err_def)

lemma respCode_coded [simp]: "respCode (res_coded s k m) = Some (lit k)"
  by (simp add: res_coded_def res_err_def respCode_def bodyField_def)

lemma bodyField_coded:
  "bodyField f (res_coded s k m) =
     (if f = ''error'' then Some (JStr m) else if f = ''code'' then Some (JStr (lit k)) else None)"
  by (simp add: res_coded_def res_err_def bodyField_def)

lemma res_coded_eq_iff [simp]: "res_coded s k m = res_coded s' k' m' \<longleftrightarrow> s = s' \<and> k = k' \<and> m = m'"
  by (auto simp: res_coded_def res_err_def)

lemma res_conflict_coded [simp]: "res_conflict e None = res_coded 409 ''CONFLICT'' e"
  by (simp add: res_conflict_def res_coded_def)

lemma res_ok_simps [simp]:
  "r_status (res_ok data noOptions) = 200"
  "r_body (res_ok data noOptions) = Some (JObj data)"
  "r_status (res_created data) = 201"
  "r_body (res_created data) = Some (JObj data)"
  by (simp_all add: res_ok_def res_created_def noOptions_def)

lemma bodyField_ok [simp]:
  "bodyField k (res_ok data noOptions) = map_of data (lit k)"
  "bodyField k (res_created data) = map_of data (lit k)"
  by (simp_all add: bodyField_def)

lemma res_ok_eq_iff [simp]: "res_ok d noOptions = res_ok d' noOptions \<longleftrightarrow> d = d'"
  by (auto simp: res_ok_def noOptions_def)

lemma res_ok_neq_coded [simp]: "s \<noteq> 200 \<Longrightarrow> res_ok d noOptions \<noteq> res_coded s k m"
  by (metis r_status_coded res_ok_simps(1))

end
