(* ===== verification/AuthTokens.thy ===== *)
theory AuthTokens
  imports Schemas Responses
begin

text \<open>
  The secrets of the auth module (\<open>apps/api/src/modules/auth/config.ts\<close> and the first part of
  \<open>handlers.ts\<close>): one-time codes by rejection sampling, access tokens, refresh tokens in base
  36, and the refresh cooldown.
\<close>

section \<open>\<open>AUTH_CONFIG\<close>\<close>

definition ACCESS_TOKEN_EXPIRY_MINUTES :: int where "ACCESS_TOKEN_EXPIRY_MINUTES = 30"
definition REFRESH_TOKEN_EXPIRY_DAYS :: int where "REFRESH_TOKEN_EXPIRY_DAYS = 30"
definition REFRESH_COOLDOWN_MINUTES :: int where "REFRESH_COOLDOWN_MINUTES = 5"
definition OTP_EXPIRY_MINUTES :: int where "OTP_EXPIRY_MINUTES = 5"
definition OTP_COOLDOWN_MINUTES :: int where "OTP_COOLDOWN_MINUTES = 1"
definition OTP_MAX_ATTEMPTS :: int where "OTP_MAX_ATTEMPTS = 3"

lemmas auth_config = ACCESS_TOKEN_EXPIRY_MINUTES_def REFRESH_TOKEN_EXPIRY_DAYS_def
  REFRESH_COOLDOWN_MINUTES_def OTP_EXPIRY_MINUTES_def OTP_COOLDOWN_MINUTES_def
  OTP_MAX_ATTEMPTS_def

section \<open>One-time codes\<close>

text \<open>
  The \<open>do ... while (digit >= 250)\<close> loop over the random bytes from position \<open>i\<close> on. It need
  not end: \<open>None\<close> is a source that never gives a byte below 250. Otherwise the byte and the
  position after it.
\<close>

partial_function (option) sampleByte :: "(nat \<Rightarrow> 8 word) \<Rightarrow> nat \<Rightarrow> (8 word \<times> nat) option" where
  "sampleByte rnd i =
     (if 250 \<le> rnd i then sampleByte rnd (Suc i) else Some (rnd i, Suc i))"

fun otpLoop :: "(nat \<Rightarrow> 8 word) \<Rightarrow> nat \<Rightarrow> jstring \<Rightarrow> nat \<Rightarrow> (jstring \<times> nat) option" where
  "otpLoop rnd 0 code i = Some (code, i)"
| "otpLoop rnd (Suc n) code i =
     (case sampleByte rnd i of
        None \<Rightarrow> None
      | Some (digit, j) \<Rightarrow> otpLoop rnd n (code @ natToString 10 (unat digit mod 10)) j)"

definition generateOTP :: "(world, exn, jstring) prog" where
  "generateOTP = Sync (\<lambda>w.
     case otpLoop (w_rand w) 6 [] (w_randPos w) of
       None \<Rightarrow> (Hang, w)
     | Some (code, j) \<Rightarrow> (Ret code, w\<lparr>w_randPos := j\<rparr>))"

section \<open>Access and refresh tokens\<close>

definition generateAccessToken :: "ctx \<Rightarrow> jstring \<Rightarrow> (world, exn, jstring) prog" where
  "generateAccessToken c userId =
     bindP now (\<lambda>t.
       let issuedAt = t div 1000;
           expiresAt = issuedAt + ACCESS_TOKEN_EXPIRY_MINUTES * 60
       in awaitW (\<lambda>w. (Inr (x_sign (c_ext c)
            \<lparr>jwt_sub = userId, jwt_iat = issuedAt, jwt_exp = expiresAt\<rparr> (JWT_SECRET (getEnv c))), w)))"

text \<open>The big integer of the sixteen bytes, most significant first.\<close>

definition bytesToNat :: "8 word list \<Rightarrow> nat" where
  "bytesToNat bytes = foldl (\<lambda>num b. num * 2 ^ 8 + unat b) 0 bytes"

definition encodeRefreshToken :: "8 word list \<Rightarrow> jstring" where
  "encodeRefreshToken bytes = sliceLast 24 (padStart 24 48 (natToString 36 (bytesToNat bytes)))"

definition generateRefreshToken :: "(world, exn, jstring) prog" where
  "generateRefreshToken = bindP (getRandomValues 16) (\<lambda>bytes. Ret (encodeRefreshToken bytes))"

definition recentlyRefreshed :: "timestamp option \<Rightarrow> (world, exn, bool) prog" where
  "recentlyRefreshed lastUsedAt = (case lastUsedAt of
       None \<Rightarrow> Ret False
     | Some u \<Rightarrow> bindP now (\<lambda>t. Ret (t - u < REFRESH_COOLDOWN_MINUTES * 60 * 1000)))"

section \<open>The rejection loop\<close>

lemma sampleByte_returns:
  assumes "rnd (i + k) < 250"
  shows "\<exists>b j. sampleByte rnd i = Some (b, j) \<and> b < 250 \<and> i < j \<and> j \<le> Suc (i + k)
           \<and> b = rnd (j - 1) \<and> (\<forall>m. i \<le> m \<and> m < j - 1 \<longrightarrow> 250 \<le> rnd m)"
  using assms
proof (induction k arbitrary: i)
  case 0
  then show ?case by (auto simp: sampleByte.simps[of rnd i])
next
  case (Suc k)
  show ?case
  proof (cases "250 \<le> rnd i")
    case True
    from Suc.prems have "rnd (Suc i + k) < 250" by simp
    from Suc.IH[of "Suc i", OF this] obtain b j where
      j: "sampleByte rnd (Suc i) = Some (b, j)" "b < 250" "Suc i < j" "j \<le> Suc (Suc i + k)"
        "b = rnd (j - 1)" "\<forall>m. Suc i \<le> m \<and> m < j - 1 \<longrightarrow> 250 \<le> rnd m"
      by blast
    have "\<forall>m. i \<le> m \<and> m < j - 1 \<longrightarrow> 250 \<le> rnd m"
      using j(6) True by (metis le_antisym not_less_eq_eq)
    with True j show ?thesis by (auto simp: sampleByte.simps[of rnd i])
  next
    case False
    then show ?thesis by (auto simp: sampleByte.simps[of rnd i])
  qed
qed

lemma sampleByte_below:
  assumes "sampleByte rnd i = Some (b, j)"
  shows "b < 250"
proof -
  have "case (b, j) of (b, j) \<Rightarrow> b < (250 :: 8 word)"
  proof (rule sampleByte.raw_induct [where P = "\<lambda>rnd i r. case r of (b, j) \<Rightarrow> b < 250", OF _ assms])
    fix f rnd i r
    assume IH: "\<And>rnd i r. f rnd i = Some r \<Longrightarrow> case r of (b, j) \<Rightarrow> b < (250 :: 8 word)"
      and "(if 250 \<le> rnd i then f rnd (Suc i) else Some (rnd i, Suc i)) = Some r"
    then show "case r of (b, j) \<Rightarrow> b < (250 :: 8 word)"
      by (auto split: if_splits)
  qed
  then show ?thesis by simp
qed

text \<open>\<open>live rnd\<close>: from every position on, a byte that the loop accepts follows.\<close>

definition live :: "(nat \<Rightarrow> 8 word) \<Rightarrow> bool" where
  "live rnd \<longleftrightarrow> (\<forall>i. \<exists>k. rnd (i + k) < 250)"

lemma natToString_digit: "d < 10 \<Longrightarrow> natToString 10 d = [digitUnit d]"
  by (simp add: natToString_def radixDigits.simps[of 10 d])

lemma otpLoop_shape:
  "otpLoop rnd n code i = Some (s, j) \<Longrightarrow>
     \<exists>ds. s = code @ map digitUnit ds \<and> length ds = n \<and> (\<forall>d \<in> set ds. d < 10)"
proof (induction n arbitrary: code i)
  case 0
  then show ?case by simp
next
  case (Suc n)
  from Suc.prems obtain b k where "sampleByte rnd i = Some (b, k)"
    and rest: "otpLoop rnd n (code @ natToString 10 (unat b mod 10)) k = Some (s, j)"
    by (auto split: option.splits)
  from Suc.IH[OF rest] obtain ds where
    "s = (code @ [digitUnit (unat b mod 10)]) @ map digitUnit ds" "length ds = n" "\<forall>d \<in> set ds. d < 10"
    by (auto simp: natToString_digit)
  then show ?case
    by (intro exI[of _ "unat b mod 10 # ds"]) auto
qed

lemma otpLoop_returns: "live rnd \<Longrightarrow> \<exists>r. otpLoop rnd n code i = Some r"
proof (induction n arbitrary: code i)
  case (Suc n)
  from Suc.prems obtain k where "rnd (i + k) < 250" by (auto simp: live_def)
  from sampleByte_returns[of rnd i k, OF this] obtain b j where "sampleByte rnd i = Some (b, j)" by blast
  with Suc show ?case by simp
qed simp

lemma isOtp_digits: "length ds = 6 \<Longrightarrow> \<forall>d \<in> set ds. d < 10 \<Longrightarrow> isOtp (map digitUnit ds)"
  by (auto simp: isOtp_def list_all_iff digitUnit_digit)

lemma otpLoop_isOtp: "otpLoop rnd 6 [] i = Some (s, j) \<Longrightarrow> isOtp s"
  using otpLoop_shape[of rnd 6 "[]" i s j] isOtp_digits by auto

lemma run_generateOTP:
  assumes "live (w_rand w)"
  shows "\<exists>s j. otpLoop (w_rand w) 6 [] (w_randPos w) = Some (s, j) \<and> isOtp s
           \<and> run generateOTP w = (Done s, w\<lparr>w_randPos := j\<rparr>)"
proof -
  obtain s j where "otpLoop (w_rand w) 6 [] (w_randPos w) = Some (s, j)"
    using otpLoop_returns[OF assms] by fast
  then show ?thesis by (auto simp: generateOTP_def otpLoop_isOtp)
qed

lemma isOtp_not_space: "isOtp s \<Longrightarrow> trim s = s \<and> s \<noteq> []"
  by (auto simp: isOtp_def trim_digits)

section \<open>The refresh token encoding\<close>

lemma bytesToNat_radix: "bytesToNat bs = radixValue 256 (map unat bs)"
proof -
  have "foldl (\<lambda>num b. num * 2 ^ 8 + unat b) n bs = foldl (\<lambda>acc d. acc * 256 + d) n (map unat bs)" for n
    by (induction bs arbitrary: n) auto
  then show ?thesis by (simp add: bytesToNat_def radixValue_def)
qed

lemma bytesToNat_bound: "bytesToNat bs < 256 ^ length bs"
proof -
  have "\<forall>d \<in> set (map unat bs). d < 256"
    using unsigned_less[where 'a = nat and 'b = 8] by fastforce
  from radixValue_less[OF this] show ?thesis by (simp add: bytesToNat_radix)
qed

definition tokenDigits :: "nat \<Rightarrow> nat list" where
  "tokenDigits n = drop (length (replicate (24 - length (radixDigits 36 n)) 0 @ radixDigits 36 n) - 24)
     (replicate (24 - length (radixDigits 36 n)) 0 @ radixDigits 36 n)"

lemma tokenDigits_small: "d \<in> set (tokenDigits n) \<Longrightarrow> d < 36"
  unfolding tokenDigits_def
  by (drule in_set_dropD) (auto dest: radixDigits_less[rotated])

lemma length_tokenDigits [simp]: "length (tokenDigits n) = 24"
  by (simp add: tokenDigits_def)

lemma radixValue_tokenDigits: "radixValue 36 (tokenDigits n) = n mod 36 ^ 24"
proof -
  let ?ds = "replicate (24 - length (radixDigits 36 n)) 0 @ radixDigits 36 n"
  have "\<forall>d \<in> set ?ds. d < 36" by (auto dest: radixDigits_less[rotated])
  from radixValue_drop[OF this, of 24] show ?thesis
    by (simp only: tokenDigits_def radixValue_replicate_0 radixValue_radixDigits)
qed

lemma encodeRefreshToken_digits:
  "encodeRefreshToken bs = map digitUnit (tokenDigits (bytesToNat bs))"
proof -
  have "digitUnit 0 = 48" by (simp add: digitUnit_def)
  then have "padStart 24 48 (natToString 36 n)
      = map digitUnit (replicate (24 - length (radixDigits 36 n)) 0 @ radixDigits 36 n)" for n
    by (simp add: padStart_def natToString_def)
  then show ?thesis
    by (simp only: encodeRefreshToken_def sliceLast_def tokenDigits_def drop_map length_map)
qed

lemma radixValue_inj:
  assumes "length ds = length es" "\<forall>d \<in> set ds. d < b" "\<forall>d \<in> set es. d < b"
    and "radixValue b ds = radixValue b es"
  shows "ds = es"
  using assms
proof (induction ds arbitrary: es rule: rev_induct)
  case (snoc d ds)
  then obtain e fs where es: "es = fs @ [e]" by (metis append_butlast_last_id length_0_conv snoc_eq_iff_butlast)
  with snoc.prems have eq: "radixValue b ds * b + d = radixValue b fs * b + e" "d < b" "e < b" by auto
  have "(radixValue b ds * b + d) mod b = d" "(radixValue b fs * b + e) mod b = e"
    using eq(2,3) by simp_all
  then have "d = e" using eq(1) by metis
  with eq have "radixValue b ds = radixValue b fs" by simp
  with \<open>d = e\<close> snoc.IH[of fs] snoc.prems es show ?case by auto
qed simp

lemma isRefreshTokenText_encode: "isRefreshTokenText (encodeRefreshToken bs)"
  by (auto simp: isRefreshTokenText_def encodeRefreshToken_digits list_all_iff
      dest!: tokenDigits_small digitUnit_class)

lemma trim_refreshTokenText: "isRefreshTokenText s \<Longrightarrow> trim s = s \<and> s \<noteq> []"
proof -
  assume s: "isRefreshTokenText s"
  then have "list_all (\<lambda>u. \<not> isSpace u) s"
    unfolding isRefreshTokenText_def list_all_iff
    using isDigit_not_space isLowerAlpha_not_space by blast
  with s show ?thesis by (auto simp: isRefreshTokenText_def intro: trim_no_space)
qed

lemma encodeRefreshToken_eq_iff:
  "encodeRefreshToken bs = encodeRefreshToken cs \<longleftrightarrow>
     bytesToNat bs mod 36 ^ 24 = bytesToNat cs mod 36 ^ 24"
proof -
  have inj: "inj_on digitUnit {d. d < 36}" by (auto intro!: inj_onI digitUnit_inj)
  have "encodeRefreshToken bs = encodeRefreshToken cs \<longleftrightarrow>
      tokenDigits (bytesToNat bs) = tokenDigits (bytesToNat cs)"
    unfolding encodeRefreshToken_digits
    by (rule inj_on_map_eq_map) (auto intro!: inj_on_subset[OF inj] dest: tokenDigits_small)
  also have "\<dots> \<longleftrightarrow> radixValue 36 (tokenDigits (bytesToNat bs)) = radixValue 36 (tokenDigits (bytesToNat cs))"
    using radixValue_inj[of "tokenDigits (bytesToNat bs)" "tokenDigits (bytesToNat cs)" 36]
      tokenDigits_small by auto
  finally show ?thesis by (simp only: radixValue_tokenDigits)
qed

lemma run_generateRefreshToken:
  "run generateRefreshToken w =
     (Done (encodeRefreshToken (map (\<lambda>i. w_rand w (w_randPos w + i)) [0..<16])),
      w\<lparr>w_randPos := w_randPos w + 16\<rparr>)"
  by (simp add: generateRefreshToken_def)

lemma run_generateAccessToken:
  "run (generateAccessToken c u) w =
     (Done (x_sign (c_ext c) \<lparr>jwt_sub = u, jwt_iat = w_now w div 1000, jwt_exp = w_now w div 1000 + 1800\<rparr>
        (JWT_SECRET (getEnv c))), w)"
  by (simp add: generateAccessToken_def Let_def auth_config)

lemma run_recentlyRefreshed:
  "run (recentlyRefreshed (Some u)) w = (Done (w_now w - u < 300000), w)"
  by (simp add: recentlyRefreshed_def auth_config)

end
