(* ===== verification/AuthHandlers.thy ===== *)
theory AuthHandlers
  imports AuthTokens
begin

text \<open>
  The handlers of \<open>apps/api/src/modules/auth/handlers.ts\<close>, statement by statement. A handler
  takes the validated request and is a program over the world of \<open>Platform\<close>: every
  awaited statement of the source is one \<open>sqlQuery\<close>, \<open>sqlExec\<close> or \<open>sqlCheck\<close>, every early
  return a \<open>Ret\<close>, every exception that leaves the handler a \<open>Throw\<close>.
\<close>

section \<open>One-time codes\<close>

definition otpBody :: "bool \<Rightarrow> response" where
  "otpBody userExists = res_ok [(lit ''userExists'', JBool userExists)] noOptions"

definition requestOTP :: "ctx \<Rightarrow> otp_request \<Rightarrow> (world, exn, response) prog" where
  "requestOTP c req =
    (let phone = or_phone req; purpose = or_purpose req in
     bindP (getDb c) (\<lambda>_.
     bindP (sqlQuery (selectOtp phone)) (\<lambda>recentOTP.
     bindP (minutesAgo OTP_COOLDOWN_MINUTES) (\<lambda>cutoff.
     if (case recentOTP of None \<Rightarrow> False | Some r \<Rightarrow> cutoff < o_createdAt r)
     then Ret (res_otpRateLimited None)
     else
     bindP (sqlQuery (selectAuth Phone phone)) (\<lambda>existingAuth.
     bindP (case existingAuth of
              None \<Rightarrow> Ret False
            | Some a \<Rightarrow> bindP (sqlQuery (selectUser (a_id a))) (\<lambda>existingUser. Ret (existingUser \<noteq> None)))
       (\<lambda>userExists.
     if purpose = LoginPurpose \<and> \<not> userExists then Ret (otpBody userExists)
     else if purpose = SignupPurpose \<and> userExists
       then Ret (res_userExists (Some (lit ''User already exists. Please login instead.'')))
     else
     bindP generateOTP (\<lambda>otpCode.
     bindP (minutesFromNow OTP_EXPIRY_MINUTES) (\<lambda>expiresAt.
     bindP (tryP
       (bindP now (\<lambda>createdAt.
        bindP (sqlExec (\<lambda>_. upsertOtp phone
                 \<lparr>o_code = otpCode, o_attempts = 0, o_expiresAt = expiresAt, o_createdAt = createdAt\<rparr>))
          (\<lambda>_. waitUntil (SendOtpTask phone otpCode)))))
       (\<lambda>r. case r of
              Inl e \<Rightarrow> Ret (res_databaseError (Some (lit ''Failed to process OTP request'')))
            | Inr _ \<Rightarrow> Ret (otpBody userExists))))))))))"

datatype otp_error_code = OTP_NOT_FOUND | OTP_EXPIRED | OTP_MAX_ATTEMPTS_EXCEEDED | OTP_INVALID

datatype otp_result = OtpSuccess | OtpFailure otp_error_code jstring

definition tooManyAttempts :: otp_result where
  "tooManyAttempts = OtpFailure OTP_MAX_ATTEMPTS_EXCEEDED
     (lit ''Too many failed attempts. Please request a new OTP.'')"

definition verifyOTPCode :: "ctx \<Rightarrow> jstring \<Rightarrow> jstring \<Rightarrow> (world, exn, otp_result) prog" where
  "verifyOTPCode c ph code =
     bindP (getDb c) (\<lambda>_.
     bindP (sqlQuery (selectOtp ph)) (\<lambda>row.
     case row of
       None \<Rightarrow> Ret (OtpFailure OTP_NOT_FOUND (lit ''No OTP found for this phone number''))
     | Some r \<Rightarrow>
     bindP now (\<lambda>t.
     if o_expiresAt r < t then
       bindP (sqlExec (\<lambda>_. deleteOtp ph)) (\<lambda>_.
       Ret (OtpFailure OTP_EXPIRED (lit ''OTP has expired'')))
     else if OTP_MAX_ATTEMPTS \<le> o_attempts r then
       bindP (sqlExec (\<lambda>_. deleteOtp ph)) (\<lambda>_. Ret tooManyAttempts)
     else if o_code r \<noteq> code then
       (let newAttempts = o_attempts r + 1 in
        bindP (sqlExec (\<lambda>_. updateOtpAttempts ph newAttempts)) (\<lambda>_.
        if OTP_MAX_ATTEMPTS \<le> newAttempts then
          bindP (sqlExec (\<lambda>_. deleteOtp ph)) (\<lambda>_. Ret tooManyAttempts)
        else Ret (OtpFailure OTP_INVALID (lit ''Invalid OTP! Please check and try again.''))))
     else
       bindP (sqlExec (\<lambda>_. deleteOtp ph)) (\<lambda>_. Ret OtpSuccess))))"

definition handleOtpError :: "otp_error_code \<Rightarrow> jstring \<Rightarrow> response" where
  "handleOtpError code error = (case code of
       OTP_EXPIRED \<Rightarrow> res_expiredOtp None
     | OTP_MAX_ATTEMPTS_EXCEEDED \<Rightarrow> res_tooManyOtpAttempts None
     | OTP_INVALID \<Rightarrow> res_invalidOtp None
     | OTP_NOT_FOUND \<Rightarrow>
         res_unauthorized (Some (if truthy error then error else lit ''OTP verification failed'')))"

section \<open>Issuing tokens\<close>

definition issueTokens :: "ctx \<Rightarrow> jstring \<Rightarrow> device_info option \<Rightarrow> (world, exn, jstring \<times> jstring) prog" where
  "issueTokens c authId device =
     bindP (getDb c) (\<lambda>_.
     bindP (generateAccessToken c authId) (\<lambda>accessToken.
     bindP generateRefreshToken (\<lambda>refreshToken.
     bindP (daysFromNow REFRESH_TOKEN_EXPIRY_DAYS) (\<lambda>expiresAt.
     bindP createId (\<lambda>id.
     bindP (sqlCheck (\<lambda>t. insertToken
        \<lparr>t_id = id, t_authId = authId, t_token = refreshToken, t_deviceInfo = device,
         t_expiresAt = expiresAt, t_revokedAt = None, t_lastUsedAt = t, t_createdAt = t\<rparr>)) (\<lambda>_.
     Ret (accessToken, refreshToken)))))))"

definition tokenFields :: "jstring \<times> jstring \<Rightarrow> fields" where
  "tokenFields ts = [(lit ''accessToken'', JStr (fst ts)), (lit ''refreshToken'', JStr (snd ts))]"

section \<open>Phone\<close>

definition phoneSignup :: "ctx \<Rightarrow> phone_signup_request \<Rightarrow> (world, exn, response) prog" where
  "phoneSignup c req =
     bindP (verifyOTPCode c (ps_phone req) (ps_code req)) (\<lambda>otpResult.
     case otpResult of
       OtpFailure errorCode error \<Rightarrow> Ret (handleOtpError errorCode error)
     | OtpSuccess \<Rightarrow>
     bindP (getDb c) (\<lambda>_.
     bindP (sqlQuery (selectAuth Phone (ps_phone req))) (\<lambda>existingAuth.
     case existingAuth of
       Some a \<Rightarrow>
         bindP (sqlQuery (selectUser (a_id a))) (\<lambda>existingUser.
         if existingUser \<noteq> None
         then Ret (res_userExists (Some (lit ''User already exists. Please login instead.'')))
         else Ret (res_profileIncomplete (Some (lit ''Account setup incomplete. Please contact support.''))))
     | None \<Rightarrow>
     bindP createId (\<lambda>id.
     bindP (sqlCheck (\<lambda>_. insertAuth
        \<lparr>a_id = id, a_provider = Phone, a_identifier = ps_phone req, a_email = None\<rparr>)) (\<lambda>_.
     bindP (tryP (sqlCheck (\<lambda>t. insertUser
        \<lparr>u_id = id, u_name = ps_name req, u_gender = ps_gender req, u_birthYear = ps_birthYear req,
         u_createdAt = t, u_updatedAt = t\<rparr>))) (\<lambda>r.
     case r of
       Inl e \<Rightarrow> bindP (waitUntil (DeleteAuthTask id)) (\<lambda>_. Throw e)
     | Inr _ \<Rightarrow>
     bindP (issueTokens c id (ps_deviceInfo req)) (\<lambda>tokens.
     Ret (res_created (tokenFields tokens)))))))))"

definition phoneSignIn :: "ctx \<Rightarrow> phone_signin_request \<Rightarrow> (world, exn, response) prog" where
  "phoneSignIn c req =
     bindP (verifyOTPCode c (pi_phone req) (pi_code req)) (\<lambda>otpResult.
     case otpResult of
       OtpFailure errorCode error \<Rightarrow> Ret (handleOtpError errorCode error)
     | OtpSuccess \<Rightarrow>
     bindP (getDb c) (\<lambda>_.
     bindP (sqlQuery (selectAuth Phone (pi_phone req))) (\<lambda>existingAuth.
     case existingAuth of
       None \<Rightarrow> Ret (res_userNotFound (Some (lit ''User not found. Please sign up first.'')))
     | Some a \<Rightarrow>
     bindP (sqlQuery (selectUser (a_id a))) (\<lambda>existingUser.
     if existingUser = None
     then Ret (res_profileIncomplete (Some (lit ''User profile incomplete. Please sign up again.'')))
     else
     bindP (issueTokens c (a_id a) (pi_deviceInfo req)) (\<lambda>tokens.
     Ret (res_ok (tokenFields tokens) noOptions))))))"

section \<open>Refresh and logout\<close>

definition refreshTokens :: "ctx \<Rightarrow> refresh_request \<Rightarrow> (world, exn, response) prog" where
  "refreshTokens c req =
     bindP (getDb c) (\<lambda>_.
     bindP (sqlQuery (selectToken (rr_refreshToken req))) (\<lambda>row.
     bindP now (\<lambda>t.
     case row of
       None \<Rightarrow> Ret (res_invalidRefreshToken None)
     | Some token \<Rightarrow>
     if t_revokedAt token \<noteq> None \<or> t_expiresAt token < t then Ret (res_invalidRefreshToken None)
     else
     bindP (sqlQuery (selectAuthById (t_authId token))) (\<lambda>authRecord.
     if authRecord = None then Ret (res_unauthorized (Some (lit ''User not found'')))
     else
     bindP (recentlyRefreshed (Some (t_lastUsedAt token))) (\<lambda>recent.
     if recent then Ret (res_rateLimited None)
     else
     bindP generateRefreshToken (\<lambda>newRefreshToken.
     bindP (daysFromNow REFRESH_TOKEN_EXPIRY_DAYS) (\<lambda>expiresAt.
     bindP now (\<lambda>usedAt.
     bindP (sqlCheck (\<lambda>_. rotateToken (rr_refreshToken req) newRefreshToken expiresAt usedAt)) (\<lambda>_.
     bindP (generateAccessToken c (t_authId token)) (\<lambda>accessToken.
     Ret (res_ok (tokenFields (accessToken, newRefreshToken)) noOptions)))))))))))"

definition logout :: "ctx \<Rightarrow> refresh_request \<Rightarrow> (world, exn, response) prog" where
  "logout c req =
     bindP (getDb c) (\<lambda>_.
     bindP (sqlQuery (selectToken (rr_refreshToken req))) (\<lambda>row.
     case row of
       Some token \<Rightarrow>
         if t_revokedAt token = None then
           bindP now (\<lambda>t.
           bindP (sqlExec (\<lambda>_. revokeToken (rr_refreshToken req) t)) (\<lambda>_.
           Ret (res_ok [(lit ''message'', JStr (lit ''Logged out''))] noOptions)))
         else Ret (res_unauthorized (Some (lit ''Invalid refresh token'')))
     | None \<Rightarrow> Ret (res_unauthorized (Some (lit ''Invalid refresh token'')))))"

section \<open>OAuth\<close>

definition providerString :: "provider \<Rightarrow> jstring" where
  "providerString p = (case p of Phone \<Rightarrow> lit ''phone'' | Google \<Rightarrow> lit ''google'' | Apple \<Rightarrow> lit ''apple'')"

record oauth_verifier_config =
  ov_jwks :: jstring
  ov_issuer :: "jstring list"
  ov_providerName :: jstring

definition OAUTH_VERIFIER_CONFIGS :: "provider \<Rightarrow> oauth_verifier_config" where
  "OAUTH_VERIFIER_CONFIGS p = (case p of
       Apple \<Rightarrow> \<lparr>ov_jwks = lit ''https://appleid.apple.com/auth/keys'',
              ov_issuer = [lit ''https://appleid.apple.com''], ov_providerName = lit ''Apple''\<rparr>
     | _ \<Rightarrow> \<lparr>ov_jwks = lit ''https://www.googleapis.com/oauth2/v3/certs'',
              ov_issuer = [lit ''https://accounts.google.com'', lit ''accounts.google.com''],
              ov_providerName = lit ''Google''\<rparr>)"

text \<open>
  \<open>verifyOAuthJWT\<close>. \<open>x_jwtVerify\<close> is jose's verification of signature, issuer and expiry
  against the keys published at the given address, fetched over the network;
  \<open>x_decodeJwt\<close> only decodes.
\<close>

definition verifyOAuthJWT ::
  "ctx \<Rightarrow> jstring \<Rightarrow> oauth_verifier_config \<Rightarrow> jstring \<Rightarrow> (world, exn, fields) prog" where
  "verifyOAuthJWT c token config env =
    (if env = lit ''development'' \<and> ov_providerName config = lit ''Apple'' then
       (case x_decodeJwt (c_ext c) token of
          Inl e \<Rightarrow> Throw e
        | Inr payload \<Rightarrow>
            if \<not> (\<exists>s \<in> set (ov_issuer config). map_of payload (lit ''iss'') = Some (JStr s))
            then Throw (Error (lit ''Invalid issuer''))
            else bindP now (\<lambda>t.
              if (case map_of payload (lit ''exp'') of
                    Some (JNum q) \<Rightarrow> q \<noteq> 0 \<and> q < of_int (t div 1000) | _ \<Rightarrow> False)
              then Throw (Error (lit ''Token expired''))
              else Ret payload))
     else
       awaitW (\<lambda>w. case io_fault (nextIo w) of
           Some m \<Rightarrow> (Inl (Error m), afterIo w)
         | None \<Rightarrow> (x_jwtVerify (c_ext c) (ov_jwks config) (ov_issuer config) token (w_now (afterIo w)), afterIo w)))"

text \<open>\<open>claims.k as string | undefined\<close>; the claims the code reads are strings when present.\<close>

definition claimString :: "string \<Rightarrow> fields \<Rightarrow> jstring option" where
  "claimString k claims = (case map_of claims (lit k) of Some (JStr s) \<Rightarrow> Some s | _ \<Rightarrow> None)"

definition emailConflictMessage :: "ext \<Rightarrow> provider \<Rightarrow> jstring" where
  "emailConflictMessage x p =
    (let providerName = capitalizeFirst (x_toUpperCase x) (providerString p);
         article = getArticle (x_toLowerCase x) (providerString p)
     in lit ''This email is already associated with '' @ article @ lit '' '' @ providerName
        @ lit '' account. Please sign in with '' @ providerName @ lit '' instead.'')"

definition oauthSignIn :: "provider \<Rightarrow> ctx \<Rightarrow> oauth_signin_request \<Rightarrow> (world, exn, response) prog" where
  "oauthSignIn provider c req =
    (let invalidTokenMessage = lit ''Invalid ''
           @ capitalizeFirst (x_toUpperCase (c_ext c)) (providerString provider) @ lit '' ID token'' in
     bindP (tryP (verifyOAuthJWT c (oi_idToken req) (OAUTH_VERIFIER_CONFIGS provider)
                    (case ENV (getEnv c) of None \<Rightarrow> lit ''production'' | Some e \<Rightarrow> e))) (\<lambda>verified.
     case verified of
       Inl e \<Rightarrow> Ret (res_unauthorized
                  (Some (if isErrorInstance e then errMessage (c_ext c) e else invalidTokenMessage)))
     | Inr claims \<Rightarrow>
     (let email = claimString ''email'' claims; providerId = claimString ''sub'' claims in
     if \<not> truthyOpt email \<or> \<not> truthyOpt providerId then Ret (res_unauthorized (Some invalidTokenMessage))
     else
     bindP (getDb c) (\<lambda>_.
     bindP (sqlQuery (selectAuth provider (the providerId))) (\<lambda>existingAuth.
     case existingAuth of
       Some a \<Rightarrow>
         bindP (sqlQuery (selectUser (a_id a))) (\<lambda>existingUser.
         if existingUser = None
         then Ret (res_profileIncomplete (Some (lit ''User profile incomplete. Please contact support.'')))
         else
         bindP (if \<not> truthyOpt (a_email a)
                then sqlCheck (\<lambda>_. updateAuthEmail (a_id a) (the email)) else Ret ()) (\<lambda>_.
         bindP (issueTokens c (a_id a) (oi_deviceInfo req)) (\<lambda>tokens.
         Ret (res_ok (tokenFields tokens) noOptions))))
     | None \<Rightarrow>
     bindP (sqlQuery (selectAuthByEmail (the email))) (\<lambda>emailConflict.
     case emailConflict of
       Some a \<Rightarrow>
         if a_provider a \<noteq> provider
         then Ret (res_conflict (emailConflictMessage (c_ext c) (a_provider a)) None)
         else Ret (res_ok [(lit ''needsSignup'', JBool True), (lit ''provider'', JStr (providerString provider)),
                (lit ''providerId'', JStr (the providerId)), (lit ''email'', JStr (the email))] noOptions)
     | None \<Rightarrow> Ret (res_ok [(lit ''needsSignup'', JBool True), (lit ''provider'', JStr (providerString provider)),
                (lit ''providerId'', JStr (the providerId)), (lit ''email'', JStr (the email))] noOptions)))))))"

definition googleSignIn :: "ctx \<Rightarrow> oauth_signin_request \<Rightarrow> (world, exn, response) prog" where
  "googleSignIn = oauthSignIn Google"

definition appleSignIn :: "ctx \<Rightarrow> oauth_signin_request \<Rightarrow> (world, exn, response) prog" where
  "appleSignIn = oauthSignIn Apple"

definition oauthSignup :: "ctx \<Rightarrow> oauth_signup_request \<Rightarrow> (world, exn, response) prog" where
  "oauthSignup c req =
     bindP (getDb c) (\<lambda>_.
     bindP (sqlQuery (selectAuth (os_provider req) (os_providerId req))) (\<lambda>existingAuth.
     case existingAuth of
       Some a \<Rightarrow>
         bindP (sqlQuery (selectUser (a_id a))) (\<lambda>existingUser.
         if existingUser = None
         then Ret (res_profileIncomplete (Some (lit ''User profile incomplete. Please contact support.'')))
         else
         bindP (if \<not> truthyOpt (a_email a)
                then sqlCheck (\<lambda>_. updateAuthEmail (a_id a) (os_email req)) else Ret ()) (\<lambda>_.
         bindP (issueTokens c (a_id a) (os_deviceInfo req)) (\<lambda>tokens.
         Ret (res_ok (tokenFields tokens) noOptions))))
     | None \<Rightarrow>
     bindP (sqlQuery (selectAuthByEmail (os_email req))) (\<lambda>emailConflict.
     if (case emailConflict of None \<Rightarrow> False | Some a \<Rightarrow> a_provider a \<noteq> os_provider req)
     then Ret (res_conflict (emailConflictMessage (c_ext c) (a_provider (the emailConflict))) None)
     else
     bindP createId (\<lambda>id.
     bindP (sqlCheck (\<lambda>_. insertAuth
        \<lparr>a_id = id, a_provider = os_provider req, a_identifier = os_providerId req,
         a_email = Some (os_email req)\<rparr>)) (\<lambda>_.
     bindP (tryP (sqlCheck (\<lambda>t. insertUser
        \<lparr>u_id = id, u_name = os_name req, u_gender = os_gender req, u_birthYear = os_birthYear req,
         u_createdAt = t, u_updatedAt = t\<rparr>))) (\<lambda>r.
     case r of
       Inl e \<Rightarrow> bindP (waitUntil (DeleteAuthTask id)) (\<lambda>_. Throw e)
     | Inr _ \<Rightarrow>
     bindP (issueTokens c id (os_deviceInfo req)) (\<lambda>tokens.
     bindP (waitUntil (WelcomeEmailTask (os_email req) (hd (splitOn 0x20 (os_name req))))) (\<lambda>_.
     Ret (res_created (tokenFields tokens))))))))))"

end
