(* ===== verification/AuthInvariants.thy ===== *)
theory AuthInvariants
  imports AuthHandlers
begin

text \<open>
  What every handler of the auth module keeps, under every interleaving with other handlers
  and under every failure of the network: the constraints of the schema, the bound on
  OTP attempts, and the revocation of sessions. The handlers are walked through once, in the
  locale \<open>auth_statements\<close>, whose assumptions are what each SQL statement must keep; each
  invariant is then an interpretation of that locale.
\<close>

section \<open>The routes of the auth module\<close>

text \<open>A validated request to one of the routes of \<open>registerRoutes\<close>, and the handler it is given to.\<close>

datatype auth_request =
    PhoneOtp otp_request
  | PhoneSignup phone_signup_request
  | PhoneLogin phone_signin_request
  | GoogleLogin oauth_signin_request
  | AppleLogin oauth_signin_request
  | OAuthSignup oauth_signup_request
  | TokenRefresh refresh_request
  | Logout refresh_request

primrec authHandler :: "ctx \<Rightarrow> auth_request \<Rightarrow> (world, exn, response) prog" where
  "authHandler c (PhoneOtp r) = requestOTP c r"
| "authHandler c (PhoneSignup r) = phoneSignup c r"
| "authHandler c (PhoneLogin r) = phoneSignIn c r"
| "authHandler c (GoogleLogin r) = googleSignIn c r"
| "authHandler c (AppleLogin r) = appleSignIn c r"
| "authHandler c (OAuthSignup r) = oauthSignup c r"
| "authHandler c (TokenRefresh r) = refreshTokens c r"
| "authHandler c (Logout r) = logout c r"

section \<open>What the statements must keep\<close>

locale auth_statements = db_guarantee +
  assumes keeps_upsertOtp: "\<And>d p code ex cr. J d \<Longrightarrow> isOtp code \<Longrightarrow>
      J (upsertOtp p \<lparr>o_code = code, o_attempts = 0, o_expiresAt = ex, o_createdAt = cr\<rparr> d)
      \<and> S d (upsertOtp p \<lparr>o_code = code, o_attempts = 0, o_expiresAt = ex, o_createdAt = cr\<rparr> d)"
    and keeps_updateOtpAttempts: "\<And>d d0 r p. J d \<Longrightarrow> J d0 \<Longrightarrow> selectOtp p d0 = Some r \<Longrightarrow>
      o_attempts r < OTP_MAX_ATTEMPTS \<Longrightarrow>
      J (updateOtpAttempts p (o_attempts r + 1) d) \<and> S d (updateOtpAttempts p (o_attempts r + 1) d)"
    and keeps_deleteOtp: "\<And>d p. J d \<Longrightarrow> J (deleteOtp p d) \<and> S d (deleteOtp p d)"
    and keeps_insertAuth: "\<And>d r d'. J d \<Longrightarrow> insertAuth r d = Inr d' \<Longrightarrow> J d' \<and> S d d'"
    and keeps_updateAuthEmail: "\<And>d i e d'. J d \<Longrightarrow> updateAuthEmail i e d = Inr d' \<Longrightarrow> J d' \<and> S d d'"
    and keeps_insertUser: "\<And>d r d'. J d \<Longrightarrow> insertUser r d = Inr d' \<Longrightarrow> J d' \<and> S d d'"
    and keeps_insertToken: "\<And>d r d'. J d \<Longrightarrow> insertToken r d = Inr d' \<Longrightarrow> J d' \<and> S d d'"
    and keeps_rotateToken: "\<And>d old new ex us d'. J d \<Longrightarrow> rotateToken old new ex us d = Inr d' \<Longrightarrow>
      J d' \<and> S d d'"
    and keeps_revokeToken: "\<And>d t ts. J d \<Longrightarrow> J (revokeToken t ts d) \<and> S d (revokeToken t ts d)"
begin

lemma deleteOtp_keeps: "ok (k ()) \<Longrightarrow> ok (bindP (sqlExec (\<lambda>t. deleteOtp p)) k)"
  by (rule exec_keeps, rule keeps_deleteOtp)

lemma revokeToken_keeps: "ok (k ()) \<Longrightarrow> ok (bindP (sqlExec (\<lambda>t. revokeToken tok (ts t))) k)"
  by (rule exec_keeps, rule keeps_revokeToken)

lemma upsertOtp_keeps: "ok (k ()) \<Longrightarrow> isOtp code \<Longrightarrow> ok (bindP (sqlExec (\<lambda>t. upsertOtp p
     \<lparr>o_code = code, o_attempts = 0, o_expiresAt = ex, o_createdAt = cr\<rparr>)) k)"
  by (rule exec_keeps, rule keeps_upsertOtp)

lemma insertAuth_keeps: "ok (k ()) \<Longrightarrow> ok (bindP (sqlCheck (\<lambda>t. insertAuth (fa t))) k)"
  by (rule check_keeps, rule keeps_insertAuth)

lemma insertUser_keeps: "ok (k ()) \<Longrightarrow> ok (bindP (sqlCheck (\<lambda>t. insertUser (fu t))) k)"
  by (rule check_keeps, rule keeps_insertUser)

lemma insertToken_keeps: "ok (k ()) \<Longrightarrow> ok (bindP (sqlCheck (\<lambda>t. insertToken (ft t))) k)"
  by (rule check_keeps, rule keeps_insertToken)

lemma updateAuthEmail_keeps: "ok (k ()) \<Longrightarrow> ok (bindP (sqlCheck (\<lambda>t. updateAuthEmail i e)) k)"
  by (rule check_keeps, rule keeps_updateAuthEmail)

lemma rotateToken_keeps: "ok (k ()) \<Longrightarrow> ok (bindP (sqlCheck (\<lambda>t. rotateToken old new ex us)) k)"
  by (rule check_keeps, rule keeps_rotateToken)

lemmas statement_keeps = deleteOtp_keeps revokeToken_keeps upsertOtp_keeps insertAuth_keeps
  insertUser_keeps insertToken_keeps updateAuthEmail_keeps rotateToken_keeps

lemma attempts_keeps:
  assumes "J d0" "selectOtp p d0 = Some r" "o_attempts r < OTP_MAX_ATTEMPTS" "ok (k ())"
  shows "ok (bindP (sqlExec (\<lambda>_. updateOtpAttempts p (o_attempts r + 1))) k)"
  by (rule exec_keeps) (rule keeps_updateOtpAttempts[OF _ assms(1-3)], assumption, rule assms(4))

lemma getW_keeps: "ok (getW g)"
  by (rule guar_getW) (rule rel_refl)

lemma generateOTP_keeps: "(\<And>s. isOtp s \<Longrightarrow> ok (k s)) \<Longrightarrow> ok (bindP generateOTP k)"
  unfolding generateOTP_def
  by (auto simp: db_prop_def db_rel_def S_refl otpLoop_isOtp split: option.splits)

lemma generateAccessToken_keeps: "(\<And>s. ok (k s)) \<Longrightarrow> ok (bindP (generateAccessToken c u) k)"
  unfolding generateAccessToken_def bindP_assoc Let_def
  by (intro pure_keeps guar_bindP guar_awaitW) (auto simp: rel_refl)

lemma generateRefreshToken_keeps: "(\<And>s. ok (k s)) \<Longrightarrow> ok (bindP generateRefreshToken k)"
  unfolding generateRefreshToken_def bindP_assoc by (intro getRandomValues_keeps) simp

lemma recentlyRefreshed_keeps: "(\<And>b. ok (k b)) \<Longrightarrow> ok (bindP (recentlyRefreshed u) k)"
  unfolding recentlyRefreshed_def by (auto simp: bindP_assoc split: option.splits intro!: pure_keeps)

lemma insertUser_only_keeps: "ok (sqlCheck (\<lambda>t. insertUser (fu t)))"
  using insertUser_keeps[of Ret fu] by (simp add: bindP_Ret)

lemma waitUntil_only_keeps: "ok (waitUntil t)"
  using waitUntil_keeps[of Ret t] by (simp add: bindP_Ret)

lemmas helper_keeps = query_keeps pure_keeps createId_keeps getRandomValues_keeps
  waitUntil_keeps getDb_keeps statement_keeps generateOTP_keeps generateAccessToken_keeps
  generateRefreshToken_keeps recentlyRefreshed_keeps getW_keeps waitUntil_only_keeps

lemma verifyOTPCode_keeps: "(\<And>r. ok (k r)) \<Longrightarrow> ok (bindP (verifyOTPCode c ph code) k)"
  unfolding verifyOTPCode_def
  by (rule guar_bindP)
    (auto intro!: attempts_keeps helper_keeps simp: Let_def split: option.splits)

lemma issueTokens_keeps: "(\<And>ts. ok (k ts)) \<Longrightarrow> ok (bindP (issueTokens c i di) k)"
  unfolding issueTokens_def
  by (rule guar_bindP) (auto intro!: helper_keeps)

lemma verifyOAuthJWT_keeps: "ok (verifyOAuthJWT c t cfg e)"
  unfolding verifyOAuthJWT_def
  by (auto intro!: guar_awaitW pure_keeps same_db split: sum.splits option.splits)

lemmas call_keeps = verifyOTPCode_keeps issueTokens_keeps helper_keeps

lemma requestOTP_keeps: "ok (requestOTP c req)"
  unfolding requestOTP_def Let_def
  by (auto intro!: call_keeps guar_bindP[OF guar_tryP] simp: bindP_assoc split: option.splits sum.splits)

lemma phoneSignup_keeps: "ok (phoneSignup c req)"
  unfolding phoneSignup_def
  by (auto intro!: call_keeps guar_bindP[OF guar_tryP] insertUser_only_keeps
      split: option.splits sum.splits otp_result.splits)

lemma phoneSignIn_keeps: "ok (phoneSignIn c req)"
  unfolding phoneSignIn_def
  by (auto intro!: call_keeps split: option.splits otp_result.splits)

lemma refreshTokens_keeps: "ok (refreshTokens c req)"
  unfolding refreshTokens_def
  by (auto intro!: call_keeps split: option.splits)

lemma logout_keeps: "ok (logout c req)"
  unfolding logout_def
  by (auto intro!: call_keeps split: option.splits)

lemma emailUpdate_keeps:
  "(\<And>u. ok (k u)) \<Longrightarrow> ok (bindP (if b then sqlCheck (\<lambda>_. updateAuthEmail i e) else Ret ()) k)"
  by (auto intro!: statement_keeps)

lemma oauthSignIn_keeps: "ok (oauthSignIn p c req)"
  unfolding oauthSignIn_def Let_def
  by (auto intro!: emailUpdate_keeps call_keeps guar_bindP[OF guar_tryP] verifyOAuthJWT_keeps
      split: option.splits sum.splits)

lemma oauthSignup_keeps: "ok (oauthSignup c req)"
  unfolding oauthSignup_def
  by (auto intro!: emailUpdate_keeps call_keeps guar_bindP[OF guar_tryP] insertUser_only_keeps
      split: option.splits sum.splits)

lemma authHandler_keeps: "ok (authHandler c req)"
  by (cases req) (simp_all add: googleSignIn_def appleSignIn_def requestOTP_keeps phoneSignup_keeps
      phoneSignIn_keeps refreshTokens_keeps logout_keeps oauthSignIn_keeps oauthSignup_keeps)

text \<open>Any number of requests served together, in any interleaving and with any failures.\<close>

theorem served_together:
  assumes "sys_step\<^sup>*\<^sup>* (w, map (\<lambda>(c, r). authHandler c r) reqs) (w', ps)" and "J (w_db w)"
  shows "J (w_db w') \<and> S (w_db w) (w_db w')"
proof -
  have "list_all (guar (db_prop J) (db_rel S)) (map (\<lambda>(c, r). authHandler c r) reqs)"
    by (auto simp: list_all_iff authHandler_keeps)
  from worlds.system_keeps[OF assms(1) this] assms(2) show ?thesis
    by (simp add: db_prop_def db_rel_def)
qed

end

section \<open>The invariants\<close>

text \<open>Stored codes are six digits and have at most three failed attempts.\<close>

definition otp_row_ok :: "otp_row \<Rightarrow> bool" where
  "otp_row_ok r \<longleftrightarrow> isOtp (o_code r) \<and> 0 \<le> o_attempts r \<and> o_attempts r \<le> OTP_MAX_ATTEMPTS"

definition otps_ok :: "db \<Rightarrow> bool" where
  "otps_ok d \<longleftrightarrow> (\<forall>p r. selectOtp p d = Some r \<longrightarrow> otp_row_ok r)"

text \<open>
  Sessions and accounts from one database to a later one: a session row stays with its
  account, and a revoked one stays revoked; an account keeps its provider identity; a
  profile is never changed.
\<close>

definition session_kept :: "token_row \<Rightarrow> token_row \<Rightarrow> bool" where
  "session_kept r r' \<longleftrightarrow> t_id r' = t_id r \<and> t_authId r' = t_authId r
     \<and> (t_revokedAt r \<noteq> None \<longrightarrow> t_revokedAt r' \<noteq> None)"

definition account_kept :: "auth_row \<Rightarrow> auth_row \<Rightarrow> bool" where
  "account_kept r r' \<longleftrightarrow> a_id r' = a_id r \<and> auth_key r' = auth_key r"

definition records_kept :: "db \<Rightarrow> db \<Rightarrow> bool" where
  "records_kept d d' \<longleftrightarrow>
     (\<forall>r \<in> set (tokens d). \<exists>r' \<in> set (tokens d'). session_kept r r')
   \<and> (\<forall>r \<in> set (auth d). \<exists>r' \<in> set (auth d'). account_kept r r')
   \<and> set (users d) \<subseteq> set (users d')"

lemma session_kept_refl [simp]: "session_kept r r"
  and account_kept_refl [simp]: "account_kept a a"
  by (simp_all add: session_kept_def account_kept_def)

lemma records_kept_refl: "records_kept d d"
  unfolding records_kept_def using session_kept_refl account_kept_refl by fastforce+

lemma records_kept_trans: "records_kept d d' \<Longrightarrow> records_kept d' d'' \<Longrightarrow> records_kept d d''"
  unfolding records_kept_def session_kept_def account_kept_def by (metis subset_trans)

lemma records_kept_same:
  "auth d' = auth d \<Longrightarrow> users d' = users d \<Longrightarrow> tokens d' = tokens d \<Longrightarrow> records_kept d d'"
  using records_kept_refl[of d] by (simp add: records_kept_def)

lemma records_kept_append:
  "records_kept d (d\<lparr>auth := auth d @ as\<rparr>)" "records_kept d (d\<lparr>users := users d @ us\<rparr>)"
  "records_kept d (d\<lparr>tokens := tokens d @ ts\<rparr>)"
  unfolding records_kept_def using session_kept_refl account_kept_refl by fastforce+

lemma records_kept_map_tokens:
  "(\<And>r. session_kept r (f r)) \<Longrightarrow> records_kept d (d\<lparr>tokens := map f (tokens d)\<rparr>)"
  unfolding records_kept_def using account_kept_refl by fastforce

lemma records_kept_map_auth:
  "(\<And>r. account_kept r (f r)) \<Longrightarrow> records_kept d (d\<lparr>auth := map f (auth d)\<rparr>)"
  unfolding records_kept_def using session_kept_refl by fastforce

lemma records_kept_rotate: "rotateToken old new ex us d = Inr d' \<Longrightarrow> records_kept d d'"
  by (auto simp: rotateToken_def session_kept_def split: if_splits intro!: records_kept_map_tokens)

lemma records_kept_email: "updateAuthEmail i e d = Inr d' \<Longrightarrow> records_kept d d'"
  by (auto simp: updateAuthEmail_def account_kept_def auth_key_def split: if_splits
      intro!: records_kept_map_auth)

lemma records_kept_revoke: "records_kept d (revokeToken t ts d)"
  unfolding revokeToken_def by (rule records_kept_map_tokens) (simp add: session_kept_def)

lemma records_kept_inserts:
  "insertAuth ra d = Inr d' \<Longrightarrow> records_kept d d'"
  "insertUser ru d = Inr d' \<Longrightarrow> records_kept d d'"
  "insertToken rt d = Inr d' \<Longrightarrow> records_kept d d'"
  by (auto simp: insertAuth_def insertUser_def insertToken_def split: if_splits
      intro: records_kept_append)

interpretation records: auth_statements db_ok records_kept
proof unfold_locales
  show "records_kept d d" for d by (rule records_kept_refl)
  show "records_kept d d'" if "records_kept d e" "records_kept e d'" for d e d'
    using that by (rule records_kept_trans)
qed (auto intro: db_ok_insertAuth db_ok_updateAuthEmail db_ok_insertUser db_ok_insertToken
      db_ok_rotateToken records_kept_rotate records_kept_email records_kept_revoke
      records_kept_inserts records_kept_same)

lemma selectOtp_other_statements:
  "insertAuth ra d = Inr d' \<Longrightarrow> selectOtp p d' = selectOtp p d"
  "insertUser ru d = Inr d' \<Longrightarrow> selectOtp p d' = selectOtp p d"
  "insertToken rt d = Inr d' \<Longrightarrow> selectOtp p d' = selectOtp p d"
  "updateAuthEmail i e d = Inr d' \<Longrightarrow> selectOtp p d' = selectOtp p d"
  "rotateToken old new ex us d = Inr d' \<Longrightarrow> selectOtp p d' = selectOtp p d"
  "selectOtp p (revokeToken t ts d) = selectOtp p d"
  by (auto simp: insertAuth_def insertUser_def insertToken_def updateAuthEmail_def rotateToken_def
      revokeToken_def selectOtp_def split: if_splits)

interpretation codes: auth_statements otps_ok "\<lambda>d d'. True"
proof unfold_locales
  fix d d0 :: db and r p
  assume "otps_ok d" "otps_ok d0" "selectOtp p d0 = Some r" "o_attempts r < OTP_MAX_ATTEMPTS"
  then show "otps_ok (updateOtpAttempts p (o_attempts r + 1) d) \<and> True"
    unfolding otps_ok_def otp_row_ok_def by (auto simp: selectOtp_updateOtpAttempts)
qed (auto simp: otps_ok_def otp_row_ok_def otp_lookups selectOtp_other_statements auth_config)

end
