(* ===== verification/Samples.thy ===== *)
theory Samples
  imports AuthInvariants
begin

text \<open>
  Concrete bindings, third-party functions and worlds, at which the properties are applied.
\<close>

definition sample_env :: env where
  "sample_env = \<lparr>ENV = Some (lit ''production''), APP_NAME = lit ''Prism'', APP_URL = lit ''https://prism.app'',
     DATABASE_URL = lit ''postgres'', JWT_SECRET = lit ''secret'', SMS_API_KEY = lit ''key'',
     SMS_SENDER_ID = lit ''Prism'', R2_ACCESS_KEY_ID = lit ''ak'', R2_SECRET_ACCESS_KEY = lit ''sk'',
     R2_BUCKET_NAME = lit ''bucket'', R2_ENDPOINT = lit ''https://x.r2.cloudflarestorage.com'',
     R2_PUBLIC_URL = lit ''https://cdn'', GOOGLE_MAPS_API_KEY = lit ''g'',
     EMAIL_PROVIDER = lit ''postmark'', EMAIL_API_KEY = lit ''ek'', EMAIL_FROM = lit ''Prism <hi@prism.app>''\<rparr>"

text \<open>
  A sample token is the subject; it verifies for ever. An ID token is accepted as the subject
  claim, with an e-mail address.
\<close>

definition sample_ext :: ext where
  "sample_ext = \<lparr>x_sign = (\<lambda>p s. jwt_sub p),
     x_verify = (\<lambda>t s now. Inr \<lparr>jwt_sub = t, jwt_iat = 0, jwt_exp = 1800\<rparr>),
     x_jwtVerify = (\<lambda>jwks iss t now. Inr [(lit ''sub'', JStr t), (lit ''email'', JStr (lit ''a@b.co''))]),
     x_decodeJwt = (\<lambda>t. Inr [(lit ''sub'', JStr t)]),
     x_neon = (\<lambda>s. None), x_dbMessage = (\<lambda>c. lit ''duplicate key value''),
     x_toLowerCase = (\<lambda>s. s), x_toUpperCase = (\<lambda>s. s),
     x_letterOrMark = (\<lambda>p. 65 \<le> p \<and> p \<le> 122), x_isEmail = (\<lambda>s. True),
     x_fetch = (\<lambda>r. Inr \<lparr>hr_status = 200, hr_text = [], hr_json = Some (JObj []), hr_headers = []\<rparr>),
     x_jsonParse = (\<lambda>s. Some (JObj [])), x_isJsonContent = (\<lambda>s. True), x_render = we_appName,
     x_resend = (\<lambda>k o'. None), x_sha256 = (\<lambda>b. b), x_hmac = (\<lambda>k b. k @ b),
     x_hostname = Inr, x_issues = (\<lambda>is. JArr [])\<rparr>"

definition sample_ctx :: ctx where
  "sample_ctx = \<lparr>c_env = sample_env, c_ext = sample_ext\<rparr>"

definition sample_world :: "db \<Rightarrow> world" where
  "sample_world d = \<lparr>w_db = d, w_now = 1000000, w_io = [], w_rand = (\<lambda>i. of_nat (i mod 10)), w_randPos = 0,
     w_ids = (\<lambda>i. replicate (Suc i) 105), w_idPos = 0, w_tasks = [],
     w_dbCache = [lit ''postgres''], w_sent = []\<rparr>"

definition sample_phone :: jstring where
  "sample_phone = lit ''2125550123''"

definition sample_otp :: otp_row where
  "sample_otp = \<lparr>o_code = lit ''123456'', o_attempts = 0, o_expiresAt = 1200000, o_createdAt = 990000\<rparr>"

definition sample_auth :: auth_row where
  "sample_auth = \<lparr>a_id = lit ''u1'', a_provider = Phone, a_identifier = sample_phone, a_email = None\<rparr>"

definition sample_user :: user_row where
  "sample_user = \<lparr>u_id = lit ''u1'', u_name = lit ''Ada'', u_gender = Female, u_birthYear = 1990,
     u_createdAt = 0, u_updatedAt = 0\<rparr>"

definition sample_token :: token_row where
  "sample_token = \<lparr>t_id = lit ''t1'', t_authId = lit ''u1'', t_token = lit ''tok'', t_deviceInfo = None,
     t_expiresAt = 2000000, t_revokedAt = None, t_lastUsedAt = 0, t_createdAt = 0\<rparr>"

definition sample_db :: db where
  "sample_db = \<lparr>otps = [(sample_phone, sample_otp)], auth = [sample_auth], users = [sample_user],
     tokens = [sample_token]\<rparr>"

lemmas sample_defs = sample_env_def sample_ext_def sample_ctx_def sample_world_def sample_otp_def
  sample_auth_def sample_user_def sample_token_def sample_db_def

lemma sample_world_simps [simp]:
  "w_db (sample_world d) = d" "w_now (sample_world d) = 1000000" "w_io (sample_world d) = []"
  "w_tasks (sample_world d) = []" "w_dbCache (sample_world d) = [lit ''postgres'']"
  by (simp_all add: sample_world_def)

lemma sample_connected [simp]: "quiet (sample_world d)" "connected sample_ctx (sample_world d)"
  by (simp_all add: quiet_def connected_def sample_ctx_def sample_env_def)

lemma live_sample [simp]: "live (w_rand (sample_world d))"
proof -
  have "(of_nat (i mod 10) :: 8 word) < 250" for i :: nat
  proof -
    have "i mod 10 < 250" by (rule less_trans[of _ 10]) simp_all
    then show ?thesis by (simp add: word_less_nat_alt unat_of_nat take_bit_nat_eq_self)
  qed
  then show ?thesis by (simp add: live_def sample_world_def)
qed

lemma sample_db_lookups [simp]:
  "selectOtp sample_phone sample_db = Some sample_otp"
  "selectAuth Phone sample_phone sample_db = Some sample_auth"
  "selectUser (lit ''u1'') sample_db = Some sample_user"
  "selectToken (lit ''tok'') sample_db = Some sample_token"
  "selectAuthById (lit ''u1'') sample_db = Some sample_auth"
  by (simp_all add: selectOtp_def selectAuth_def selectUser_def selectToken_def selectAuthById_def
      sample_db_def sample_auth_def sample_user_def sample_token_def)

lemma sample_rows [simp]:
  "tokens sample_db = [sample_token]" "auth sample_db = [sample_auth]" "users sample_db = [sample_user]"
  "a_id sample_auth = lit ''u1''" "a_provider sample_auth = Phone" "a_identifier sample_auth = sample_phone"
  "a_email sample_auth = None" "u_id sample_user = lit ''u1''" "t_id sample_token = lit ''t1''"
  "t_token sample_token = lit ''tok''" "t_authId sample_token = lit ''u1''"
  by (simp_all add: sample_db_def sample_auth_def sample_user_def sample_token_def)

lemma sample_ids [simp]: "w_ids (sample_world d) i = replicate (Suc i) 105" "w_idPos (sample_world d) = 0"
  by (simp_all add: sample_world_def)

lemma sample_db_ok [simp]: "db_ok sample_db"
  by (simp add: db_ok_def sample_db_def sample_auth_def sample_user_def sample_token_def)

lemma sample_otps_ok [simp]: "otps_ok sample_db"
  by (auto simp: otps_ok_def otp_row_ok_def selectOtp_def sample_db_def sample_otp_def isOtp_def lit_def isDigit_def
      auth_config split: if_splits)

end
