(* ===== verification/AuthOtp.thy ===== *)
theory AuthOtp
  imports AuthInvariants Samples
begin

text \<open>
  One-time codes: \<open>verifyOTPCode\<close> as a refinement of a specification on the stored row alone,
  the limit on guesses in a sequence of verifications, the branches of \<open>requestOTP\<close>, and what
  happens when guesses run concurrently.
\<close>

section \<open>The specification of a verification\<close>

text \<open>The verdict and the row that remains, from the row found, the time and the code given.\<close>

fun otpSpec :: "timestamp \<Rightarrow> jstring \<Rightarrow> otp_row option \<Rightarrow> otp_result \<times> otp_row option" where
  "otpSpec t code None =
     (OtpFailure OTP_NOT_FOUND (lit ''No OTP found for this phone number''), None)"
| "otpSpec t code (Some r) =
     (if o_expiresAt r < t then (OtpFailure OTP_EXPIRED (lit ''OTP has expired''), None)
      else if 3 \<le> o_attempts r then (tooManyAttempts, None)
      else if code = o_code r then (OtpSuccess, None)
      else if o_attempts r = 2 then (tooManyAttempts, None)
      else (OtpFailure OTP_INVALID (lit ''Invalid OTP! Please check and try again.''),
            Some (r\<lparr>o_attempts := o_attempts r + 1\<rparr>)))"

definition serving :: "ctx \<Rightarrow> world \<Rightarrow> bool" where
  "serving c w \<longleftrightarrow> quiet w \<and> connected c w"

lemma serving_simps [simp]:
  "serving c (w\<lparr>w_db := d\<rparr>) = serving c w" "serving c (w\<lparr>w_tasks := ts\<rparr>) = serving c w"
  "serving c (w\<lparr>w_idPos := i\<rparr>) = serving c w" "serving c (w\<lparr>w_randPos := i\<rparr>) = serving c w"
  "serving c (w\<lparr>w_now := t\<rparr>) = serving c w" "serving c (w\<lparr>w_sent := rs\<rparr>) = serving c w"
  by (simp_all add: serving_def)

lemma run_serving:
  assumes "serving c w"
  shows "run (getDb c) w = (Done (), w)"
    and "run (sqlQuery q) w = (Done (q (w_db w)), w)"
    and "run (sqlExec u) w = (Done (), w\<lparr>w_db := u (w_now w) (w_db w)\<rparr>)"
    and "run (sqlCheck v) w = (case v (w_now w) (w_db w) of
          Inl e \<Rightarrow> (Thrown (DbError e), w) | Inr d \<Rightarrow> (Done (), w\<lparr>w_db := d\<rparr>))"
  using assms by (simp_all add: serving_def run_quiet)

definition otp_change :: "jstring \<Rightarrow> otp_row option \<Rightarrow> db \<Rightarrow> db \<Rightarrow> bool" where
  "otp_change ph row d d' \<longleftrightarrow>
     (\<forall>p. selectOtp p d' = (if p = ph then row else selectOtp p d))
   \<and> auth d' = auth d \<and> users d' = users d \<and> tokens d' = tokens d"

lemma otp_change_ops:
  "otp_change ph None d (deleteOtp ph d)"
  "otp_change ph (Some r) d (upsertOtp ph r d)"
  "selectOtp ph d = Some r \<Longrightarrow>
     otp_change ph (Some (r\<lparr>o_attempts := n\<rparr>)) d (updateOtpAttempts ph n d)"
  "otp_change ph (selectOtp ph d) d d"
  "otp_change ph None d (deleteOtp ph (updateOtpAttempts ph n d))"
  by (auto simp: otp_change_def otp_lookups)

lemma run_verifyOTPCode:
  assumes "serving c w"
  shows "\<exists>d'. run (verifyOTPCode c ph code) w =
           (Done (fst (otpSpec (w_now w) code (selectOtp ph (w_db w)))), w\<lparr>w_db := d'\<rparr>)
       \<and> otp_change ph (snd (otpSpec (w_now w) code (selectOtp ph (w_db w)))) (w_db w) d'"
proof (cases "selectOtp ph (w_db w)")
  case None
  then have "otp_change ph None (w_db w) (w_db w)" using otp_change_ops(4)[of ph "w_db w"] by simp
  with None assms show ?thesis
    by (intro exI[of _ "w_db w"]) (simp add: verifyOTPCode_def run_serving)
next
  case (Some r)
  let ?n = "o_attempts r + 1"
  have "run (verifyOTPCode c ph code) w =
     (Done (fst (otpSpec (w_now w) code (Some r))),
      w\<lparr>w_db :=
        (if o_expiresAt r < w_now w \<or> 3 \<le> o_attempts r \<or> code = o_code r then deleteOtp ph (w_db w)
         else if o_attempts r = 2 then deleteOtp ph (updateOtpAttempts ph ?n (w_db w))
         else updateOtpAttempts ph ?n (w_db w))\<rparr>)"
    using assms Some by (simp add: verifyOTPCode_def run_serving auth_config Let_def)
  with Some show ?thesis by (auto simp: otp_change_ops)
qed

section \<open>A sequence of guesses\<close>

text \<open>Verifications for one phone, one after the other, each at its own time.\<close>

fun verifySeq ::
  "ctx \<Rightarrow> jstring \<Rightarrow> (timestamp \<times> jstring) list \<Rightarrow> world \<Rightarrow> (exn, otp_result) outcome list" where
  "verifySeq c ph [] w = []"
| "verifySeq c ph ((t, code) # gs) w =
     (case run (verifyOTPCode c ph code) (w\<lparr>w_now := t\<rparr>) of (r, w') \<Rightarrow> r # verifySeq c ph gs w')"

fun specSeq :: "otp_row option \<Rightarrow> (timestamp \<times> jstring) list \<Rightarrow> otp_result list" where
  "specSeq row [] = []"
| "specSeq row ((t, code) # gs) = (case otpSpec t code row of (v, row') \<Rightarrow> v # specSeq row' gs)"

lemma length_specSeq [simp]: "length (specSeq row gs) = length gs"
  by (induction gs arbitrary: row) (auto split: prod.splits)

lemma verifySeq_spec:
  "serving c w \<Longrightarrow> verifySeq c ph gs w = map Done (specSeq (selectOtp ph (w_db w)) gs)"
proof (induction gs arbitrary: w)
  case Nil
  then show ?case by simp
next
  case (Cons g gs)
  obtain t code where g: "g = (t, code)" by (cases g)
  let ?w = "w\<lparr>w_now := t\<rparr>"
  let ?s = "otpSpec t code (selectOtp ph (w_db w))"
  from run_verifyOTPCode[of c ?w ph code] Cons.prems obtain d' where
    run: "run (verifyOTPCode c ph code) ?w = (Done (fst ?s), ?w\<lparr>w_db := d'\<rparr>)"
    and row: "selectOtp ph d' = snd ?s"
    by (auto simp: otp_change_def)
  have "verifySeq c ph gs (?w\<lparr>w_db := d'\<rparr>) = map Done (specSeq (snd ?s) gs)"
    using Cons.IH[of "?w\<lparr>w_db := d'\<rparr>"] Cons.prems row by simp
  with run g show ?case by (simp add: case_prod_beta)
qed

lemma specSeq_None: "i < length gs \<Longrightarrow> specSeq None gs ! i = fst (otpSpec t code None)"
proof (induction gs arbitrary: i)
  case (Cons g gs)
  then show ?case by (cases g; cases i) auto
qed simp

lemma specSeq_success_iff:
  assumes "0 \<le> o_attempts r" "i < length gs"
  shows "specSeq (Some r) gs ! i = OtpSuccess \<longleftrightarrow>
     (\<forall>j \<le> i. fst (gs ! j) \<le> o_expiresAt r) \<and> (\<forall>j < i. snd (gs ! j) \<noteq> o_code r)
     \<and> snd (gs ! i) = o_code r \<and> o_attempts r + int i < 3"
  using assms
proof (induction gs arbitrary: i r)
  case Nil
  then show ?case by simp
next
  case (Cons g gs)
  obtain t code where g: "g = (t, code)" by (cases g)
  show ?case
  proof (cases i)
    case 0
    then show ?thesis by (auto simp: g tooManyAttempts_def)
  next
    case (Suc k)
    with Cons.prems have k: "k < length gs" by simp
    have dead: "specSeq None gs ! k \<noteq> OtpSuccess" using specSeq_None[OF k] by simp
    let ?r = "r\<lparr>o_attempts := o_attempts r + 1\<rparr>"
    have IH: "specSeq (Some ?r) gs ! k = OtpSuccess \<longleftrightarrow>
       (\<forall>j \<le> k. fst (gs ! j) \<le> o_expiresAt r) \<and> (\<forall>j < k. snd (gs ! j) \<noteq> o_code r)
       \<and> snd (gs ! k) = o_code r \<and> o_attempts r + 1 + int k < 3"
      using Cons.IH[of ?r k] Cons.prems k by simp
    have all: "(\<forall>j \<le> Suc k. P ((g # gs) ! j)) \<longleftrightarrow> P g \<and> (\<forall>j \<le> k. P (gs ! j))"
      "(\<forall>j < Suc k. P ((g # gs) ! j)) \<longleftrightarrow> P g \<and> (\<forall>j < k. P (gs ! j))" for P
      by (metis Suc_le_mono le0 not0_implies_Suc nth_Cons_0 nth_Cons_Suc)
        (metis Suc_less_eq less_Suc_eq_0_disj nth_Cons_0 nth_Cons_Suc zero_less_Suc)
    show ?thesis
      unfolding Suc all(1)[of "\<lambda>x. fst x \<le> o_expiresAt r"] all(2)[of "\<lambda>x. snd x \<noteq> o_code r"]
      using dead IH by (auto simp: g)
  qed
qed

section \<open>Properties of verification\<close>

text \<open>
  C2. A verification implements its specification: run alone on a connected worker it returns
  exactly the verdict of \<open>otpSpec\<close>, leaves exactly the row \<open>otpSpec\<close> leaves for that phone
  (no row after success, expiry or the last attempt; one more attempt otherwise), and
  changes no other phone's row and no other table.
\<close>

theorem verifyOTPCode_refines:
  assumes "serving c w"
  shows "\<exists>d'. run (verifyOTPCode c ph code) w =
           (Done (fst (otpSpec (w_now w) code (selectOtp ph (w_db w)))), w\<lparr>w_db := d'\<rparr>)
       \<and> otp_change ph (snd (otpSpec (w_now w) code (selectOtp ph (w_db w)))) (w_db w) d'"
  by (rule run_verifyOTPCode[OF assms])

text \<open>
  C3. The limit on guesses: among verifications of one stored code, one after the other, the
  i-th succeeds exactly if it and all before it come before the code expires, it is the
  first to give the right code, and fewer than three failed attempts precede it, counting
  the ones already stored. So a code is accepted at most once and never after three failures.
\<close>

theorem verifyOTPCode_guess_limit:
  assumes "serving c w" "selectOtp ph (w_db w) = Some r" "0 \<le> o_attempts r" "i < length gs"
  shows "(verifySeq c ph gs w ! i = Done OtpSuccess \<longleftrightarrow>
       (\<forall>j \<le> i. fst (gs ! j) \<le> o_expiresAt r) \<and> (\<forall>j < i. snd (gs ! j) \<noteq> o_code r)
       \<and> snd (gs ! i) = o_code r \<and> o_attempts r + int i < 3)"
  using specSeq_success_iff[OF assms(3,4)] assms verifySeq_spec[OF assms(1)] by simp

theorem verifyOTPCode_refines_witness:
  "serving sample_ctx (sample_world sample_db) \<and>
   (\<exists>d'. run (verifyOTPCode sample_ctx sample_phone (lit ''123456'')) (sample_world sample_db)
      = (Done OtpSuccess, (sample_world sample_db)\<lparr>w_db := d'\<rparr>)
    \<and> otp_change sample_phone None sample_db d')"
proof
  show s: "serving sample_ctx (sample_world sample_db)" by (simp add: serving_def)
  show "\<exists>d'. run (verifyOTPCode sample_ctx sample_phone (lit ''123456'')) (sample_world sample_db)
      = (Done OtpSuccess, (sample_world sample_db)\<lparr>w_db := d'\<rparr>)
    \<and> otp_change sample_phone None sample_db d'"
    using verifyOTPCode_refines[OF s, of sample_phone "lit ''123456''"] by (simp add: sample_otp_def)
qed

theorem verifyOTPCode_guess_limit_witness:
  "verifySeq sample_ctx sample_phone
     [(1000000, lit ''000000''), (1000001, lit ''111111''), (1000002, lit ''222222''), (1000003, lit ''123456'')]
     (sample_world sample_db) ! 3 \<noteq> Done OtpSuccess"
  using verifyOTPCode_guess_limit[of sample_ctx "sample_world sample_db" sample_phone sample_otp 3
    "[(1000000, lit ''000000''), (1000001, lit ''111111''), (1000002, lit ''222222''), (1000003, lit ''123456'')]"]
  by (simp add: serving_def sample_otp_def)

section \<open>Requesting a code\<close>

definition cooling :: "jstring \<Rightarrow> world \<Rightarrow> bool" where
  "cooling ph w \<longleftrightarrow> (\<exists>r. selectOtp ph (w_db w) = Some r \<and> w_now w - 60000 < o_createdAt r)"

definition phoneUser :: "jstring \<Rightarrow> db \<Rightarrow> bool" where
  "phoneUser ph d \<longleftrightarrow> (\<exists>a. selectAuth Phone ph d = Some a \<and> selectUser (a_id a) d \<noteq> None)"

definition freshOtp :: "jstring \<Rightarrow> timestamp \<Rightarrow> otp_row" where
  "freshOtp code t = \<lparr>o_code = code, o_attempts = 0, o_expiresAt = t + 300000, o_createdAt = t\<rparr>"

lemma run_requestOTP:
  assumes "serving c w" "otpLoop (w_rand w) 6 [] (w_randPos w) = Some (s, j)"
  shows "run (requestOTP c req) w =
    (if cooling (or_phone req) w then (Done (res_otpRateLimited None), w)
     else if or_purpose req = LoginPurpose \<and> \<not> phoneUser (or_phone req) (w_db w)
       then (Done (otpBody False), w)
     else if or_purpose req = SignupPurpose \<and> phoneUser (or_phone req) (w_db w)
       then (Done (res_userExists (Some (lit ''User already exists. Please login instead.''))), w)
     else (Done (otpBody (phoneUser (or_phone req) (w_db w))),
       w\<lparr>w_randPos := j, w_db := upsertOtp (or_phone req) (freshOtp s (w_now w)) (w_db w),
         w_tasks := w_tasks w @ [SendOtpTask (or_phone req) s]\<rparr>))"
proof -
  have gen: "run generateOTP w = (Done s, w\<lparr>w_randPos := j\<rparr>)"
    using assms(2) by (simp add: generateOTP_def)
  have sv: "serving c (w\<lparr>w_randPos := j\<rparr>)" using assms(1) by simp
  have cool: "(case selectOtp (or_phone req) (w_db w) of None \<Rightarrow> False
      | Some r \<Rightarrow> w_now w - 60000 < o_createdAt r) \<longleftrightarrow> cooling (or_phone req) w"
    by (auto simp: cooling_def split: option.splits)
  show ?thesis
  proof (cases "selectAuth Phone (or_phone req) (w_db w)")
    case None
    then have "\<not> phoneUser (or_phone req) (w_db w)" by (simp add: phoneUser_def)
    with None show ?thesis
      by (simp add: requestOTP_def Let_def run_serving[OF assms(1)] run_serving[OF sv] cool gen freshOtp_def
          auth_config)
  next
    case (Some a)
    then have "phoneUser (or_phone req) (w_db w) \<longleftrightarrow> selectUser (a_id a) (w_db w) \<noteq> None"
      by (simp add: phoneUser_def)
    with Some show ?thesis
      by (cases "selectUser (a_id a) (w_db w)")
        (simp_all add: requestOTP_def Let_def run_serving[OF assms(1)] run_serving[OF sv] cool gen
          freshOtp_def auth_config)
  qed
qed

text \<open>
  C13. A request for a code, on every branch: within the cooldown of a stored code it is
  refused and nothing changes; a login request for an unknown user and a signup request for
  a known one answer without sending anything; every other request stores a fresh six-digit
  code with no failed attempts that expires five minutes later, and hands exactly one
  message with that code for that phone to the background. The code is always found
  when the random source keeps producing bytes below 250.
\<close>

theorem requestOTP_decides:
  assumes "serving c w" "live (w_rand w)"
  shows "\<exists>s j. isOtp s \<and> run (requestOTP c req) w =
    (if cooling (or_phone req) w then (Done (res_otpRateLimited None), w)
     else if or_purpose req = LoginPurpose \<and> \<not> phoneUser (or_phone req) (w_db w)
       then (Done (otpBody False), w)
     else if or_purpose req = SignupPurpose \<and> phoneUser (or_phone req) (w_db w)
       then (Done (res_userExists (Some (lit ''User already exists. Please login instead.''))), w)
     else (Done (otpBody (phoneUser (or_phone req) (w_db w))),
       w\<lparr>w_randPos := j, w_db := upsertOtp (or_phone req) (freshOtp s (w_now w)) (w_db w),
         w_tasks := w_tasks w @ [SendOtpTask (or_phone req) s]\<rparr>))"
proof -
  obtain s j where "otpLoop (w_rand w) 6 [] (w_randPos w) = Some (s, j)" "isOtp s"
    using run_generateOTP[OF assms(2)] by blast
  with run_requestOTP[OF assms(1)] show ?thesis by blast
qed

definition sample_login :: otp_request where
  "sample_login = \<lparr>or_phone = sample_phone, or_purpose = LoginPurpose\<rparr>"

lemma sample_serving [simp]: "serving sample_ctx (sample_world d)"
  by (simp add: serving_def)

lemma sample_phoneUser [simp]: "phoneUser sample_phone sample_db"
  by (simp add: phoneUser_def sample_auth_def)

theorem requestOTP_decides_witness:
  "run (requestOTP sample_ctx sample_login) (sample_world sample_db)
     = (Done (res_otpRateLimited None), sample_world sample_db)"
proof -
  have "cooling (or_phone sample_login) (sample_world sample_db)"
    by (simp add: cooling_def sample_login_def sample_otp_def)
  with requestOTP_decides[of sample_ctx "sample_world sample_db" sample_login] show ?thesis by simp
qed

text \<open>
  C15. The code that is texted is the code that is accepted: when a request hands a message
  to the background, the message is for the requested phone, its code passes the \<open>otp\<close> schema
  unchanged, and a verification with it at any time up to five minutes later succeeds and
  leaves no code behind, so that the same verification again finds none.
\<close>

theorem requested_code_verifies_once:
  assumes "serving c w" "live (w_rand w)"
    and "run (requestOTP c req) w = (Done r, w')" "w_tasks w' = w_tasks w @ [SendOtpTask ph s]"
    and "w_now w \<le> t" "t \<le> w_now w + 300000"
  shows "ph = or_phone req \<and> otp (Some (JStr s)) = Inr s
    \<and> verifySeq c ph [(t, s), (t, s)] w'
        = [Done OtpSuccess, Done (OtpFailure OTP_NOT_FOUND (lit ''No OTP found for this phone number''))]"
proof -
  obtain s' j where sj: "otpLoop (w_rand w) 6 [] (w_randPos w) = Some (s', j)" "isOtp s'"
    using run_generateOTP[OF assms(2)] by blast
  from run_requestOTP[OF assms(1) sj(1), of req] assms(3,4)
  have w': "w' = w\<lparr>w_randPos := j, w_db := upsertOtp (or_phone req) (freshOtp s' (w_now w)) (w_db w),
         w_tasks := w_tasks w @ [SendOtpTask (or_phone req) s']\<rparr>"
    by (auto split: if_splits)
  with assms(4) have ph: "ph = or_phone req" and s: "s = s'" by auto
  have "serving c w'" using assms(1) by (simp add: w')
  moreover have "selectOtp ph (w_db w') = Some (freshOtp s (w_now w))"
    by (simp add: w' ph s otp_lookups)
  ultimately have "verifySeq c ph [(t, s), (t, s)] w'
      = map Done (specSeq (Some (freshOtp s (w_now w))) [(t, s), (t, s)])"
    by (simp only: verifySeq_spec)
  then show ?thesis
    using assms(6) sj(2) isOtp_not_space[of s] by (simp add: ph s freshOtp_def otp_eq_Inr)
qed

lemma sample_otpLoop:
  "otpLoop (w_rand (sample_world d)) 6 [] (w_randPos (sample_world d)) = Some (lit ''012345'', 6)"
proof -
  define rnd :: "nat \<Rightarrow> 8 word" where "rnd = (\<lambda>i. of_nat (i mod 10))"
  have small: "unat (rnd i) = i" and "\<not> 250 \<le> rnd i" if "i < 10" for i
    using that by (simp_all add: rnd_def word_le_nat_alt unat_of_nat take_bit_nat_eq_self)
  then have step: "otpLoop rnd (Suc n) code i = otpLoop rnd n (code @ [digitUnit i]) (Suc i)"
    if "i < 10" for n code i
    using that by (simp add: sampleByte.simps[of rnd i] natToString_digit)
  have "otpLoop rnd (Suc (Suc (Suc (Suc (Suc (Suc 0)))))) [] 0
      = Some (map digitUnit [0, 1, 2, 3, 4, 5], 6)"
    by (simp add: step eval_nat_numeral del: otpLoop.simps(2))
  moreover have "map digitUnit [0, 1, 2, 3, 4, 5] = lit ''012345''"
    by (simp add: digitUnit_def lit_def)
  moreover have "Suc (Suc (Suc (Suc (Suc (Suc 0))))) = 6" by simp
  ultimately show ?thesis by (simp add: sample_world_def rnd_def)
qed

theorem requested_code_verifies_once_witness:
  "verifySeq sample_ctx sample_phone [(1200000, lit ''012345''), (1200000, lit ''012345'')]
     (snd (run (requestOTP sample_ctx sample_login) (sample_world (deleteOtp sample_phone sample_db))))
   = [Done OtpSuccess, Done (OtpFailure OTP_NOT_FOUND (lit ''No OTP found for this phone number''))]"
proof -
  let ?w = "sample_world (deleteOtp sample_phone sample_db)"
  have "phoneUser sample_phone (deleteOtp sample_phone sample_db)"
    by (simp add: phoneUser_def selectAuth_def selectUser_def sample_db_def sample_auth_def sample_user_def deleteOtp_def)
  then have run: "run (requestOTP sample_ctx sample_login) ?w = (Done (otpBody True),
      ?w\<lparr>w_randPos := 6, w_db := upsertOtp sample_phone (freshOtp (lit ''012345'') 1000000) (w_db ?w),
        w_tasks := [SendOtpTask sample_phone (lit ''012345'')]\<rparr>)"
    using run_requestOTP[OF _ sample_otpLoop, of sample_ctx "deleteOtp sample_phone sample_db" sample_login]
    by (simp add: cooling_def sample_login_def otp_lookups)
  show ?thesis
    unfolding run snd_conv
    using requested_code_verifies_once[OF _ _ run, of sample_phone "lit ''012345''" 1200000]
    by (simp add: sample_login_def del: verifySeq.simps)
qed

text \<open>
  C32. The cooldown is stored only in the row of the code, so it ends when the row is deleted.
  Take a stored code so recent that every request for another one is refused: a wrong guess
  that uses up its last attempt is answered \<open>OTP_MAX_ATTEMPTS\<close> and deletes the row, and the
  same request that was just refused (a login for a known user, a signup for an unknown one)
  is then granted at the same instant: a fresh code is stored with no failed attempts and is
  handed to the background to be texted.
\<close>

theorem last_attempt_lifts_cooldown:
  assumes "serving c w" "live (w_rand w)" "selectOtp ph (w_db w) = Some r"
    and "o_attempts r = 2" "w_now w \<le> o_expiresAt r" "code \<noteq> o_code r" "cooling ph w"
    and "req = \<lparr>or_phone = ph, or_purpose = (if phoneUser ph (w_db w) then LoginPurpose else SignupPurpose)\<rparr>"
  shows "run (requestOTP c req) w = (Done (res_otpRateLimited None), w)
    \<and> (\<exists>d s j. run (verifyOTPCode c ph code) w = (Done tooManyAttempts, w\<lparr>w_db := d\<rparr>)
         \<and> otp_change ph None (w_db w) d \<and> isOtp s
         \<and> run (requestOTP c req) (w\<lparr>w_db := d\<rparr>)
           = (Done (otpBody (phoneUser ph (w_db w))),
              w\<lparr>w_randPos := j, w_db := upsertOtp ph (freshOtp s (w_now w)) d,
                w_tasks := w_tasks w @ [SendOtpTask ph s]\<rparr>))"
proof
  obtain s j where sj: "otpLoop (w_rand w) 6 [] (w_randPos w) = Some (s, j)" "isOtp s"
    using run_generateOTP[OF assms(2)] by blast
  show "run (requestOTP c req) w = (Done (res_otpRateLimited None), w)"
    using run_requestOTP[OF assms(1) sj(1)] assms(7,8) by simp
  from run_verifyOTPCode[OF assms(1), of ph code] assms(3-6) obtain d where
    v: "run (verifyOTPCode c ph code) w = (Done tooManyAttempts, w\<lparr>w_db := d\<rparr>)"
    and ch: "otp_change ph None (w_db w) d"
    by auto
  have "phoneUser ph d = phoneUser ph (w_db w)"
    using ch by (simp add: phoneUser_def otp_change_def selectAuth_def selectUser_def)
  moreover have "\<not> cooling ph (w\<lparr>w_db := d\<rparr>)" using ch by (simp add: cooling_def otp_change_def)
  ultimately have "run (requestOTP c req) (w\<lparr>w_db := d\<rparr>)
      = (Done (otpBody (phoneUser ph (w_db w))),
         w\<lparr>w_randPos := j, w_db := upsertOtp ph (freshOtp s (w_now w)) d,
           w_tasks := w_tasks w @ [SendOtpTask ph s]\<rparr>)"
    using run_requestOTP[of c "w\<lparr>w_db := d\<rparr>" s j req] assms(1,8) sj(1) by simp
  with v ch sj(2) show "\<exists>d s j. run (verifyOTPCode c ph code) w = (Done tooManyAttempts, w\<lparr>w_db := d\<rparr>)
         \<and> otp_change ph None (w_db w) d \<and> isOtp s
         \<and> run (requestOTP c req) (w\<lparr>w_db := d\<rparr>)
           = (Done (otpBody (phoneUser ph (w_db w))),
              w\<lparr>w_randPos := j, w_db := upsertOtp ph (freshOtp s (w_now w)) d,
                w_tasks := w_tasks w @ [SendOtpTask ph s]\<rparr>)" by blast
qed

theorem last_attempt_lifts_cooldown_witness:
  "run (requestOTP sample_ctx sample_login) (sample_world (updateOtpAttempts sample_phone 2 sample_db))
     = (Done (res_otpRateLimited None), sample_world (updateOtpAttempts sample_phone 2 sample_db))
   \<and> (\<exists>s w'. run (requestOTP sample_ctx sample_login)
     (snd (run (verifyOTPCode sample_ctx sample_phone (lit ''000000''))
        (sample_world (updateOtpAttempts sample_phone 2 sample_db)))) = (Done (otpBody True), w')
      \<and> w_tasks w' = [SendOtpTask sample_phone s])"
proof -
  let ?d = "updateOtpAttempts sample_phone 2 sample_db"
  have row: "selectOtp sample_phone ?d = Some (sample_otp\<lparr>o_attempts := 2\<rparr>)"
    by (simp add: selectOtp_updateOtpAttempts)
  have user: "phoneUser sample_phone ?d"
    using sample_phoneUser by (simp add: phoneUser_def selectAuth_def selectUser_def)
  have cool: "cooling sample_phone (sample_world ?d)"
    by (simp add: cooling_def row sample_otp_def)
  show ?thesis
    using last_attempt_lifts_cooldown[of sample_ctx "sample_world ?d" sample_phone
        "sample_otp\<lparr>o_attempts := 2\<rparr>" "lit ''000000''" sample_login] row user cool
    by (auto simp: sample_login_def sample_otp_def)
qed

section \<open>Requests on a failing network\<close>

lemma run_sqlQuery:
  "run (sqlQuery q) w = (case io_fault (nextIo w) of
     Some m \<Rightarrow> (Thrown (DbFault m), afterIo w) | None \<Rightarrow> (Done (q (w_db w)), afterIo w))"
  by (simp add: sqlQuery_def sql_def sqlEffect_def split: option.splits)

lemma run_sqlExec:
  "run (sqlExec u) w = (case io_fault (nextIo w) of
     Some m \<Rightarrow> (Thrown (DbFault m), if io_lost (nextIo w)
          then (afterIo w)\<lparr>w_db := u (w_now (afterIo w)) (w_db w)\<rparr> else afterIo w)
   | None \<Rightarrow> (Done (), (afterIo w)\<lparr>w_db := u (w_now (afterIo w)) (w_db w)\<rparr>))"
  by (simp add: sqlExec_def sql_def sqlEffect_def split: option.splits)

lemma w_tasks_afterIo [simp]: "w_tasks (afterIo w) = w_tasks w"
  by (simp add: afterIo_def)

lemma run_getDb_keeps:
  "w_tasks (snd (run (getDb c) w)) = w_tasks w \<and> w_db (snd (run (getDb c) w)) = w_db w"
  by (auto simp: getDb_def Let_def split: option.splits)

lemma run_generateOTP_keeps:
  "w_tasks (snd (run generateOTP w)) = w_tasks w \<and> w_db (snd (run generateOTP w)) = w_db w"
  by (auto simp: generateOTP_def split: option.splits)

text \<open>\<open>silent p\<close>: run alone, \<open>p\<close> hands nothing to the background and leaves the database alone.\<close>

definition silent :: "(world, exn, 'a) prog \<Rightarrow> bool" where
  "silent p \<longleftrightarrow> (\<forall>w. w_tasks (snd (run p w)) = w_tasks w \<and> w_db (snd (run p w)) = w_db w)"

lemma silentI [intro]:
  "silent (Ret a)" "silent (getDb c)" "silent (sqlQuery q)" "silent now" "silent (minutesAgo m)"
  "silent (minutesFromNow m)" "silent generateOTP"
  by (auto simp: silent_def run_getDb_keeps run_generateOTP_keeps run_sqlQuery split: option.splits)

definition sendsOnly :: "jstring \<Rightarrow> (world, exn, response) prog \<Rightarrow> bool" where
  "sendsOnly ph p \<longleftrightarrow> (\<forall>w. case run p w of (out, w') \<Rightarrow>
     (w_tasks w' = w_tasks w
      \<or> (\<exists>s r. w_tasks w' = w_tasks w @ [SendOtpTask ph s] \<and> selectOtp ph (w_db w') = Some r \<and> o_code r = s
           \<and> o_attempts r = 0 \<and> (\<exists>b. out = Done (otpBody b)))))"

lemma sendsOnly_silent: "silent p \<Longrightarrow> sendsOnly ph p"
  by (auto simp: sendsOnly_def silent_def case_prod_beta)

lemma sendsOnly_bind: "silent p \<Longrightarrow> (\<And>a. sendsOnly ph (k a)) \<Longrightarrow> sendsOnly ph (bindP p k)"
  unfolding sendsOnly_def silent_def
  by (auto simp: case_prod_beta split: outcome.splits prod.splits) (metis snd_conv)+

lemma sendsOnly_if: "sendsOnly ph p \<Longrightarrow> sendsOnly ph q \<Longrightarrow> sendsOnly ph (if b then p else q)"
  and sendsOnly_Ret: "sendsOnly ph (Ret r)"
  by (simp_all add: sendsOnly_silent silentI)

lemma sendsOnly_requestOTP: "sendsOnly (or_phone req) (requestOTP c req)"
proof -
  have store: "sendsOnly (or_phone req) (bindP (tryP
       (bindP now (\<lambda>createdAt.
        bindP (sqlExec (\<lambda>_. upsertOtp (or_phone req)
                 \<lparr>o_code = s, o_attempts = 0, o_expiresAt = ex, o_createdAt = createdAt\<rparr>))
          (\<lambda>_. waitUntil (SendOtpTask (or_phone req) s)))))
       (\<lambda>r. case r of
              Inl e \<Rightarrow> Ret (res_databaseError (Some (lit ''Failed to process OTP request'')))
            | Inr _ \<Rightarrow> Ret (otpBody b)))" for s ex b
    by (auto simp: sendsOnly_def run_sqlExec otp_lookups split: option.splits)
  have exists: "silent (case a of None \<Rightarrow> Ret False
      | Some a \<Rightarrow> bindP (sqlQuery (selectUser (a_id a))) (\<lambda>existingUser. Ret (existingUser \<noteq> None)))" for a
    by (auto simp: silent_def run_sqlQuery split: option.splits)
  show ?thesis
    unfolding requestOTP_def Let_def
    by (rule sendsOnly_if sendsOnly_Ret store exists silentI sendsOnly_bind)+
qed

text \<open>
  On any network, with statements that fail, lose their answer or take any time: a request for a code hands
  at most one message to the background, and only a message whose code is at that moment
  the stored code of the requested phone, with no failed attempts; the answer is then a
  success.
\<close>

lemma requestOTP_texts_stored_code:
  "case run (requestOTP c req) w of (out, w') \<Rightarrow>
     w_tasks w' = w_tasks w
   \<or> (\<exists>s r. w_tasks w' = w_tasks w @ [SendOtpTask (or_phone req) s]
        \<and> selectOtp (or_phone req) (w_db w') = Some r \<and> o_code r = s \<and> o_attempts r = 0
        \<and> (\<exists>b. out = Done (otpBody b)))"
  using sendsOnly_requestOTP[of req c] by (auto simp: sendsOnly_def)

section \<open>Concurrent guesses\<close>

text \<open>The three turns of a verification: connect, read the row, write the result.\<close>

definition verifyAfterRead :: "jstring \<Rightarrow> jstring \<Rightarrow> otp_row \<Rightarrow> (world, exn, otp_result) prog" where
  "verifyAfterRead ph code r =
     (if o_code r \<noteq> code then
        bindP (sqlExec (\<lambda>_. updateOtpAttempts ph (o_attempts r + 1))) (\<lambda>_.
          Ret (OtpFailure OTP_INVALID (lit ''Invalid OTP! Please check and try again.'')))
      else bindP (sqlExec (\<lambda>_. deleteOtp ph)) (\<lambda>_. Ret OtpSuccess))"

lemma settle_now: "settle (bindP now k) w = settle (k (w_now w)) w"
  by (simp add: now_def getW_def)

lemma settle_sql: "settle (bindP (sql q) k) w = (bindP (sql q) k, w)"
  by (simp add: sql_def awaitW_def)

lemma turn_sql:
  "quiet w \<Longrightarrow> turn (bindP (sql q) k) w = Some (case q (w_now w) (w_db w) of
      Inl c \<Rightarrow> (Throw (DbError c), w) | Inr (a, d) \<Rightarrow> settle (k a) (w\<lparr>w_db := d\<rparr>))"
  unfolding sql_def turn_awaitW by (auto simp: sqlEffect_def split: sum.splits prod.splits)

lemma turn_getDb: "connected c w \<Longrightarrow> turn (bindP (getDb c) k) w = Some (settle (k ()) w)"
  by (auto simp: getDb_def connected_def Let_def)

lemmas turn_rules = settle_now settle_sql turn_sql turn_getDb

lemma settle_getDb: "connected c w \<Longrightarrow> settle (bindP (getDb c) k) w = settle (k ()) w"
  by (auto simp: getDb_def connected_def Let_def)

lemma verify_connect:
  "serving c w \<Longrightarrow>
     turn (verifyOTPCode c ph code) w = Some (fst (settle (verifyOTPCode c ph code) w), w)"
  by (simp add: serving_def verifyOTPCode_def turn_getDb settle_getDb settle_sql sqlQuery_def)

lemma verify_read:
  assumes "serving c w" "selectOtp ph (w_db w) = Some r" "w_now w \<le> o_expiresAt r" "o_attempts r < 2"
  shows "turn (fst (settle (verifyOTPCode c ph code) w)) w = Some (verifyAfterRead ph code r, w)"
  using assms
  by (simp add: serving_def verifyOTPCode_def verifyAfterRead_def settle_getDb turn_rules sqlQuery_def
      sqlExec_def auth_config Let_def)

definition guessAnswer :: "jstring \<Rightarrow> otp_row \<Rightarrow> otp_result" where
  "guessAnswer code r =
     (if code = o_code r then OtpSuccess
      else OtpFailure OTP_INVALID (lit ''Invalid OTP! Please check and try again.''))"

lemma verify_write:
  assumes "serving c w"
  shows "\<exists>w'. turn (verifyAfterRead ph code r) w = Some (Ret (guessAnswer code r), w') \<and> serving c w'"
  using assms by (auto simp: serving_def verifyAfterRead_def guessAnswer_def sqlExec_def turn_sql)

text \<open>
  C33. The limit on guesses does not hold for concurrent requests: with a stored code that has
  fewer than two failed attempts, any number of verifications can all read the row before
  any of them writes it, and each is then answered on its merits. So arbitrarily many wrong
  codes are answered \<open>OTP_INVALID\<close>, and the right one among them is still accepted.
\<close>

theorem concurrent_guesses_unlimited:
  assumes "serving c w" "selectOtp ph (w_db w) = Some r" "w_now w \<le> o_expiresAt r" "o_attempts r < 2"
  shows "\<exists>w'. sys_step\<^sup>*\<^sup>* (w, map (verifyOTPCode c ph) codes) (w', map (\<lambda>code. Ret (guessAnswer code r)) codes)"
proof -
  let ?p1 = "map (\<lambda>code. fst (settle (verifyOTPCode c ph code) w)) codes"
  let ?p2 = "map (\<lambda>code. verifyAfterRead ph code r) codes"
  have "\<exists>w'. sys_step\<^sup>*\<^sup>* (w, map (verifyOTPCode c ph) codes) (w', ?p1) \<and> w' = w"
    by (rule turns_in_order) (auto simp: verify_connect[OF assms(1)])
  moreover have "\<exists>w'. sys_step\<^sup>*\<^sup>* (w, ?p1) (w', ?p2) \<and> w' = w"
    by (rule turns_in_order) (auto simp: verify_read[OF assms])
  moreover have "\<exists>w'. sys_step\<^sup>*\<^sup>* (w, ?p2) (w', map (\<lambda>code. Ret (guessAnswer code r)) codes) \<and> serving c w'"
    by (rule turns_in_order) (use assms(1) verify_write in auto)
  ultimately show ?thesis by (meson rtranclp_trans)
qed

theorem concurrent_guesses_unlimited_witness:
  "\<exists>w'. sys_step\<^sup>*\<^sup>* (sample_world sample_db,
       map (verifyOTPCode sample_ctx sample_phone)
         [lit ''000000'', lit ''000001'', lit ''000002'', lit ''000003'', lit ''123456''])
     (w', replicate 4 (Ret (OtpFailure OTP_INVALID (lit ''Invalid OTP! Please check and try again.'')))
            @ [Ret OtpSuccess])"
  using concurrent_guesses_unlimited[of sample_ctx "sample_world sample_db" sample_phone sample_otp
      "[lit ''000000'', lit ''000001'', lit ''000002'', lit ''000003'', lit ''123456'']"]
  by (simp add: guessAnswer_def sample_otp_def numeral_eq_Suc)

end
