(* ===== verification/AuthSessions.thy ===== *)
theory AuthSessions
  imports AuthOtp
begin

text \<open>
  Sessions: the rotation of refresh tokens, the refresh cooldown, logout, and what concurrent
  refreshes of one token do.
\<close>

section \<open>Running the session handlers\<close>

definition nextRefreshToken :: "world \<Rightarrow> jstring" where
  "nextRefreshToken w = encodeRefreshToken (map (\<lambda>i. w_rand w (w_randPos w + i)) [0..<16])"

definition accessTokenAt :: "ctx \<Rightarrow> jstring \<Rightarrow> timestamp \<Rightarrow> jstring" where
  "accessTokenAt c authId t = x_sign (c_ext c)
     \<lparr>jwt_sub = authId, jwt_iat = t div 1000, jwt_exp = t div 1000 + 1800\<rparr> (JWT_SECRET (getEnv c))"

definition thirtyDays :: int where
  "thirtyDays = 30 * 24 * 60 * 60 * 1000"

lemma run_token_helpers [simp]:
  "run generateRefreshToken w = (Done (nextRefreshToken w), w\<lparr>w_randPos := w_randPos w + 16\<rparr>)"
  "run (generateAccessToken c u) w = (Done (accessTokenAt c u (w_now w)), w)"
  by (simp_all add: run_generateRefreshToken run_generateAccessToken nextRefreshToken_def accessTokenAt_def)

lemma run_refreshTokens:
  assumes "serving c w"
  shows "run (refreshTokens c \<lparr>rr_refreshToken = tok\<rparr>) w =
    (case selectToken tok (w_db w) of
       None \<Rightarrow> (Done (res_invalidRefreshToken None), w)
     | Some r \<Rightarrow>
         if t_revokedAt r \<noteq> None \<or> t_expiresAt r < w_now w then (Done (res_invalidRefreshToken None), w)
         else if selectAuthById (t_authId r) (w_db w) = None
           then (Done (res_unauthorized (Some (lit ''User not found''))), w)
         else if w_now w - t_lastUsedAt r < 300000 then (Done (res_rateLimited None), w)
         else (case rotateToken tok (nextRefreshToken w) (w_now w + thirtyDays) (w_now w) (w_db w) of
             Inl e \<Rightarrow> (Thrown (DbError e), w\<lparr>w_randPos := w_randPos w + 16\<rparr>)
           | Inr d \<Rightarrow>
              (Done (res_ok (tokenFields (accessTokenAt c (t_authId r) (w_now w), nextRefreshToken w)) noOptions),
               w\<lparr>w_randPos := w_randPos w + 16, w_db := d\<rparr>)))"
proof -
  have sv: "serving c (w\<lparr>w_randPos := w_randPos w + 16\<rparr>)" using assms by simp
  show ?thesis
    by (auto simp: refreshTokens_def run_serving[OF assms] run_serving[OF sv] run_recentlyRefreshed
        auth_config thirtyDays_def split: option.splits sum.splits)
qed

lemma run_logout:
  assumes "serving c w"
  shows "run (logout c \<lparr>rr_refreshToken = tok\<rparr>) w =
    (if \<exists>r. selectToken tok (w_db w) = Some r \<and> t_revokedAt r = None
     then (Done (res_ok [(lit ''message'', JStr (lit ''Logged out''))] noOptions),
           w\<lparr>w_db := revokeToken tok (w_now w) (w_db w)\<rparr>)
     else (Done (res_unauthorized (Some (lit ''Invalid refresh token''))), w))"
  by (auto simp: logout_def run_serving[OF assms] split: option.splits)

lemma run_issueTokens:
  assumes "serving c w"
  shows "run (issueTokens c i di) w =
    (let w1 = w\<lparr>w_randPos := w_randPos w + 16, w_idPos := Suc (w_idPos w)\<rparr> in
     case insertToken \<lparr>t_id = w_ids w (w_idPos w), t_authId = i, t_token = nextRefreshToken w,
        t_deviceInfo = di, t_expiresAt = w_now w + thirtyDays, t_revokedAt = None,
        t_lastUsedAt = w_now w, t_createdAt = w_now w\<rparr> (w_db w) of
       Inl e \<Rightarrow> (Thrown (DbError e), w1)
     | Inr d \<Rightarrow> (Done (accessTokenAt c i (w_now w), nextRefreshToken w), w1\<lparr>w_db := d\<rparr>))"
proof -
  let ?w1 = "w\<lparr>w_randPos := w_randPos w + 16, w_idPos := Suc (w_idPos w)\<rparr>"
  have sv: "serving c ?w1" using assms by simp
  show ?thesis
    by (auto simp: issueTokens_def Let_def run_serving[OF assms] run_serving[OF sv]
        auth_config thirtyDays_def split: sum.splits)
qed

lemma token_has_account:
  assumes "db_ok d" "selectToken tok d = Some r"
  shows "selectAuthById (t_authId r) d \<noteq> None"
  using assms db_okD(9)[of d] by (auto simp: select_None_iff dest: selectToken_Some)

lemma selectToken_other_rotate:
  assumes "rotateToken old new ex us d = Inr d'" "t \<noteq> old" "t \<noteq> new"
  shows "selectToken t d' = selectToken t d"
proof -
  let ?f = "\<lambda>r. if t_token r = old then r\<lparr>t_token := new, t_expiresAt := ex, t_lastUsedAt := us\<rparr> else r"
  have "find (\<lambda>r. t_token r = t) (map ?f rs) = find (\<lambda>r. t_token r = t) rs" for rs
    using assms(2,3) by (induction rs) auto
  moreover have "tokens d' = map ?f (tokens d)"
    using assms(1) by (auto simp: rotateToken_def split: if_splits)
  ultimately show ?thesis by (simp add: selectToken_def)
qed

lemma run_refreshTokens_rotates:
  assumes "serving c w" "db_ok (w_db w)" "selectToken tok (w_db w) = Some r"
    and "t_revokedAt r = None" "w_now w \<le> t_expiresAt r" "300000 \<le> w_now w - t_lastUsedAt r"
    and "selectToken (nextRefreshToken w) (w_db w) = None"
  shows "\<exists>d. rotateToken tok (nextRefreshToken w) (w_now w + thirtyDays) (w_now w) (w_db w) = Inr d
     \<and> run (refreshTokens c \<lparr>rr_refreshToken = tok\<rparr>) w =
        (Done (res_ok (tokenFields (accessTokenAt c (t_authId r) (w_now w), nextRefreshToken w)) noOptions),
         w\<lparr>w_randPos := w_randPos w + 16, w_db := d\<rparr>)"
proof -
  from assms(7) have "nextRefreshToken w \<notin> t_token ` set (tokens (w_db w))" by (simp add: select_None_iff)
  then obtain d where "rotateToken tok (nextRefreshToken w) (w_now w + thirtyDays) (w_now w) (w_db w) = Inr d"
    by (simp add: rotateToken_def)
  with assms token_has_account[OF assms(2,3)] show ?thesis
    by (intro exI[of _ d]) (auto simp: run_refreshTokens)
qed

section \<open>Properties of refresh and logout\<close>

text \<open>
  C11. Rotation: refreshing a session that is neither revoked nor expired nor used in the last
  five minutes answers with a new access token for the session's account and a new refresh
  token; afterwards the new token names the same session, unrevoked, extended to thirty days
  from now and marked as used now, the old token names nothing, every other token names
  what it named before, and the constraints of the schema hold. (The new token must not be
  in use already.)
\<close>

theorem refreshTokens_rotates:
  assumes "serving c w" "db_ok (w_db w)" "selectToken tok (w_db w) = Some r"
    and "t_revokedAt r = None" "w_now w \<le> t_expiresAt r" "300000 \<le> w_now w - t_lastUsedAt r"
    and "selectToken (nextRefreshToken w) (w_db w) = None"
  shows "\<exists>d. run (refreshTokens c \<lparr>rr_refreshToken = tok\<rparr>) w =
        (Done (res_ok (tokenFields (accessTokenAt c (t_authId r) (w_now w), nextRefreshToken w)) noOptions),
         w\<lparr>w_randPos := w_randPos w + 16, w_db := d\<rparr>)
     \<and> selectToken (nextRefreshToken w) d = Some (r\<lparr>t_token := nextRefreshToken w,
          t_expiresAt := w_now w + thirtyDays, t_lastUsedAt := w_now w\<rparr>)
     \<and> selectToken tok d = None
     \<and> (\<forall>t. t \<noteq> tok \<longrightarrow> t \<noteq> nextRefreshToken w \<longrightarrow> selectToken t d = selectToken t (w_db w))
     \<and> db_ok d"
proof -
  obtain d where d: "rotateToken tok (nextRefreshToken w) (w_now w + thirtyDays) (w_now w) (w_db w) = Inr d"
    and "run (refreshTokens c \<lparr>rr_refreshToken = tok\<rparr>) w =
        (Done (res_ok (tokenFields (accessTokenAt c (t_authId r) (w_now w), nextRefreshToken w)) noOptions),
         w\<lparr>w_randPos := w_randPos w + 16, w_db := d\<rparr>)"
    using run_refreshTokens_rotates[OF assms] by blast
  moreover have "nextRefreshToken w \<noteq> tok" using assms(3,7) by auto
  ultimately show ?thesis
    using selectToken_rotateToken[OF assms(2) d assms(3)] selectToken_other_rotate[OF d]
      db_ok_rotateToken[OF assms(2) d] assms(4)
    by (intro exI[of _ d]) auto
qed

lemma length_nextRefreshToken [simp]: "length (nextRefreshToken w) = 24"
  using isRefreshTokenText_encode by (simp add: nextRefreshToken_def isRefreshTokenText_def)

lemma sample_access [simp]: "accessTokenAt sample_ctx u t = u"
  by (simp add: accessTokenAt_def sample_ctx_def sample_ext_def)

lemma sample_token_differs [simp]: "nextRefreshToken w \<noteq> lit ''tok''"
proof -
  have "length (nextRefreshToken w) \<noteq> length (lit ''tok'')" by simp
  then show ?thesis by metis
qed

lemma sample_new_token [simp]: "selectToken (nextRefreshToken w) sample_db = None"
  by (auto simp: select_None_iff)

theorem refreshTokens_rotates_witness:
  "\<exists>d. run (refreshTokens sample_ctx \<lparr>rr_refreshToken = lit ''tok''\<rparr>) (sample_world sample_db) =
      (Done (res_ok (tokenFields (lit ''u1'', nextRefreshToken (sample_world sample_db))) noOptions),
       (sample_world sample_db)\<lparr>w_randPos := w_randPos (sample_world sample_db) + 16, w_db := d\<rparr>)
    \<and> selectToken (lit ''tok'') d = None \<and> db_ok d"
  using refreshTokens_rotates[of sample_ctx "sample_world sample_db" "lit ''tok''" sample_token]
  by (auto simp: sample_token_def)

text \<open>
  Every other refresh is refused and changes nothing: an unknown, revoked or expired token
  with \<open>INVALID_REFRESH_TOKEN\<close>, a token used in the last five minutes with \<open>RATE_LIMITED\<close>.
\<close>

lemma refreshTokens_refuses:
  assumes "serving c w" "db_ok (w_db w)"
    and "\<not> (\<exists>r. selectToken tok (w_db w) = Some r \<and> t_revokedAt r = None \<and> w_now w \<le> t_expiresAt r
               \<and> 300000 \<le> w_now w - t_lastUsedAt r)"
  shows "run (refreshTokens c \<lparr>rr_refreshToken = tok\<rparr>) w =
     (Done (if \<exists>r. selectToken tok (w_db w) = Some r \<and> t_revokedAt r = None \<and> w_now w \<le> t_expiresAt r
            then res_rateLimited None else res_invalidRefreshToken None), w)"
proof (cases "selectToken tok (w_db w)")
  case None
  then show ?thesis by (simp add: run_refreshTokens[OF assms(1)])
next
  case (Some r)
  with token_has_account[OF assms(2) Some] assms(3) show ?thesis
    by (auto simp: run_refreshTokens[OF assms(1)])
qed

lemma refreshTokens_refuses_witness:
  "run (refreshTokens sample_ctx \<lparr>rr_refreshToken = lit ''none''\<rparr>) (sample_world sample_db)
     = (Done (res_invalidRefreshToken None), sample_world sample_db)"
proof -
  have none: "selectToken (lit ''none'') sample_db = None"
    by (simp add: selectToken_def sample_db_def sample_token_def)
  show ?thesis
    using refreshTokens_refuses[of sample_ctx "sample_world sample_db" "lit ''none''"] by (simp add: none)
qed

text \<open>
  A session cannot be refreshed in the first five minutes after it is issued: sign-in
  stores the new token with the time of issue as its last use, so the cooldown of the first
  refresh counts from the sign-in.
\<close>

lemma issued_token_cools_down:
  assumes "serving c w" "db_ok (w_db w)" "run (issueTokens c i di) w = (Done (acc, ref), w')"
    and "w_now w \<le> t" "t < w_now w + 300000"
  shows "run (refreshTokens c \<lparr>rr_refreshToken = ref\<rparr>) (w'\<lparr>w_now := t\<rparr>)
    = (Done (res_rateLimited None), w'\<lparr>w_now := t\<rparr>)"
proof -
  let ?row = "\<lparr>t_id = w_ids w (w_idPos w), t_authId = i, t_token = nextRefreshToken w,
        t_deviceInfo = di, t_expiresAt = w_now w + thirtyDays, t_revokedAt = None,
        t_lastUsedAt = w_now w, t_createdAt = w_now w\<rparr>"
  from assms(3) run_issueTokens[OF assms(1)] obtain d where
    ins: "insertToken ?row (w_db w) = Inr d" and ref: "ref = nextRefreshToken w"
    and w': "w' = w\<lparr>w_randPos := w_randPos w + 16, w_idPos := Suc (w_idPos w), w_db := d\<rparr>"
    by (auto simp: Let_def split: sum.splits)
  have ok: "db_ok d" using db_ok_insertToken[OF assms(2) ins] .
  have "?row \<in> set (tokens d)" using ins by (auto simp: insertToken_def split: if_splits)
  from selectToken_in[OF ok this] have sel: "selectToken ref d = Some ?row" by (simp add: ref)
  have "serving c (w'\<lparr>w_now := t\<rparr>)" using assms(1) by (simp add: w')
  from run_refreshTokens[OF this, of ref] show ?thesis
    using sel token_has_account[OF ok sel] assms(4,5) by (auto simp: w' thirtyDays_def)
qed

text \<open>
  Logout: an active session is revoked and the answer is a success; at any later time its
  token is refused by both refresh and logout; every other token names what it named
  before. A token that names no active session is refused and nothing changes.
\<close>

lemma logout_revokes:
  assumes "serving c w" "run (logout c \<lparr>rr_refreshToken = tok\<rparr>) w = (Done resp, w')"
  shows "if \<exists>r. selectToken tok (w_db w) = Some r \<and> t_revokedAt r = None
    then r_status resp = 200
      \<and> (\<forall>t. run (refreshTokens c \<lparr>rr_refreshToken = tok\<rparr>) (w'\<lparr>w_now := t\<rparr>)
               = (Done (res_invalidRefreshToken None), w'\<lparr>w_now := t\<rparr>)
             \<and> fst (run (logout c \<lparr>rr_refreshToken = tok\<rparr>) (w'\<lparr>w_now := t\<rparr>))
               = Done (res_unauthorized (Some (lit ''Invalid refresh token''))))
      \<and> (\<forall>u. u \<noteq> tok \<longrightarrow> selectToken u (w_db w') = selectToken u (w_db w))
    else resp = res_unauthorized (Some (lit ''Invalid refresh token'')) \<and> w' = w"
proof (cases "\<exists>r. selectToken tok (w_db w) = Some r \<and> t_revokedAt r = None")
  case True
  then obtain r where r: "selectToken tok (w_db w) = Some r" by blast
  from assms True have resp: "r_status resp = 200"
    and w': "w' = w\<lparr>w_db := revokeToken tok (w_now w) (w_db w)\<rparr>"
    by (auto simp: run_logout)
  have sv: "serving c (w'\<lparr>w_now := t\<rparr>)" for t using assms(1) by (simp add: w')
  have sel: "selectToken tok (w_db w') = Some (r\<lparr>t_revokedAt := Some (w_now w)\<rparr>)"
    by (simp add: w' selectToken_revokeToken r)
  have "selectToken u (w_db w') = selectToken u (w_db w)" if "u \<noteq> tok" for u
    using that by (simp add: w' selectToken_revokeToken)
  with True resp show ?thesis
    by (simp add: run_refreshTokens[OF sv] run_logout[OF sv] sel)
next
  case False
  with assms show ?thesis by (auto simp: run_logout)
qed

lemma logout_revokes_witness:
  "\<exists>w'. run (logout sample_ctx \<lparr>rr_refreshToken = lit ''tok''\<rparr>) (sample_world sample_db)
       = (Done (res_ok [(lit ''message'', JStr (lit ''Logged out''))] noOptions), w')
     \<and> run (refreshTokens sample_ctx \<lparr>rr_refreshToken = lit ''tok''\<rparr>) (w'\<lparr>w_now := 1500000\<rparr>)
       = (Done (res_invalidRefreshToken None), w'\<lparr>w_now := 1500000\<rparr>)"
proof -
  let ?w = "sample_world sample_db"
  have act: "t_revokedAt sample_token = None" by (simp add: sample_token_def)
  then have r: "run (logout sample_ctx \<lparr>rr_refreshToken = lit ''tok''\<rparr>) ?w
    = (Done (res_ok [(lit ''message'', JStr (lit ''Logged out''))] noOptions),
       ?w\<lparr>w_db := revokeToken (lit ''tok'') 1000000 sample_db\<rparr>)"
    by (simp add: run_logout)
  show ?thesis using logout_revokes[OF _ r] act r by auto
qed

text \<open>
  C22. Revocation is final under concurrency: whatever requests are being served together, in
  whatever interleaving and with whatever failing statements, a session row that is revoked
  stays revoked under its identifier, even if a refresh that started earlier still rotates
  its token; accounts keep their identity and profiles are never changed.
\<close>

theorem revocation_is_final:
  assumes "sys_step\<^sup>*\<^sup>* (w, map (\<lambda>(c, r). authHandler c r) reqs) (w', ps)" "db_ok (w_db w)"
    and "r \<in> set (tokens (w_db w))" "t_revokedAt r \<noteq> None"
    and "r' \<in> set (tokens (w_db w'))" "t_id r' = t_id r"
  shows "t_revokedAt r' \<noteq> None \<and> t_authId r' = t_authId r"
proof -
  from records.served_together[OF assms(1,2)] have ok: "db_ok (w_db w')"
    and "records_kept (w_db w) (w_db w')" by auto
  then obtain q where q: "q \<in> set (tokens (w_db w'))" "session_kept r q"
    using assms(3) by (auto simp: records_kept_def)
  then have "q = r'"
    using distinct_map_unique[OF db_okD(7)[OF ok] q(1) assms(5)] assms(6) by (simp add: session_kept_def)
  with q assms(4) show ?thesis by (simp add: session_kept_def)
qed

definition sample_revoked_db :: db where
  "sample_revoked_db = revokeToken (lit ''tok'') 5 sample_db"

theorem revocation_is_final_witness:
  "\<exists>w' ps r'. sys_step\<^sup>*\<^sup>* (sample_world sample_revoked_db,
       map (\<lambda>(c, r). authHandler c r) [(sample_ctx, TokenRefresh \<lparr>rr_refreshToken = lit ''tok''\<rparr>)]) (w', ps)
     \<and> r' \<in> set (tokens (w_db w')) \<and> t_id r' = lit ''t1'' \<and> t_revokedAt r' \<noteq> None"
proof -
  let ?h = "authHandler sample_ctx (TokenRefresh \<lparr>rr_refreshToken = lit ''tok''\<rparr>)" and ?w = "sample_world sample_revoked_db"
  let ?r = "sample_token\<lparr>t_revokedAt := Some 5\<rparr>"
  have toks: "tokens sample_revoked_db = [?r]"
    by (simp add: sample_revoked_db_def revokeToken_def)
  then have "run ?h ?w = (Done (res_invalidRefreshToken None), ?w)"
    by (simp add: run_refreshTokens[OF sample_serving] selectToken_def)
  from run_alone_done[OF this] have st: "sys_step\<^sup>*\<^sup>* (?w, map (\<lambda>(c, r). authHandler c r)
      [(sample_ctx, TokenRefresh \<lparr>rr_refreshToken = lit ''tok''\<rparr>)]) (?w, [Ret (res_invalidRefreshToken None)])"
    by simp
  moreover have "t_revokedAt ?r \<noteq> None"
    using revocation_is_final[OF st, of ?r ?r] toks by (simp add: sample_revoked_db_def)
  ultimately show ?thesis using toks by (intro exI conjI) auto
qed

section \<open>Concurrent refreshes\<close>

text \<open>The turns of a refresh: connect, read the session, read the account, rotate, sign.\<close>

definition refreshSign :: "ctx \<Rightarrow> jstring \<Rightarrow> timestamp \<Rightarrow> jstring \<Rightarrow> (world, exn, response) prog" where
  "refreshSign c authId t new = bindP
     (awaitW (\<lambda>w. (Inr (accessTokenAt c authId t), w)))
     (\<lambda>acc. Ret (res_ok (tokenFields (acc, new)) noOptions))"

definition refreshRotate :: "ctx \<Rightarrow> jstring \<Rightarrow> jstring \<Rightarrow> timestamp \<Rightarrow> jstring \<Rightarrow> (world, exn, response) prog" where
  "refreshRotate c tok authId t new = bindP
     (sqlCheck (\<lambda>_. rotateToken tok new (t + thirtyDays) t)) (\<lambda>_.
      bindP (generateAccessToken c authId) (\<lambda>acc. Ret (res_ok (tokenFields (acc, new)) noOptions)))"

definition refreshAccount :: "ctx \<Rightarrow> jstring \<Rightarrow> token_row \<Rightarrow> (world, exn, response) prog" where
  "refreshAccount c tok r =
     bindP (sqlQuery (selectAuthById (t_authId r))) (\<lambda>authRecord.
     if authRecord = None then Ret (res_unauthorized (Some (lit ''User not found'')))
     else
     bindP (recentlyRefreshed (Some (t_lastUsedAt r))) (\<lambda>recent.
     if recent then Ret (res_rateLimited None)
     else
     bindP generateRefreshToken (\<lambda>newRefreshToken.
     bindP (daysFromNow REFRESH_TOKEN_EXPIRY_DAYS) (\<lambda>expiresAt.
     bindP now (\<lambda>usedAt.
     bindP (sqlCheck (\<lambda>_. rotateToken tok newRefreshToken expiresAt usedAt)) (\<lambda>_.
     bindP (generateAccessToken c (t_authId r)) (\<lambda>accessToken.
     Ret (res_ok (tokenFields (accessToken, newRefreshToken)) noOptions))))))))"

lemma settle_daysFromNow:
  "settle (bindP (daysFromNow n) k) w = settle (k (w_now w + n * 24 * 60 * 60 * 1000)) w"
  by (simp add: daysFromNow_def getW_def)

lemma settle_generateRefreshToken:
  "settle (bindP generateRefreshToken k) w
     = settle (k (nextRefreshToken w)) (w\<lparr>w_randPos := w_randPos w + 16\<rparr>)"
  by (simp add: generateRefreshToken_def getRandomValues_def syncW_def nextRefreshToken_def)

lemma settle_recentlyRefreshed:
  "settle (bindP (recentlyRefreshed (Some u)) k) w = settle (k (w_now w - u < 300000)) w"
  by (simp add: recentlyRefreshed_def now_def getW_def auth_config)

lemma settle_generateAccessToken:
  "settle (bindP (generateAccessToken c u) (\<lambda>acc. Ret (res_ok (tokenFields (acc, new)) noOptions))) w
     = (refreshSign c u (w_now w) new, w)"
  by (simp add: generateAccessToken_def Let_def now_def getW_def awaitW_def refreshSign_def
      accessTokenAt_def auth_config)

lemma refresh_connect:
  "serving c w \<Longrightarrow> turn (refreshTokens c req) w = Some (fst (settle (refreshTokens c req) w), w)"
  by (simp add: serving_def refreshTokens_def turn_getDb settle_getDb settle_sql sqlQuery_def)

lemma refresh_read:
  assumes "serving c w" "selectToken tok (w_db w) = Some r" "t_revokedAt r = None" "w_now w \<le> t_expiresAt r"
  shows "turn (fst (settle (refreshTokens c \<lparr>rr_refreshToken = tok\<rparr>) w)) w = Some (refreshAccount c tok r, w)"
  using assms
  by (simp add: serving_def refreshTokens_def refreshAccount_def settle_getDb turn_rules sqlQuery_def
      cong: if_cong)

lemma refresh_account:
  assumes "serving c w" "selectAuthById (t_authId r) (w_db w) \<noteq> None" "300000 \<le> w_now w - t_lastUsedAt r"
  shows "turn (refreshAccount c tok r) w
    = Some (refreshRotate c tok (t_authId r) (w_now w) (nextRefreshToken w), w\<lparr>w_randPos := w_randPos w + 16\<rparr>)"
  using assms
  by (auto simp: serving_def refreshAccount_def refreshRotate_def turn_rules sqlQuery_def sqlCheck_def
      settle_daysFromNow settle_generateRefreshToken settle_recentlyRefreshed thirtyDays_def auth_config)

lemma refresh_rotate:
  assumes "serving c w" "rotateToken tok new (t + thirtyDays) t (w_db w) = Inr d"
  shows "turn (refreshRotate c tok i t new) w = Some (refreshSign c i (w_now w) new, w\<lparr>w_db := d\<rparr>)"
  using assms by (simp add: serving_def refreshRotate_def turn_sql sqlCheck_def settle_generateAccessToken)

lemma refresh_sign:
  "turn (refreshSign c i t new) w = Some (Ret (res_ok (tokenFields (accessTokenAt c i t, new)) noOptions), w)"
  by (simp add: refreshSign_def awaitW_def)

text \<open>
  C34. Two refreshes of one token that run together can both be answered with success while
  only one of the two new refresh tokens exists: the second rotation finds no row to update,
  and its client is left with a token that no later refresh accepts.
\<close>

theorem concurrent_refreshes_lose_token:
  assumes "serving c w" "db_ok (w_db w)" "selectToken tok (w_db w) = Some r" "t_revokedAt r = None"
    and "w_now w \<le> t_expiresAt r" "300000 \<le> w_now w - t_lastUsedAt r"
    and "new1 = nextRefreshToken w" "new2 = nextRefreshToken (w\<lparr>w_randPos := w_randPos w + 16\<rparr>)"
    and "selectToken new1 (w_db w) = None" "selectToken new2 (w_db w) = None" "new1 \<noteq> new2"
  shows "\<exists>w'. sys_step\<^sup>*\<^sup>* (w, [refreshTokens c \<lparr>rr_refreshToken = tok\<rparr>, refreshTokens c \<lparr>rr_refreshToken = tok\<rparr>])
      (w', map (\<lambda>new. Ret (res_ok (tokenFields (accessTokenAt c (t_authId r) (w_now w), new)) noOptions)) [new1, new2])
    \<and> selectToken new1 (w_db w') \<noteq> None \<and> selectToken new2 (w_db w') = None"
proof -
  let ?p = "refreshTokens c \<lparr>rr_refreshToken = tok\<rparr>" and ?i = "t_authId r" and ?t = "w_now w"
  let ?w1 = "w\<lparr>w_randPos := w_randPos w + 16\<rparr>"
  let ?w2 = "w\<lparr>w_randPos := w_randPos w + 16 + 16\<rparr>"
  have acc: "selectAuthById ?i (w_db w) \<noteq> None" by (rule token_has_account[OF assms(2,3)])
  obtain d where d: "rotateToken tok new1 (?t + thirtyDays) ?t (w_db w) = Inr d"
    using assms(9) by (auto simp: rotateToken_def select_None_iff)
  have new: "new1 \<noteq> tok" "new2 \<noteq> tok" using assms(3,9,10) by auto
  note sel = selectToken_rotateToken[OF assms(2) d assms(3)] selectToken_other_rotate[OF d]
  have gone: "tok \<notin> t_token ` set (tokens d)" using sel(2) new by (simp add: select_None_iff)
  then have "map (\<lambda>r. if t_token r = tok then r\<lparr>t_token := new2, t_expiresAt := ?t + thirtyDays,
      t_lastUsedAt := ?t\<rparr> else r) (tokens d) = tokens d"
    by (intro map_idI) auto
  with gone have d2: "rotateToken tok new2 (?t + thirtyDays) ?t d = Inr d"
    by (auto simp: rotateToken_def)
  let ?w3 = "?w2\<lparr>w_db := d\<rparr>"
  have "schedule [0, 1, 0, 1, 0, 1, 0, 1, 0, 1] (w, [?p, ?p]) = (?w3,
      map (\<lambda>new. Ret (res_ok (tokenFields (accessTokenAt c ?i ?t, new)) noOptions)) [new1, new2])"
    using assms(1,7,8) acc assms(6) d d2
    by (simp add: refresh_connect[OF assms(1)] refresh_read[OF assms(1,3-5)] refresh_account
        refresh_rotate[where c = c] refresh_sign)
  moreover have "selectToken new1 d \<noteq> None" "selectToken new2 d = None"
    using sel new assms(10,11) by auto
  ultimately show ?thesis
    using schedule_reachable[of "(w, [?p, ?p])" "[0, 1, 0, 1, 0, 1, 0, 1, 0, 1]"]
    by (intro exI[of _ ?w3]) simp
qed

lemma sample_two_tokens:
  "nextRefreshToken (sample_world d)
     \<noteq> nextRefreshToken ((sample_world d)\<lparr>w_randPos := w_randPos (sample_world d) + 16\<rparr>)"
proof -
  have "[0..<16] = [0, 1, 2, 3, 4, 5, 6, 7, 8, 9, 10, 11, 12, 13, 14, 15 :: nat]"
    by (simp add: upt_rec)
  then have "bytesToNat (map (\<lambda>i. of_nat (i mod 10)) [0..<16]) = 5233100606242806050944357496980485"
    "bytesToNat (map (\<lambda>i. of_nat ((16 + i) mod 10)) [0..<16]) = 8011877025050749298747442723790848001"
    by (simp_all add: bytesToNat_def)
  then show ?thesis
    by (simp add: nextRefreshToken_def encodeRefreshToken_eq_iff sample_world_def)
qed

theorem concurrent_refreshes_lose_token_witness:
  "\<exists>w' new1 new2. sys_step\<^sup>*\<^sup>* (sample_world sample_db,
      [refreshTokens sample_ctx \<lparr>rr_refreshToken = lit ''tok''\<rparr>, refreshTokens sample_ctx \<lparr>rr_refreshToken = lit ''tok''\<rparr>])
      (w', map (\<lambda>new. Ret (res_ok (tokenFields (lit ''u1'', new)) noOptions)) [new1, new2])
    \<and> selectToken new1 (w_db w') \<noteq> None \<and> selectToken new2 (w_db w') = None"
  using concurrent_refreshes_lose_token[of sample_ctx "sample_world sample_db" "lit ''tok''" sample_token,
      OF _ _ _ _ _ _ refl refl] sample_two_tokens[of sample_db]
  by (auto simp: sample_token_def)

end
