(* ===== verification/AuthAccounts.thy ===== *)
theory AuthAccounts
  imports AuthSessions
begin

text \<open>
  Accounts: signup and sign-in with a phone, sign-in and signup with an OAuth provider, and
  what a signup leaves behind when the network fails half way.
\<close>

section \<open>Running the phone handlers\<close>

text \<open>The row a session is issued with, and the world it is issued in.\<close>

definition newSession :: "jstring \<Rightarrow> device_info option \<Rightarrow> world \<Rightarrow> token_row" where
  "newSession i di w = \<lparr>t_id = w_ids w (w_idPos w), t_authId = i, t_token = nextRefreshToken w,
     t_deviceInfo = di, t_expiresAt = w_now w + thirtyDays, t_revokedAt = None,
     t_lastUsedAt = w_now w, t_createdAt = w_now w\<rparr>"

definition sessionFresh :: "jstring \<Rightarrow> world \<Rightarrow> bool" where
  "sessionFresh i w \<longleftrightarrow> w_ids w (w_idPos w) \<notin> t_id ` set (tokens (w_db w))
     \<and> nextRefreshToken w \<notin> t_token ` set (tokens (w_db w)) \<and> i \<in> a_id ` set (auth (w_db w))"

lemma run_issueTokens_fresh:
  assumes "serving c w" "sessionFresh i w"
  shows "run (issueTokens c i di) w = (Done (accessTokenAt c i (w_now w), nextRefreshToken w),
     w\<lparr>w_randPos := w_randPos w + 16, w_idPos := Suc (w_idPos w),
       w_db := (w_db w)\<lparr>tokens := tokens (w_db w) @ [newSession i di w]\<rparr>\<rparr>)"
proof -
  have "insertToken (newSession i di w) (w_db w)
      = Inr ((w_db w)\<lparr>tokens := tokens (w_db w) @ [newSession i di w]\<rparr>)"
    using assms(2) by (simp add: insertToken_def sessionFresh_def newSession_def)
  then show ?thesis
    by (simp add: run_issueTokens[OF assms(1)] newSession_def[symmetric] Let_def)
qed

text \<open>The verdict of the verification a phone handler starts with, and the database after it.\<close>

definition verdict :: "jstring \<Rightarrow> jstring \<Rightarrow> world \<Rightarrow> otp_result" where
  "verdict ph code w = fst (otpSpec (w_now w) code (selectOtp ph (w_db w)))"

lemma run_verify_then:
  assumes "serving c w"
  obtains d where "run (verifyOTPCode c ph code) w = (Done (verdict ph code w), w\<lparr>w_db := d\<rparr>)"
    and "otp_change ph (snd (otpSpec (w_now w) code (selectOtp ph (w_db w)))) (w_db w) d"
  using run_verifyOTPCode[OF assms, of ph code] unfolding verdict_def by blast

lemma otp_change_selects:
  assumes "otp_change ph row d d'"
  shows "selectAuth p i d' = selectAuth p i d" "selectUser i d' = selectUser i d"
    "selectToken t d' = selectToken t d" "selectOtp ph d' = row"
  using assms by (simp_all add: otp_change_def selectAuth_def selectUser_def selectToken_def)

lemma run_verified:
  assumes "serving c w" "verdict ph code w = OtpSuccess"
  shows "\<exists>d. run (verifyOTPCode c ph code) w = (Done OtpSuccess, w\<lparr>w_db := d\<rparr>)
     \<and> otp_change ph None (w_db w) d"
proof -
  have "snd (otpSpec t code row) = None" if "fst (otpSpec t code row) = OtpSuccess" for t row
    using that by (cases row) (auto simp: tooManyAttempts_def split: if_splits)
  with run_verify_then[OF assms(1), of ph code] assms(2) show ?thesis
    unfolding verdict_def by metis
qed

text \<open>
  C10. Without a valid code nobody gets in: when the verification fails, phone signup and phone
  sign-in answer with the error of that failure and change no account, profile or session.
\<close>

theorem no_entry_without_code:
  assumes "serving c w" "verdict ph code w = OtpFailure e m"
    and "ps_phone su = ph" "ps_code su = code" "pi_phone si = ph" "pi_code si = code"
  shows "\<exists>d. run (phoneSignup c su) w = (Done (handleOtpError e m), w\<lparr>w_db := d\<rparr>)
           \<and> run (phoneSignIn c si) w = (Done (handleOtpError e m), w\<lparr>w_db := d\<rparr>)
           \<and> auth d = auth (w_db w) \<and> users d = users (w_db w) \<and> tokens d = tokens (w_db w)
           \<and> r_status (handleOtpError e m) = 401"
proof -
  from run_verify_then[OF assms(1)] obtain d where
    v: "run (verifyOTPCode c ph code) w = (Done (OtpFailure e m), w\<lparr>w_db := d\<rparr>)"
    and ch: "otp_change ph (snd (otpSpec (w_now w) code (selectOtp ph (w_db w)))) (w_db w) d"
    using assms(2) by metis
  have "r_status (handleOtpError e m) = 401"
    by (simp add: handleOtpError_def res_defs split: otp_error_code.splits)
  with v ch show ?thesis
    by (intro exI[of _ d]) (simp add: phoneSignup_def phoneSignIn_def assms(3-6) otp_change_def)
qed

theorem no_entry_without_code_witness:
  "\<exists>d. run (phoneSignIn sample_ctx \<lparr>pi_phone = sample_phone, pi_code = lit ''000000'', pi_deviceInfo = None\<rparr>)
        (sample_world sample_db) = (Done (res_invalidOtp None), (sample_world sample_db)\<lparr>w_db := d\<rparr>)
     \<and> tokens d = [sample_token]"
  using no_entry_without_code[of sample_ctx "sample_world sample_db" sample_phone "lit ''000000''" OTP_INVALID
      "lit ''Invalid OTP! Please check and try again.''"
      "\<lparr>ps_phone = sample_phone, ps_code = lit ''000000'', ps_name = lit ''Bo'', ps_gender = Male,
        ps_birthYear = 1990, ps_deviceInfo = None\<rparr>"
      "\<lparr>pi_phone = sample_phone, pi_code = lit ''000000'', pi_deviceInfo = None\<rparr>"]
  by (auto simp: verdict_def sample_otp_def handleOtpError_def)

lemma nextRefreshToken_update [simp]:
  "nextRefreshToken (w\<lparr>w_db := d\<rparr>) = nextRefreshToken w"
  "nextRefreshToken (w\<lparr>w_idPos := i\<rparr>) = nextRefreshToken w"
  "nextRefreshToken (w\<lparr>w_tasks := ts\<rparr>) = nextRefreshToken w"
  by (simp_all add: nextRefreshToken_def)

definition nextId :: "world \<Rightarrow> jstring" where
  "nextId w = w_ids w (w_idPos w)"

text \<open>The identifiers and the refresh token that a signup is about to draw are not in use.\<close>

definition freshNames :: "world \<Rightarrow> bool" where
  "freshNames w \<longleftrightarrow> w_ids w (w_idPos w) \<notin> a_id ` set (auth (w_db w))
     \<and> w_ids w (Suc (w_idPos w)) \<notin> t_id ` set (tokens (w_db w))
     \<and> nextRefreshToken w \<notin> t_token ` set (tokens (w_db w))"

text \<open>The three rows a signup with identifier \<open>i\<close> adds.\<close>

definition withAccount :: "auth_row \<Rightarrow> user_row \<Rightarrow> token_row \<Rightarrow> db \<Rightarrow> db" where
  "withAccount a u t d = d\<lparr>auth := auth d @ [a], users := users d @ [u], tokens := tokens d @ [t]\<rparr>"

text \<open>
  The part that phone signup and OAuth signup have in common: the rows of a new account, the
  clean-up if the profile cannot be stored, and the session.
\<close>

definition createAccount :: "ctx \<Rightarrow> auth_row \<Rightarrow> (timestamp \<Rightarrow> user_row) \<Rightarrow> device_info option
    \<Rightarrow> (jstring \<times> jstring \<Rightarrow> (world, exn, response) prog) \<Rightarrow> (world, exn, response) prog" where
  "createAccount c a u di k =
     bindP createId (\<lambda>id. bindP (sqlCheck (\<lambda>_. insertAuth (a\<lparr>a_id := id\<rparr>))) (\<lambda>_.
      bindP (tryP (sqlCheck (\<lambda>t. insertUser ((u t)\<lparr>u_id := id\<rparr>)))) (\<lambda>r.
      case r of Inl e \<Rightarrow> bindP (waitUntil (DeleteAuthTask id)) (\<lambda>_. Throw e)
       | Inr _ \<Rightarrow> bindP (issueTokens c id di) k)))"

lemma run_createAccount:
  assumes "serving c w" "db_ok (w_db w)" "freshNames w" "a_id a = w_ids w (w_idPos w)"
    and "auth_key a \<notin> auth_key ` set (auth (w_db w))"
    and "a_email a = None \<or> a_email a \<notin> a_email ` set (auth (w_db w))"
    and "\<And>t. u_id (u t) = a_id a"
  defines "w1 \<equiv> w\<lparr>w_idPos := Suc (w_idPos w)\<rparr>"
  shows "run (createAccount c a u di k) w
    = run (k (accessTokenAt c (a_id a) (w_now w), nextRefreshToken w))
        (w1\<lparr>w_idPos := Suc (Suc (w_idPos w)), w_randPos := w_randPos w + 16,
           w_db := withAccount a (u (w_now w)) (newSession (a_id a) di w1) (w_db w)\<rparr>)"
proof -
  let ?d1 = "(w_db w)\<lparr>auth := auth (w_db w) @ [a]\<rparr>"
  let ?u = "u (w_now w)"
  let ?d2 = "?d1\<lparr>users := users (w_db w) @ [?u]\<rparr>"
  have a: "a\<lparr>a_id := w_ids w (w_idPos w)\<rparr> = a" using assms(4) by simp
  have u: "?u\<lparr>u_id := w_ids w (w_idPos w)\<rparr> = ?u" using assms(4) assms(7)[of "w_now w"] by simp
  have ins: "insertAuth a (w_db w) = Inr ?d1"
    using assms(3-6) by (auto simp: insertAuth_def freshNames_def auth_key_def)
  have "a_id a \<notin> u_id ` set (users (w_db w))"
    using db_okD(6)[OF assms(2)] assms(3,4) by (auto simp: freshNames_def)
  then have insu: "insertUser ?u ?d1 = Inr ?d2"
    by (simp add: insertUser_def assms(7))
  have sv: "serving c w1" "serving c (w1\<lparr>w_db := ?d1\<rparr>)" "serving c (w1\<lparr>w_db := ?d2\<rparr>)"
    using assms(1) by (simp_all add: w1_def)
  have "sessionFresh (a_id a) (w1\<lparr>w_db := ?d2\<rparr>)"
    using assms(3) by (auto simp: sessionFresh_def freshNames_def w1_def)
  from run_issueTokens_fresh[OF sv(3) this]
  have iss: "run (issueTokens c (w_ids w (w_idPos w)) di) (w1\<lparr>w_db := ?d2\<rparr>) =
      (Done (accessTokenAt c (a_id a) (w_now w), nextRefreshToken w),
       w1\<lparr>w_idPos := Suc (Suc (w_idPos w)), w_randPos := w_randPos w + 16,
         w_db := withAccount a ?u (newSession (a_id a) di w1) (w_db w)\<rparr>)"
    using assms(4) by (simp add: w1_def withAccount_def newSession_def)
  have c: "run createId w = (Done (w_ids w (w_idPos w)), w1)"
    and p: "w_db w1 = w_db w" "w_now w1 = w_now w"
    by (simp_all add: w1_def)
  show ?thesis
    by (simp add: createAccount_def c p run_serving(4)[OF sv(1)] run_serving(4)[OF sv(2)] a u ins insu iss del: run_createId)
qed

definition phoneAuthRow :: "jstring \<Rightarrow> jstring \<Rightarrow> auth_row" where
  "phoneAuthRow i ph = \<lparr>a_id = i, a_provider = Phone, a_identifier = ph, a_email = None\<rparr>"

definition phoneUserRow :: "jstring \<Rightarrow> phone_signup_request \<Rightarrow> timestamp \<Rightarrow> user_row" where
  "phoneUserRow i req t = \<lparr>u_id = i, u_name = ps_name req, u_gender = ps_gender req,
     u_birthYear = ps_birthYear req, u_createdAt = t, u_updatedAt = t\<rparr>"

lemma phoneAuthRow_simps [simp]:
  "a_id (phoneAuthRow i ph) = i" "a_provider (phoneAuthRow i ph) = Phone"
  "a_identifier (phoneAuthRow i ph) = ph" "a_email (phoneAuthRow i ph) = None"
  and phoneUserRow_simps [simp]: "u_id (phoneUserRow i req t) = i"
  by (simp_all add: phoneAuthRow_def phoneUserRow_def)

lemma phoneSignup_eq:
  "phoneSignup c req =
     bindP (verifyOTPCode c (ps_phone req) (ps_code req)) (\<lambda>otpResult.
     case otpResult of
       OtpFailure errorCode error \<Rightarrow> Ret (handleOtpError errorCode error)
     | OtpSuccess \<Rightarrow>
     bindP (getDb c) (\<lambda>_.
     bindP (sqlQuery (selectAuth Phone (ps_phone req))) (\<lambda>existingAuth.
     case existingAuth of
       Some a \<Rightarrow>
         bindP (sqlQuery (selectUser (a_id a))) (\<lambda>existingUser.
         if existingUser \<noteq> None
         then Ret (res_userExists (Some (lit ''User already exists. Please login instead.'')))
         else Ret (res_profileIncomplete (Some (lit ''Account setup incomplete. Please contact support.''))))
     | None \<Rightarrow> createAccount c (phoneAuthRow i (ps_phone req)) (phoneUserRow i req) (ps_deviceInfo req)
         (\<lambda>tokens. Ret (res_created (tokenFields tokens))))))"
  unfolding phoneSignup_def createAccount_def phoneAuthRow_def phoneUserRow_def
    auth_row.update_convs user_row.update_convs by (rule refl)

lemma handler_db_ok: "db_ok (w_db w) \<Longrightarrow> db_ok (w_db (snd (run (authHandler c r) w)))"
  using records.worlds.run_keeps[OF records.authHandler_keeps, of w c r] by (simp add: db_prop_def)

lemma withAccount_selects:
  assumes "db_ok (withAccount a u t d)"
  shows "selectAuth (a_provider a) (a_identifier a) (withAccount a u t d) = Some a"
    "selectUser (u_id u) (withAccount a u t d) = Some u"
    "selectToken (t_token t) (withAccount a u t d) = Some t"
  using assms by (auto simp: withAccount_def intro!: selectAuth_in selectUser_in selectToken_in)

text \<open>
  C17. A signup with a valid code and an unknown phone creates exactly one account, one profile
  and one session and touches nothing else: the answer is 201 with an access token and a
  refresh token for the new identifier; afterwards the account, profile and session tables
  are the old ones with one row each at the end (the phone, the submitted data, a session
  that is not revoked and lives thirty days), the code of this phone is gone and the codes of
  other phones are as before, no task is handed to the background, and the constraints hold.
\<close>

theorem phoneSignup_creates_account:
  assumes "serving c w" "db_ok (w_db w)" "freshNames w"
    and "verdict (ps_phone req) (ps_code req) w = OtpSuccess"
    and "selectAuth Phone (ps_phone req) (w_db w) = None"
  shows "\<exists>w'. run (phoneSignup c req) w =
        (Done (res_created (tokenFields (accessTokenAt c (nextId w) (w_now w), nextRefreshToken w))), w')
     \<and> auth (w_db w') = auth (w_db w) @ [phoneAuthRow (nextId w) (ps_phone req)]
     \<and> users (w_db w') = users (w_db w) @ [phoneUserRow (nextId w) req (w_now w)]
     \<and> tokens (w_db w') = tokens (w_db w)
         @ [newSession (nextId w) (ps_deviceInfo req) (w\<lparr>w_idPos := Suc (w_idPos w)\<rparr>)]
     \<and> (\<forall>ph. selectOtp ph (w_db w') = (if ph = ps_phone req then None else selectOtp ph (w_db w)))
     \<and> w_tasks w' = w_tasks w \<and> db_ok (w_db w')"
proof -
  let ?ph = "ps_phone req"
  obtain d where v: "run (verifyOTPCode c ?ph (ps_code req)) w = (Done OtpSuccess, w\<lparr>w_db := d\<rparr>)"
    and ch: "otp_change ?ph None (w_db w) d"
    using run_verified[OF assms(1,4)] by blast
  define w0 where "w0 = w\<lparr>w_db := d\<rparr>"
  have ok0: "db_ok d"
    using records.worlds.run_keeps[OF records.verifyOTPCode_keeps[of Ret c ?ph "ps_code req"], of w] assms(2) v
    by (simp add: bindP_Ret db_prop_def)
  have w0: "serving c w0" "freshNames w0" "w_ids w0 (w_idPos w0) = (nextId w)"
    using assms(1,3) ch by (simp_all add: w0_def freshNames_def otp_change_def nextId_def)
  define w1 where "w1 = w0\<lparr>w_idPos := Suc (w_idPos w0)\<rparr>"
  define w' where "w' = w1\<lparr>w_idPos := Suc (Suc (w_idPos w0)), w_randPos := w_randPos w0 + 16,
    w_db := withAccount (phoneAuthRow (nextId w) ?ph) (phoneUserRow (nextId w) req (w_now w0))
       (newSession (nextId w) (ps_deviceInfo req) w1) (w_db w0)\<rparr>"
  have none: "selectAuth Phone ?ph (w_db w0) = None"
    using otp_change_selects(1)[OF ch] assms(5) by (simp add: w0_def)
  then have key: "auth_key (phoneAuthRow (nextId w) ?ph) \<notin> auth_key ` set (auth (w_db w0))"
    by (simp add: select_None_iff phoneAuthRow_def auth_key_def)
  have same: "w_now w0 = w_now w" "nextRefreshToken w0 = nextRefreshToken w" "db_ok (w_db w0)"
    using ok0 by (simp_all add: w0_def)
  have acc: "run (createAccount c (phoneAuthRow (nextId w) ?ph) (phoneUserRow (nextId w) req)
      (ps_deviceInfo req) (\<lambda>tokens. Ret (res_created (tokenFields tokens)))) w0
    = (Done (res_created (tokenFields (accessTokenAt c (nextId w) (w_now w), nextRefreshToken w))), w')"
    using run_createAccount[OF w0(1) same(3) w0(2), of "phoneAuthRow (nextId w) ?ph" "phoneUserRow (nextId w) req"
        "ps_deviceInfo req" "\<lambda>tokens. Ret (res_created (tokenFields tokens))"] key
    by (simp add: w0(3) same w1_def w'_def)
  have run: "run (phoneSignup c req) w =
      (Done (res_created (tokenFields (accessTokenAt c (nextId w) (w_now w), nextRefreshToken w))), w')"
    using none acc by (simp add: phoneSignup_eq[of c req "nextId w"] v[folded w0_def] run_serving[OF w0(1)])
  have ok: "db_ok (w_db w')" using handler_db_ok[OF assms(2), of c "PhoneSignup req"] by (simp add: run)
  have "newSession (nextId w) di w1 = newSession (nextId w) di (w\<lparr>w_idPos := Suc (w_idPos w)\<rparr>)" for di
    by (simp add: newSession_def w1_def w0_def nextRefreshToken_def)
  with run ok show ?thesis
    using ch by (simp add: w'_def w0_def w1_def withAccount_def otp_change_def selectOtp_def)
qed

definition sample_signup :: phone_signup_request where
  "sample_signup = \<lparr>ps_phone = sample_phone, ps_code = lit ''123456'', ps_name = lit ''Ada'', ps_gender = Female,
     ps_birthYear = 1990, ps_deviceInfo = None\<rparr>"

lemma ps_phone_sample [simp]: "ps_phone sample_signup = sample_phone"
  by (simp add: sample_signup_def)

theorem phoneSignup_creates_account_witness:
  "\<exists>w'. run (phoneSignup sample_ctx sample_signup)
          (sample_world (empty_db\<lparr>otps := [(sample_phone, sample_otp)]\<rparr>))
        = (Done (res_created (tokenFields ([105], nextRefreshToken
            (sample_world (empty_db\<lparr>otps := [(sample_phone, sample_otp)]\<rparr>))))), w')
      \<and> auth (w_db w') = [phoneAuthRow [105] sample_phone] \<and> length (tokens (w_db w')) = 1
      \<and> db_ok (w_db w')"
proof -
  let ?d = "empty_db\<lparr>otps := [(sample_phone, sample_otp)]\<rparr>"
  have "verdict (ps_phone sample_signup) (ps_code sample_signup) (sample_world ?d) = OtpSuccess"
    by (simp add: verdict_def sample_signup_def selectOtp_def sample_otp_def)
  moreover have "selectAuth Phone (ps_phone sample_signup) ?d = None"
    by (simp add: selectAuth_def empty_db_def)
  moreover have "freshNames (sample_world ?d)" by (simp add: freshNames_def empty_db_def)
  moreover have "db_ok ?d" by (simp add: db_ok_def empty_db_def)
  ultimately show ?thesis
    using phoneSignup_creates_account[of sample_ctx "sample_world ?d" sample_signup]
    by (auto simp: nextId_def empty_db_def)
qed

lemma run_phoneSignIn:
  assumes "serving c w" "verdict (pi_phone req) (pi_code req) w = OtpSuccess"
    and "\<forall>a. selectAuth Phone (pi_phone req) (w_db w) = Some a \<longrightarrow> sessionFresh (a_id a) w"
  shows "\<exists>d. otp_change (pi_phone req) None (w_db w) d \<and> run (phoneSignIn c req) w =
    (case selectAuth Phone (pi_phone req) (w_db w) of
       None \<Rightarrow> (Done (res_userNotFound (Some (lit ''User not found. Please sign up first.''))), w\<lparr>w_db := d\<rparr>)
     | Some a \<Rightarrow>
         if selectUser (a_id a) (w_db w) = None
         then (Done (res_profileIncomplete (Some (lit ''User profile incomplete. Please sign up again.''))), w\<lparr>w_db := d\<rparr>)
         else (Done (res_ok (tokenFields (accessTokenAt c (a_id a) (w_now w), nextRefreshToken w)) noOptions),
           w\<lparr>w_randPos := w_randPos w + 16, w_idPos := Suc (w_idPos w),
             w_db := d\<lparr>tokens := tokens (w_db w) @ [newSession (a_id a) (pi_deviceInfo req) w]\<rparr>\<rparr>))"
proof -
  let ?ph = "pi_phone req"
  obtain d where v: "run (verifyOTPCode c ?ph (pi_code req)) w = (Done OtpSuccess, w\<lparr>w_db := d\<rparr>)"
    and ch: "otp_change ?ph None (w_db w) d"
    using run_verified[OF assms(1,2)] by blast
  have sv: "serving c (w\<lparr>w_db := d\<rparr>)" using assms(1) by simp
  have "newSession i di (w\<lparr>w_db := d\<rparr>) = newSession i di w" for i di
    by (simp add: newSession_def)
  then have "run (issueTokens c (a_id a) (pi_deviceInfo req)) (w\<lparr>w_db := d\<rparr>)
      = (Done (accessTokenAt c (a_id a) (w_now w), nextRefreshToken w),
         w\<lparr>w_randPos := w_randPos w + 16, w_idPos := Suc (w_idPos w),
           w_db := d\<lparr>tokens := tokens (w_db w) @ [newSession (a_id a) (pi_deviceInfo req) w]\<rparr>\<rparr>)"
    if "selectAuth Phone ?ph (w_db w) = Some a" for a
    using run_issueTokens_fresh[OF sv, of "a_id a" "pi_deviceInfo req"] that assms(3) ch
    by (simp add: sessionFresh_def otp_change_def)
  with ch show ?thesis
    by (intro exI[of _ d]) (auto simp: phoneSignIn_def v run_serving[OF sv] otp_change_selects[OF ch] split: option.splits)
qed

text \<open>
  C18. Sign-in with a valid code: the code is used up in every case. An unknown phone gets
  \<open>USER_NOT_FOUND\<close>, an account without a profile \<open>PROFILE_INCOMPLETE\<close>, and neither changes any
  session; a complete account gets an access token for its own identifier and exactly one
  new session row, with thirty days to live.
\<close>

theorem phoneSignIn_outcomes:
  assumes "serving c w" "verdict (pi_phone req) (pi_code req) w = OtpSuccess"
    and "\<forall>a. selectAuth Phone (pi_phone req) (w_db w) = Some a \<longrightarrow> sessionFresh (a_id a) w"
  shows "\<exists>resp w'. run (phoneSignIn c req) w = (Done resp, w')
    \<and> selectOtp (pi_phone req) (w_db w') = None \<and> auth (w_db w') = auth (w_db w) \<and> users (w_db w') = users (w_db w)
    \<and> (case selectAuth Phone (pi_phone req) (w_db w) of
         None \<Rightarrow> respCode resp = Some (lit ''USER_NOT_FOUND'') \<and> tokens (w_db w') = tokens (w_db w)
       | Some a \<Rightarrow>
           if selectUser (a_id a) (w_db w) = None
           then respCode resp = Some (lit ''PROFILE_INCOMPLETE'') \<and> tokens (w_db w') = tokens (w_db w)
           else resp = res_ok (tokenFields (accessTokenAt c (a_id a) (w_now w), nextRefreshToken w)) noOptions
             \<and> tokens (w_db w') = tokens (w_db w) @ [newSession (a_id a) (pi_deviceInfo req) w])"
proof -
  from run_phoneSignIn[OF assms] obtain d where ch: "otp_change (pi_phone req) None (w_db w) d"
    and r: "run (phoneSignIn c req) w = (case selectAuth Phone (pi_phone req) (w_db w) of
       None \<Rightarrow> (Done (res_userNotFound (Some (lit ''User not found. Please sign up first.''))), w\<lparr>w_db := d\<rparr>)
     | Some a \<Rightarrow>
         if selectUser (a_id a) (w_db w) = None
         then (Done (res_profileIncomplete (Some (lit ''User profile incomplete. Please sign up again.''))), w\<lparr>w_db := d\<rparr>)
         else (Done (res_ok (tokenFields (accessTokenAt c (a_id a) (w_now w), nextRefreshToken w)) noOptions),
           w\<lparr>w_randPos := w_randPos w + 16, w_idPos := Suc (w_idPos w),
             w_db := d\<lparr>tokens := tokens (w_db w) @ [newSession (a_id a) (pi_deviceInfo req) w]\<rparr>\<rparr>))"
    by blast
  have "selectOtp (pi_phone req) (d\<lparr>tokens := ts\<rparr>) = None" for ts
    using ch by (simp add: otp_change_def selectOtp_def)
  with ch show ?thesis
    by (auto simp: r otp_change_def res_defs split: option.splits)
qed

theorem phoneSignIn_outcomes_witness:
  "\<exists>w'. run (phoneSignIn sample_ctx \<lparr>pi_phone = sample_phone, pi_code = lit ''123456'', pi_deviceInfo = None\<rparr>)
        (sample_world sample_db)
      = (Done (res_ok (tokenFields (lit ''u1'', nextRefreshToken (sample_world sample_db))) noOptions), w')
    \<and> tokens (w_db w') = [sample_token, newSession (lit ''u1'') None (sample_world sample_db)]"
proof -
  let ?w = "sample_world sample_db"
  have "[105] \<noteq> lit ''t1''" by (simp add: lit_def)
  then have "sessionFresh (lit ''u1'') ?w"
    by (auto simp: sessionFresh_def)
  moreover have "verdict sample_phone (lit ''123456'') ?w = OtpSuccess"
    by (simp add: verdict_def sample_otp_def)
  ultimately show ?thesis
    using phoneSignIn_outcomes[of sample_ctx ?w
        "\<lparr>pi_phone = sample_phone, pi_code = lit ''123456'', pi_deviceInfo = None\<rparr>"]
    by auto
qed

section \<open>Signups on a failing network\<close>

text \<open>
  The accounts nobody looks after: they were not there before, have no profile, and their
  deletion has not been handed to the background.
\<close>

definition stranded :: "jstring set \<Rightarrow> world \<Rightarrow> auth_row list" where
  "stranded A w = filter (\<lambda>r. a_id r \<notin> A \<and> a_id r \<notin> u_id ` set (users (w_db w))
     \<and> DeleteAuthTask (a_id r) \<notin> set (w_tasks w)) (auth (w_db w))"

text \<open>
  What a part of a signup for the account \<open>key\<close> may leave behind: nothing, or, when it ends
  with a network failure and its last statement was executed although its answer was lost, the
  one account it was inserting. \<open>consumes\<close>: the schedule of the network is used from its front.
\<close>

definition consumes :: "world \<Rightarrow> world \<Rightarrow> bool" where
  "consumes w w' \<longleftrightarrow> (\<exists>pre. w_io w = pre @ w_io w')"

definition lostInsert :: "provider \<times> jstring \<Rightarrow> jstring set \<Rightarrow> world \<Rightarrow> world \<Rightarrow> (exn, 'a) outcome \<Rightarrow> bool" where
  "lostInsert key A w w' out \<longleftrightarrow> (\<exists>r m d pre. stranded A w' = [r] \<and> auth_key r = key
     \<and> out = Thrown (DbFault m) \<and> w_io w = pre @ Io d (Some m) True # w_io w')"

definition accountsFor :: "provider \<times> jstring \<Rightarrow> (world, exn, 'a) prog \<Rightarrow> bool" where
  "accountsFor key p \<longleftrightarrow> (\<forall>A w. stranded A w = [] \<longrightarrow> (case run p w of (out, w') \<Rightarrow>
     consumes w w' \<and> (stranded A w' = [] \<or> lostInsert key A w w' out)))"

definition frame :: "(world, exn, 'a) prog \<Rightarrow> bool" where
  "frame p \<longleftrightarrow> (\<forall>w. case run p w of (out, w') \<Rightarrow>
     a_id ` set (auth (w_db w')) = a_id ` set (auth (w_db w)) \<and> users (w_db w') = users (w_db w)
     \<and> w_tasks w' = w_tasks w \<and> consumes w w')"

lemma stranded_Nil: "stranded A w = [] \<longleftrightarrow> (\<forall>i \<in> a_id ` set (auth (w_db w)).
     i \<in> A \<or> i \<in> u_id ` set (users (w_db w)) \<or> DeleteAuthTask i \<in> set (w_tasks w))"
  by (auto simp: stranded_def filter_empty_conv)

lemma consumes_simps [simp]: "consumes w w" "consumes w (w'\<lparr>w_db := d\<rparr>) = consumes w w'"
  "consumes w (w'\<lparr>w_tasks := ts\<rparr>) = consumes w w'" "consumes (w\<lparr>w_db := d\<rparr>) w' = consumes w w'"
  "w_io w = w_io v \<Longrightarrow> consumes w v"
  by (auto simp: consumes_def)

lemma consumes_trans: "consumes u v \<Longrightarrow> consumes v w \<Longrightarrow> consumes u w"
  unfolding consumes_def by (metis append.assoc)

lemma consumes_afterIo [simp]: "consumes w (afterIo w)"
  unfolding consumes_def by (cases "w_io w") (auto simp: afterIo_def intro: exI[of _ "[]"] exI[of _ "[_]"])

lemma lostInsert_later: "consumes w v \<Longrightarrow> lostInsert key A v w' out \<Longrightarrow> lostInsert key A w w' out"
  unfolding consumes_def lostInsert_def by (metis append.assoc)

lemma nextIo_lost: "io_fault (nextIo w) = Some m \<Longrightarrow> io_lost (nextIo w)
    \<Longrightarrow> \<exists>d. w_io w = Io d (Some m) True # w_io (afterIo w)"
  by (cases "w_io w"; cases "nextIo w") (auto simp: nextIo_def afterIo_def)

lemma accountsFor_frame: "frame p \<Longrightarrow> accountsFor key p"
  unfolding frame_def accountsFor_def case_prod_beta by (simp only: stranded_Nil) blast

lemma accountsFor_bind:
  assumes p: "accountsFor key p" and k: "\<And>a. accountsFor key (k a)"
  shows "accountsFor key (bindP p k)"
  unfolding accountsFor_def
proof (intro allI impI)
  fix A w assume "stranded A w = []"
  with p have p': "case run p w of (out, w') \<Rightarrow>
     consumes w w' \<and> (stranded A w' = [] \<or> lostInsert key A w w' out)"
    by (auto simp: accountsFor_def)
  show "case run (bindP p k) w of (out, w') \<Rightarrow>
     consumes w w' \<and> (stranded A w' = [] \<or> lostInsert key A w w' out)"
  proof (cases "\<exists>a v. run p w = (Done a, v)")
    case True
    then obtain a v where r: "run p w = (Done a, v)" by blast
    with p' have v: "stranded A v = []" "consumes w v" by (auto simp: lostInsert_def)
    with k[of a] have "case run (k a) v of (out, w') \<Rightarrow> consumes v w' \<and> (stranded A w' = [] \<or> lostInsert key A v w' out)"
      by (auto simp: accountsFor_def)
    with r consumes_trans[OF v(2)] lostInsert_later[OF v(2), of key] show ?thesis
      by (auto split: prod.splits)
  next
    case False
    with p' show ?thesis by (auto simp: lostInsert_def split: outcome.splits prod.splits)
  qed
qed

lemma frame_bind: "frame p \<Longrightarrow> (\<And>a. frame (k a)) \<Longrightarrow> frame (bindP p k)"
  unfolding frame_def by (fastforce split: outcome.splits prod.splits intro: consumes_trans)

lemma run_sqlCheck:
  "run (sqlCheck u) w = (case io_fault (nextIo w) of
     Some m \<Rightarrow> (Thrown (DbFault m), if io_lost (nextIo w)
         then (case u (w_now (afterIo w)) (w_db w) of Inl c \<Rightarrow> afterIo w | Inr d \<Rightarrow> (afterIo w)\<lparr>w_db := d\<rparr>)
         else afterIo w)
   | None \<Rightarrow> (case u (w_now (afterIo w)) (w_db w) of
       Inl c \<Rightarrow> (Thrown (DbError c), afterIo w) | Inr d \<Rightarrow> (Done (), (afterIo w)\<lparr>w_db := d\<rparr>)))"
  by (auto simp: sqlCheck_def sql_def sqlEffect_def split: option.splits sum.splits)

lemma frame_effects:
  "frame (Ret a)" "frame (Throw e)" "frame (getDb c)" "frame (sqlQuery q)" "frame now" "frame (minutesAgo m)"
  "frame (daysFromNow m)" "frame createId" "frame generateRefreshToken" "frame (generateAccessToken c u)"
  "frame (sqlExec (\<lambda>_. deleteOtp ph))" "frame (sqlExec (\<lambda>_. updateOtpAttempts ph n))"
  by (auto simp: frame_def run_sqlQuery run_sqlExec getDb_def Let_def split: option.splits)

lemma frame_insertToken: "frame (sqlCheck (\<lambda>t. insertToken (r t)))"
  by (auto simp: frame_def run_sqlCheck insertToken_def split: option.splits)

lemma frame_updateAuthEmail: "frame (sqlCheck (\<lambda>_. updateAuthEmail i e))"
proof -
  have "a_id \<circ> (\<lambda>r :: auth_row. if a_id r = i then r\<lparr>a_email := Some e\<rparr> else r) = a_id" by auto
  then have "a_id ` (\<lambda>r :: auth_row. if a_id r = i then r\<lparr>a_email := Some e\<rparr> else r) ` X = a_id ` X" for X
    by (simp only: image_comp)
  then show ?thesis
    by (auto simp: frame_def run_sqlCheck updateAuthEmail_def split: option.splits if_splits)
qed

lemma frame_issueTokens: "frame (issueTokens c i di)"
  unfolding issueTokens_def by (rule frame_insertToken frame_effects frame_bind)+

lemma frame_if: "frame p \<Longrightarrow> frame q \<Longrightarrow> frame (if b then p else q)"
  by simp

lemma frame_verifyOTPCode: "frame (verifyOTPCode c ph code)"
  unfolding verifyOTPCode_def Let_def
  by (rule frame_effects frame_bind frame_if | (split option.split, intro conjI allI impI))+

text \<open>The two inserts: the account outside the \<open>try\<close>, the profile inside.\<close>

lemma accountsFor_newRows:
  assumes "accountsFor (auth_key a) q"
  shows "accountsFor (auth_key a) (bindP (sqlCheck (\<lambda>_. insertAuth (a\<lparr>a_id := i\<rparr>))) (\<lambda>_.
      bindP (tryP (sqlCheck (\<lambda>t. insertUser ((u t)\<lparr>u_id := i\<rparr>)))) (\<lambda>r.
      case r of Inl e \<Rightarrow> bindP (waitUntil (DeleteAuthTask i)) (\<lambda>_. Throw e) | Inr _ \<Rightarrow> q)))"
    (is "accountsFor _ ?p")
  unfolding accountsFor_def
proof (intro allI impI)
  fix A w assume w: "stranded A w = []"
  let ?a = "a\<lparr>a_id := i\<rparr>"
  let ?d = "(w_db w)\<lparr>auth := auth (w_db w) @ [?a]\<rparr>"
  let ?v = "(afterIo w)\<lparr>w_db := ?d\<rparr>"
  have io: "consumes w (afterIo w)" "consumes w (afterIo ?v)"
    using consumes_trans[OF consumes_afterIo, of w "afterIo ?v"] consumes_afterIo[of ?v, unfolded consumes_simps]
    by simp_all
  have ins: "insertAuth ?a (w_db w) = Inr ?d \<or> (\<exists>c. insertAuth ?a (w_db w) = Inl c)"
    by (auto simp: insertAuth_def)
  have tail: "case run q x of (out, w') \<Rightarrow> consumes w w'
      \<and> (stranded A w' = [] \<or> lostInsert (auth_key a) A w w' out)"
    if "stranded A x = []" "consumes w x" for x
  proof -
    have "case run q x of (out, w') \<Rightarrow> consumes x w'
        \<and> (stranded A w' = [] \<or> lostInsert (auth_key a) A x w' out)"
      by (rule assms[unfolded accountsFor_def, THEN spec, THEN spec, THEN mp, OF that(1)])
    moreover obtain out w' where "run q x = (out, w')" by (rule prod.exhaust)
    ultimately show ?thesis
      using consumes_trans[OF that(2), of w'] lostInsert_later[OF that(2), of "auth_key a" A w' out] by auto
  qed
  have dead: "stranded A (afterIo w) = []" using w by (simp add: stranded_Nil)
  have lone: "stranded A ?v = [] \<or> stranded A ?v = [?a]"
    using w by (auto simp: stranded_def)
  have key: "auth_key ?a = auth_key a" by (simp add: auth_key_def)
  consider (fail) "io_fault (nextIo w) \<noteq> None" | (refused) c where "io_fault (nextIo w) = None"
      "insertAuth ?a (w_db w) = Inl c"
    | (stored) "io_fault (nextIo w) = None" "insertAuth ?a (w_db w) = Inr ?d"
    using ins by blast
  then show "case run ?p w of (out, w') \<Rightarrow>
      consumes w w' \<and> (stranded A w' = [] \<or> lostInsert (auth_key a) A w w' out)"
  proof cases
    case fail
    then obtain m where m: "io_fault (nextIo w) = Some m" by blast
    show ?thesis
    proof (cases "io_lost (nextIo w) \<and> insertAuth ?a (w_db w) = Inr ?d")
      case True
      with m obtain d where "w_io w = [] @ Io d (Some m) True # w_io ?v" using nextIo_lost[of w m] by auto
      with True m lone key io show ?thesis
        by (auto simp: run_sqlCheck lostInsert_def)
    next
      case False
      with m ins dead io show ?thesis by (auto simp: run_sqlCheck split: sum.splits)
    qed
  next
    case refused
    with dead io show ?thesis by (simp add: run_sqlCheck)
  next
    case stored
    show ?thesis
    proof (cases "io_fault (nextIo ?v) = None \<and> i \<notin> u_id ` set (users (w_db w))")
      case ok: True
      let ?x = "(afterIo ?v)\<lparr>w_db := ?d\<lparr>users := users (w_db w) @ [(u (w_now (afterIo ?v)))\<lparr>u_id := i\<rparr>]\<rparr>\<rparr>"
      have "stranded A ?x = []" using w by (auto simp: stranded_Nil)
      moreover have "run ?p w = run q ?x" using stored ok by (simp add: run_sqlCheck insertUser_def)
      ultimately show ?thesis using tail[of ?x] io by simp
    next
      case False
      with stored w io show ?thesis
        by (auto simp: run_sqlCheck insertUser_def stranded_Nil split: option.splits sum.splits)
    qed
  qed
qed

lemma accountsFor_createAccount:
  assumes "\<And>ts. accountsFor (auth_key a) (k ts)"
  shows "accountsFor (auth_key a) (createAccount c a u di k)"
  unfolding createAccount_def
  by (intro accountsFor_bind[OF accountsFor_frame[OF frame_effects(8)]] accountsFor_newRows
      accountsFor_bind[OF accountsFor_frame[OF frame_issueTokens]] assms)

definition oauthAuthRow :: "jstring \<Rightarrow> oauth_signup_request \<Rightarrow> auth_row" where
  "oauthAuthRow i req = \<lparr>a_id = i, a_provider = os_provider req, a_identifier = os_providerId req,
     a_email = Some (os_email req)\<rparr>"

definition oauthUserRow :: "jstring \<Rightarrow> oauth_signup_request \<Rightarrow> timestamp \<Rightarrow> user_row" where
  "oauthUserRow i req t = \<lparr>u_id = i, u_name = os_name req, u_gender = os_gender req,
     u_birthYear = os_birthYear req, u_createdAt = t, u_updatedAt = t\<rparr>"

definition welcomed :: "oauth_signup_request \<Rightarrow> jstring \<times> jstring \<Rightarrow> (world, exn, response) prog" where
  "welcomed req ts =
     bindP (waitUntil (WelcomeEmailTask (os_email req) (hd (splitOn 0x20 (os_name req))))) (\<lambda>_.
     Ret (res_created (tokenFields ts)))"

lemma oauthSignup_eq:
  "oauthSignup c req =
     bindP (getDb c) (\<lambda>_.
     bindP (sqlQuery (selectAuth (os_provider req) (os_providerId req))) (\<lambda>existingAuth.
     case existingAuth of
       Some a \<Rightarrow>
         bindP (sqlQuery (selectUser (a_id a))) (\<lambda>existingUser.
         if existingUser = None
         then Ret (res_profileIncomplete (Some (lit ''User profile incomplete. Please contact support.'')))
         else
         bindP (if \<not> truthyOpt (a_email a)
                then sqlCheck (\<lambda>_. updateAuthEmail (a_id a) (os_email req)) else Ret ()) (\<lambda>_.
         bindP (issueTokens c (a_id a) (os_deviceInfo req)) (\<lambda>tokens.
         Ret (res_ok (tokenFields tokens) noOptions))))
     | None \<Rightarrow>
     bindP (sqlQuery (selectAuthByEmail (os_email req))) (\<lambda>emailConflict.
     if (case emailConflict of None \<Rightarrow> False | Some a \<Rightarrow> a_provider a \<noteq> os_provider req)
     then Ret (res_conflict (emailConflictMessage (c_ext c) (a_provider (the emailConflict))) None)
     else createAccount c (oauthAuthRow i req) (oauthUserRow i req) (os_deviceInfo req) (welcomed req))))"
  unfolding oauthSignup_def createAccount_def oauthAuthRow_def oauthUserRow_def welcomed_def
    auth_row.update_convs user_row.update_convs by (rule refl)

lemma accountsFor_if: "accountsFor key p \<Longrightarrow> accountsFor key q \<Longrightarrow> accountsFor key (if b then p else q)"
  by simp

lemma accountsFor_welcomed: "accountsFor key (welcomed req ts)"
  by (auto simp: accountsFor_def welcomed_def stranded_Nil)

lemma accountsFor_Ret: "accountsFor key (Ret r)"
  by (rule accountsFor_frame, rule frame_effects)

lemma frame_emailUpdate:
  "frame (if b then sqlCheck (\<lambda>_. updateAuthEmail i e) else Ret ())"
  by (rule frame_if, rule frame_updateAuthEmail, rule frame_effects)

lemmas bind_frame = accountsFor_bind[OF accountsFor_frame]

lemma auth_key_rows: "auth_key (phoneAuthRow i ph) = (Phone, ph)"
  "auth_key (oauthAuthRow i req) = (os_provider req, os_providerId req)"
  by (simp_all add: auth_key_def oauthAuthRow_def)

lemmas accountsFor_create_phone = accountsFor_createAccount[of "phoneAuthRow i ph" for i ph, unfolded auth_key_rows]
lemmas accountsFor_create_oauth = accountsFor_createAccount[of "oauthAuthRow i req" for i req, unfolded auth_key_rows]

lemma accountsFor_phoneSignup: "accountsFor (Phone, ps_phone req) (phoneSignup c req)"
  unfolding phoneSignup_eq[of c req "[]"]
  by (rule accountsFor_create_phone accountsFor_Ret accountsFor_if bind_frame frame_verifyOTPCode frame_effects
      | (split otp_result.split, intro conjI allI impI) | (split option.split, intro conjI allI impI))+

lemma accountsFor_oauthSignup: "accountsFor (os_provider req, os_providerId req) (oauthSignup c req)"
  unfolding oauthSignup_eq[of c req "[]"]
  by (rule accountsFor_create_oauth accountsFor_welcomed accountsFor_Ret accountsFor_if bind_frame
        frame_emailUpdate frame_issueTokens frame_effects
      | (split option.split, intro conjI allI impI))+

text \<open>
  C19. What a signup leaves behind on a failing network. Every statement may fail before it is
  executed, or be executed and lose its answer. However a signup with a phone or with an OAuth
  provider ends, every account that exists afterwards existed before, has a profile, or has
  been handed to the background for deletion, with one exception: when the signup ends with a
  network failure and the last statement it sent was executed although its answer was lost, the
  account being signed up may be left without a profile and without a clean-up, and no other
  account.
\<close>

theorem signup_leaves_no_orphan:
  assumes "p = phoneSignup c su \<and> key = (Phone, ps_phone su)
      \<or> p = oauthSignup c ou \<and> key = (os_provider ou, os_providerId ou)"
    and "run p w = (out, w')"
  shows "(\<forall>r \<in> set (auth (w_db w')).
      a_id r \<in> a_id ` set (auth (w_db w)) \<or> a_id r \<in> u_id ` set (users (w_db w'))
       \<or> DeleteAuthTask (a_id r) \<in> set (w_tasks w'))
    \<or> (\<exists>r m d pre. stranded (a_id ` set (auth (w_db w))) w' = [r] \<and> auth_key r = key
         \<and> out = Thrown (DbFault m) \<and> w_io w = pre @ Io d (Some m) True # w_io w')"
proof -
  have "accountsFor key p" using assms(1) accountsFor_phoneSignup accountsFor_oauthSignup by auto
  moreover have "stranded (a_id ` set (auth (w_db w))) w = []" by (simp add: stranded_Nil)
  ultimately have "stranded (a_id ` set (auth (w_db w))) w' = []
      \<or> lostInsert key (a_id ` set (auth (w_db w))) w w' out"
    using assms(2) unfolding accountsFor_def by fastforce
  then show ?thesis by (auto simp: stranded_Nil lostInsert_def)
qed

text \<open>A network that fails exactly when the profile is inserted, and loses no answer.\<close>

theorem signup_leaves_no_orphan_witness:
  "let w = (sample_world (empty_db\<lparr>otps := [(sample_phone, sample_otp)]\<rparr>))
             \<lparr>w_io := [Io 0 None False, Io 0 None False, Io 0 None False, Io 0 None False,
               Io 0 (Some (lit ''reset'')) False]\<rparr>
   in case run (phoneSignup sample_ctx sample_signup) w of (out, w') \<Rightarrow>
     out = Thrown (DbFault (lit ''reset'')) \<and> map a_id (auth (w_db w')) = [[105]]
     \<and> DeleteAuthTask [105] \<in> set (w_tasks w')"
proof -
  define w where "w = (sample_world (empty_db\<lparr>otps := [(sample_phone, sample_otp)]\<rparr>))
             \<lparr>w_io := [Io 0 None False, Io 0 None False, Io 0 None False, Io 0 None False,
               Io 0 (Some (lit ''reset'')) False]\<rparr>"
  have run: "run (phoneSignup sample_ctx sample_signup) w =
     (Thrown (DbFault (lit ''reset'')),
      (sample_world (empty_db\<lparr>auth := [phoneAuthRow [105] sample_phone]\<rparr>))
        \<lparr>w_idPos := 1, w_tasks := [DeleteAuthTask [105]]\<rparr>)"
    by (simp add: phoneSignup_def verifyOTPCode_def w_def sample_world_def sample_signup_def sample_ctx_def
        sample_env_def getDb_def Let_def run_sqlQuery run_sqlExec run_sqlCheck nextIo_def afterIo_def empty_db_def
        selectOtp_def sample_otp_def auth_config deleteOtp_def selectAuth_def insertAuth_def phoneAuthRow_def)
  show ?thesis
    using signup_leaves_no_orphan[OF disjI1 [OF conjI [OF refl refl]] run]
    by (auto simp: Let_def w_def[symmetric] run)
qed

section \<open>A lost answer\<close>

definition lostAnswer :: "jstring \<Rightarrow> world \<Rightarrow> world" where
  "lostAnswer m w = w\<lparr>w_io := [Io 0 None False, Io 0 None False, Io 0 None False, Io 0 (Some m) True]\<rparr>"

lemma run_phoneSignup_lostAnswer:
  assumes "serving c w" "verdict (ps_phone req) (ps_code req) w = OtpSuccess"
    and "selectAuth Phone (ps_phone req) (w_db w) = None" "nextId w \<notin> a_id ` set (auth (w_db w))"
  shows "run (phoneSignup c req) (lostAnswer m w) = (Thrown (DbFault m), w\<lparr>w_idPos := Suc (w_idPos w),
     w_db := (deleteOtp (ps_phone req) (w_db w))\<lparr>auth := auth (w_db w) @ [phoneAuthRow (nextId w) (ps_phone req)]\<rparr>\<rparr>)"
proof -
  obtain r where r: "selectOtp (ps_phone req) (w_db w) = Some r" "w_now w \<le> o_expiresAt r"
      "\<not> 3 \<le> o_attempts r" "ps_code req = o_code r"
    using assms(2) unfolding verdict_def
    by (cases "selectOtp (ps_phone req) (w_db w)") (auto simp: tooManyAttempts_def split: if_splits)
  have con: "connected c (w\<lparr>w_io := l\<rparr>)" for l
    using assms(1) by (simp add: serving_def connected_def)
  have key: "(Phone, ps_phone req) \<notin> auth_key ` set (auth (w_db w))"
    using assms(3) by (auto simp: select_None_iff auth_key_def)
  have io: "w_io w = []" using assms(1) by (simp add: serving_def quiet_def)
  have same: "auth (deleteOtp ph d) = auth d" "selectAuth p i (deleteOtp ph d) = selectAuth p i d" for ph d p i
    by (simp_all add: deleteOtp_def selectAuth_def)
  show ?thesis
    using r assms(3,4) key io
    by (simp add: phoneSignup_def verifyOTPCode_def lostAnswer_def run_getDb_connected con Let_def auth_config
        run_sqlQuery run_sqlExec run_sqlCheck nextIo_def afterIo_def same insertAuth_def auth_key_def
        nextId_def phoneAuthRow_def)
qed

text \<open>
  C36. An account insert whose answer is lost locks the phone out. The insert of the account
  stands outside the \<open>try\<close> whose \<open>catch\<close> cleans up, so when the database executes it and only
  its answer is lost, the signup ends with the network failure, the account stays without a
  profile, a session or a clean-up task, and the code is used up. From then on, in every world
  that keeps this account and has no profile for it, a phone signup and a phone sign-in with a
  valid code are both answered \<open>PROFILE_INCOMPLETE\<close> and change no account, profile or session.
\<close>

theorem lost_answer_locks_phone:
  assumes "serving c w" "verdict (ps_phone req) (ps_code req) w = OtpSuccess"
    and "selectAuth Phone (ps_phone req) (w_db w) = None" "nextId w \<notin> a_id ` set (auth (w_db w))"
    and "run (phoneSignup c req) (lostAnswer m w) = (out, w')"
  shows "out = Thrown (DbFault m) \<and> w_tasks w' = w_tasks w \<and> users (w_db w') = users (w_db w)
    \<and> tokens (w_db w') = tokens (w_db w) \<and> selectOtp (ps_phone req) (w_db w') = None
    \<and> auth (w_db w') = auth (w_db w) @ [phoneAuthRow (nextId w) (ps_phone req)]
    \<and> (\<forall>v su si. serving c v \<and> auth (w_db v) = auth (w_db w') \<and> selectUser (nextId w) (w_db v) = None
         \<and> ps_phone su = ps_phone req \<and> verdict (ps_phone req) (ps_code su) v = OtpSuccess
         \<and> pi_phone si = ps_phone req \<and> pi_code si = ps_code su \<longrightarrow>
        (\<exists>d. run (phoneSignup c su) v = (Done (res_profileIncomplete
                (Some (lit ''Account setup incomplete. Please contact support.''))), v\<lparr>w_db := d\<rparr>)
           \<and> run (phoneSignIn c si) v = (Done (res_profileIncomplete
                (Some (lit ''User profile incomplete. Please sign up again.''))), v\<lparr>w_db := d\<rparr>)
           \<and> auth d = auth (w_db v) \<and> users d = users (w_db v) \<and> tokens d = tokens (w_db v)))"
proof -
  let ?ph = "ps_phone req"
  have out: "out = Thrown (DbFault m)" "w_db w' = (deleteOtp ?ph (w_db w))\<lparr>auth := auth (w_db w) @ [phoneAuthRow (nextId w) ?ph]\<rparr>"
    "w_tasks w' = w_tasks w"
    using assms(5) run_phoneSignup_lostAnswer[OF assms(1-4), of m] by auto
  have sel: "selectAuth Phone ?ph d = Some (phoneAuthRow (nextId w) ?ph)" if "auth d = auth (w_db w')" for d
    using assms(3) that out(2) by (simp add: selectAuth_def find_append_None)
  have later: "\<exists>d. run (phoneSignup c su) v = (Done (res_profileIncomplete
                (Some (lit ''Account setup incomplete. Please contact support.''))), v\<lparr>w_db := d\<rparr>)
           \<and> run (phoneSignIn c si) v = (Done (res_profileIncomplete
                (Some (lit ''User profile incomplete. Please sign up again.''))), v\<lparr>w_db := d\<rparr>)
           \<and> auth d = auth (w_db v) \<and> users d = users (w_db v) \<and> tokens d = tokens (w_db v)"
    if v: "serving c v" "auth (w_db v) = auth (w_db w')" "selectUser (nextId w) (w_db v) = None"
      "verdict ?ph (ps_code su) v = OtpSuccess"
      and names: "ps_phone su = ?ph" "pi_phone si = ?ph" "pi_code si = ps_code su" for v su si
  proof -
    obtain d where r: "run (verifyOTPCode c ?ph (ps_code su)) v = (Done OtpSuccess, v\<lparr>w_db := d\<rparr>)"
      and ch: "otp_change ?ph None (w_db v) d"
      using run_verified[OF v(1,4)] by blast
    have sv: "serving c (v\<lparr>w_db := d\<rparr>)" using v(1) by simp
    have d: "selectAuth Phone ?ph d = Some (phoneAuthRow (nextId w) ?ph)" "selectUser (nextId w) d = None"
      using otp_change_selects[OF ch] sel[OF v(2)] v(3) by simp_all
    show ?thesis
      using ch by (intro exI[of _ d]) (simp add: phoneSignup_def phoneSignIn_def names r run_serving[OF sv] d otp_change_def)
  qed
  have "selectOtp ?ph (w_db w') = selectOtp ?ph (deleteOtp ?ph (w_db w))"
    by (simp add: out(2) selectOtp_def)
  then have otp: "selectOtp ?ph (w_db w') = None" by (simp add: otp_lookups)
  show ?thesis
    using later otp out by simp
qed

theorem lost_answer_locks_phone_witness:
  "\<exists>w'. run (phoneSignup sample_ctx sample_signup)
       (lostAnswer (lit ''reset'') (sample_world (empty_db\<lparr>otps := [(sample_phone, sample_otp)]\<rparr>)))
     = (Thrown (DbFault (lit ''reset'')), w')
   \<and> auth (w_db w') = [phoneAuthRow [105] sample_phone] \<and> users (w_db w') = [] \<and> w_tasks w' = []
   \<and> fst (run (phoneSignup sample_ctx sample_signup)
        (sample_world (empty_db\<lparr>otps := [(sample_phone, sample_otp)], auth := [phoneAuthRow [105] sample_phone]\<rparr>)))
     = Done (res_profileIncomplete (Some (lit ''Account setup incomplete. Please contact support.'')))"
proof -
  let ?w = "sample_world (empty_db\<lparr>otps := [(sample_phone, sample_otp)]\<rparr>)"
  let ?v = "sample_world (empty_db\<lparr>otps := [(sample_phone, sample_otp)], auth := [phoneAuthRow [105] sample_phone]\<rparr>)"
  have ok: "verdict (ps_phone sample_signup) (ps_code sample_signup) (sample_world (empty_db\<lparr>otps := [(sample_phone, sample_otp)], auth := l\<rparr>))
      = OtpSuccess" for l
    by (simp add: verdict_def sample_signup_def selectOtp_def sample_otp_def)
  have ok': "verdict (ps_phone sample_signup) (ps_code sample_signup) ?w = OtpSuccess"
    by (simp add: verdict_def sample_signup_def selectOtp_def sample_otp_def)
  obtain out w' where r: "run (phoneSignup sample_ctx sample_signup) (lostAnswer (lit ''reset'') ?w) = (out, w')"
    by fastforce
  have t: "selectAuth Phone (ps_phone sample_signup) (w_db ?w) = None" "nextId ?w = [105]"
    "nextId ?w \<notin> a_id ` set (auth (w_db ?w))" "selectUser [105] (w_db ?v) = None"
    by (simp_all add: selectAuth_def selectUser_def empty_db_def nextId_def)
  note C = lost_answer_locks_phone[OF sample_serving ok' t(1,3) r, unfolded t(2)]
  have w': "auth (w_db w') = [phoneAuthRow [105] sample_phone]" "users (w_db w') = []" "w_tasks w' = []"
    using C by (simp_all add: empty_db_def)
  have "fst (run (phoneSignup sample_ctx sample_signup) ?v)
     = Done (res_profileIncomplete (Some (lit ''Account setup incomplete. Please contact support.'')))"
    using C[THEN conjunct2, THEN conjunct2, THEN conjunct2, THEN conjunct2, THEN conjunct2, THEN conjunct2,
        rule_format, of ?v sample_signup "\<lparr>pi_phone = sample_phone, pi_code = ps_code sample_signup, pi_deviceInfo = None\<rparr>"]
      ok[of "[phoneAuthRow [105] sample_phone]"] t(4) w'(1) by (auto simp: empty_db_def)
  with r C w' show ?thesis by auto
qed

section \<open>OAuth\<close>










definition sample_google :: auth_row where
  "sample_google = \<lparr>a_id = lit ''u1'', a_provider = Google, a_identifier = lit ''g-1'', a_email = Some (lit ''a@b.co'')\<rparr>"

definition sample_oauth_db :: db where
  "sample_oauth_db = sample_db\<lparr>auth := [sample_google]\<rparr>"

lemma sample_oauth_selects [simp]:
  "selectAuth Google (lit ''g-1'') sample_oauth_db = Some sample_google"
  "selectUser (lit ''u1'') sample_oauth_db = Some sample_user"
  "a_id sample_google = lit ''u1''" "a_email sample_google = Some (lit ''a@b.co'')"
  by (simp_all add: sample_oauth_db_def sample_google_def selectAuth_def selectUser_def)

lemma sample_sessionFresh: "sessionFresh (lit ''u1'') (sample_world sample_oauth_db)"
proof -
  have "[105] \<noteq> lit ''t1''" by (simp add: lit_def)
  then show ?thesis by (auto simp: sessionFresh_def sample_oauth_db_def)
qed



text \<open>
  C35. OAuth signup takes the provider and the provider's identifier from the request and asks
  for no proof of them: whoever names the identifier of an existing complete account is
  answered 200 with an access token and a new session of that account, whatever else the
  request contains.
\<close>

theorem oauthSignup_needs_no_proof:
  assumes "serving c w" "selectAuth (os_provider req) (os_providerId req) (w_db w) = Some a"
    and "selectUser (a_id a) (w_db w) \<noteq> None" "truthyOpt (a_email a)" "sessionFresh (a_id a) w"
  shows "\<exists>w'. run (oauthSignup c req) w =
       (Done (res_ok (tokenFields (accessTokenAt c (a_id a) (w_now w), nextRefreshToken w)) noOptions), w')
     \<and> tokens (w_db w') = tokens (w_db w) @ [newSession (a_id a) (os_deviceInfo req) w]"
  using assms(2-4)
  by (auto simp: oauthSignup_def run_serving[OF assms(1)] run_issueTokens_fresh[OF assms(1,5)])

theorem oauthSignup_needs_no_proof_witness:
  "\<exists>w'. run (oauthSignup sample_ctx \<lparr>os_provider = Google, os_providerId = lit ''g-1'', os_email = lit ''evil@x.co'',
         os_name = lit ''Mallory'', os_gender = Male, os_birthYear = 1980, os_deviceInfo = None\<rparr>)
       (sample_world sample_oauth_db)
     = (Done (res_ok (tokenFields (lit ''u1'', nextRefreshToken (sample_world sample_oauth_db))) noOptions), w')"
  using oauthSignup_needs_no_proof[of sample_ctx "sample_world sample_oauth_db"
      "\<lparr>os_provider = Google, os_providerId = lit ''g-1'', os_email = lit ''evil@x.co'',
         os_name = lit ''Mallory'', os_gender = Male, os_birthYear = 1980, os_deviceInfo = None\<rparr>" sample_google]
    sample_sessionFresh by auto

end
