(* ===== verification/Adapters.thy ===== *)
theory Adapters
  imports AuthAccounts
begin

text \<open>
  Outgoing messages: \<open>apps/api/src/adapters/sms.ts\<close> and \<open>email.ts\<close>, the providers and the address
  parser of \<open>packages/email/src\<close>, and the tasks the handlers hand to \<open>waitUntil\<close>, as programs.
\<close>

section \<open>Text messages\<close>

definition smsNumber :: "jstring \<Rightarrow> jstring" where
  "smsNumber phone' = lit ''880'' @ drop 1 phone'"

definition otpMessage :: "ctx \<Rightarrow> jstring \<Rightarrow> jstring" where
  "otpMessage c code = lit ''Your '' @ APP_NAME (getEnv c) @ lit '' OTP is '' @ code"

definition smsRequest :: "ctx \<Rightarrow> jstring \<Rightarrow> jstring \<Rightarrow> http_request" where
  "smsRequest c phone' code = \<lparr>hq_method = lit ''POST'', hq_url = lit ''https://bulksmsbd.net/api/smsapi'',
     hq_headers = [(lit ''Content-Type'', lit ''application/json'')],
     hq_body = JsonBody (JObj [(lit ''api_key'', JStr (SMS_API_KEY (getEnv c))),
       (lit ''senderid'', JStr (SMS_SENDER_ID (getEnv c))),
       (lit ''number'', JStr (smsNumber phone')),
       (lit ''message'', JStr (otpMessage c code))])\<rparr>"

text \<open>
  \<open>sendOTP\<close>: the answer of the service is only logged, and every failure of the request is
  caught and logged; logging is not modelled.
\<close>

definition sendOTP :: "ctx \<Rightarrow> jstring \<Rightarrow> jstring \<Rightarrow> (world, exn, unit) prog" where
  "sendOTP c phone' code =
    (if isDev c then Ret ()
     else if \<not> truthy (SMS_API_KEY (getEnv c)) then Ret ()
     else if \<not> truthy (SMS_SENDER_ID (getEnv c)) then Ret ()
     else catchP
       (bindP (fetchP c (smsRequest c phone' code)) (\<lambda>res.
        case hr_json res of None \<Rightarrow> Throw (Error (lit ''Unexpected token'')) | Some data \<Rightarrow> Ret ()))
       (\<lambda>error. Ret ()))"

section \<open>Addresses\<close>

record address =
  ad_email :: jstring
  ad_name :: "jstring option"

definition isLineTerminator :: "code_unit \<Rightarrow> bool" where
  "isLineTerminator u \<longleftrightarrow> u \<in> {0x0A, 0x0D, 0x2028, 0x2029}"

text \<open>
  The match of \<open>/^(.+?)\s*<([^>]+)>$/\<close> whose first group has \<open>n\<close> code units: the group has no
  line terminator, then white space, then an angle bracket, text without a closing bracket,
  and the closing bracket at the end.
\<close>

definition addressMatchAt :: "jstring \<Rightarrow> nat \<Rightarrow> (jstring \<times> jstring) option" where
  "addressMatchAt s n =
    (let rest = dropWhile isSpace (drop n s) in
     if list_all (\<lambda>u. \<not> isLineTerminator u) (take n s) \<and> 3 \<le> length rest
        \<and> hd rest = 60 \<and> last rest = 62 \<and> 62 \<notin> set (butlast (tl rest))
     then Some (take n s, butlast (tl rest)) else None)"

text \<open>The lazy group: the shortest one that matches.\<close>

definition addressMatch :: "jstring \<Rightarrow> (jstring \<times> jstring) option" where
  "addressMatch s = (case find (\<lambda>n. addressMatchAt s n \<noteq> None) [1..<Suc (length s)] of
     None \<Rightarrow> None | Some n \<Rightarrow> addressMatchAt s n)"

definition isQuote :: "code_unit \<Rightarrow> bool" where
  "isQuote u \<longleftrightarrow> u = 34 \<or> u = 39"

text \<open>\<open>s.replace(/^["']|["']$/g, "")\<close>\<close>

definition stripQuotes :: "jstring \<Rightarrow> jstring" where
  "stripQuotes s =
    (let a = (if s \<noteq> [] \<and> isQuote (hd s) then tl s else s)
     in if a \<noteq> [] \<and> isQuote (last a) then butlast a else a)"

definition parseAddress :: "jstring \<Rightarrow> address" where
  "parseAddress addr =
    (let trimmed = trim addr in
     case addressMatch trimmed of
       Some (m1, m2) \<Rightarrow> \<lparr>ad_email = trim m2, ad_name = Some (stripQuotes (trim m1))\<rparr>
     | None \<Rightarrow> \<lparr>ad_email = trimmed, ad_name = None\<rparr>)"

section \<open>E-mail providers\<close>

datatype email_provider = MailpitProvider | PostmarkProvider jstring | ResendProvider jstring

definition getProvider :: "ctx \<Rightarrow> exn + email_provider" where
  "getProvider c =
    (let apiKey = EMAIL_API_KEY (getEnv c); provider = EMAIL_PROVIDER (getEnv c) in
     if provider = lit ''mailpit'' then Inr MailpitProvider
     else if provider = lit ''postmark'' then Inr (PostmarkProvider apiKey)
     else if provider = lit ''resend'' then Inr (ResendProvider apiKey)
     else Inl (Error (lit ''Unknown email provider: '' @ provider)))"

definition addressJson :: "address \<Rightarrow> json" where
  "addressJson a = JObj ((lit ''Email'', JStr (ad_email a))
     # (if truthyOpt (ad_name a) then [(lit ''Name'', JStr (the (ad_name a)))] else []))"

definition mailpitRequest :: "ctx \<Rightarrow> email_options \<Rightarrow> http_request" where
  "mailpitRequest c o' = \<lparr>hq_method = lit ''POST'', hq_url = lit ''http://localhost:8025/api/v1/send'',
     hq_headers = [(lit ''Accept'', lit ''application/json''), (lit ''Content-Type'', lit ''application/json'')],
     hq_body = JsonBody (JObj [(lit ''From'', addressJson (parseAddress (eo_from o'))),
       (lit ''To'', JArr [addressJson (parseAddress (eo_to o'))]),
       (lit ''Subject'', JStr (eo_subject o')),
       (lit ''HTML'', JStr (x_render (c_ext c) (eo_template o')))])\<rparr>"

definition postmarkRequest :: "ctx \<Rightarrow> jstring \<Rightarrow> email_options \<Rightarrow> http_request" where
  "postmarkRequest c apiKey o' = \<lparr>hq_method = lit ''POST'', hq_url = lit ''https://api.postmarkapp.com/email'',
     hq_headers = [(lit ''Accept'', lit ''application/json''), (lit ''Content-Type'', lit ''application/json''),
       (lit ''X-Postmark-Server-Token'', apiKey)],
     hq_body = JsonBody (JObj [(lit ''From'', JStr (eo_from o')), (lit ''To'', JStr (eo_to o')),
       (lit ''Subject'', JStr (eo_subject o')),
       (lit ''HtmlBody'', JStr (x_render (c_ext c) (eo_template o')))])\<rparr>"

text \<open>
  \<open>provider.send\<close>. The Resend client is a library: \<open>x_resend\<close> is the error message of its
  answer, if any.
\<close>

definition providerSend :: "ctx \<Rightarrow> email_provider \<Rightarrow> email_options \<Rightarrow> (world, exn, unit) prog" where
  "providerSend c p o' = (case p of
       MailpitProvider \<Rightarrow>
         bindP (fetchP c (mailpitRequest c o')) (\<lambda>response.
         if \<not> hr_ok response then Throw (Error (lit ''Mailpit send failed: '' @ hr_text response)) else Ret ())
     | PostmarkProvider apiKey \<Rightarrow>
         bindP (fetchP c (postmarkRequest c apiKey o')) (\<lambda>response.
         if \<not> hr_ok response then Throw (Error (lit ''Postmark send failed: '' @ hr_text response)) else Ret ())
     | ResendProvider apiKey \<Rightarrow>
         awaitW (\<lambda>w. (case io_fault (nextIo w) of
             Some m \<Rightarrow> Inl (Error m)
           | None \<Rightarrow> (case x_resend (c_ext c) apiKey o' of
               Some m \<Rightarrow> Inl (Error (lit ''Resend send failed: '' @ m)) | None \<Rightarrow> Inr ()), afterIo w)))"

definition sendEmail :: "ctx \<Rightarrow> jstring \<Rightarrow> jstring \<Rightarrow> email_template \<Rightarrow> (world, exn, unit) prog" where
  "sendEmail c to subject template = (case getProvider c of
       Inl e \<Rightarrow> Throw e
     | Inr provider \<Rightarrow> providerSend c provider
         \<lparr>eo_from = EMAIL_FROM (getEnv c), eo_to = to, eo_subject = subject, eo_template = template\<rparr>)"

section \<open>Background tasks\<close>

primrec runTask :: "ctx \<Rightarrow> task \<Rightarrow> (world, exn, unit) prog" where
  "runTask c (SendOtpTask ph code) = sendOTP c ph code"
| "runTask c (DeleteAuthTask i) = sqlExec (\<lambda>_. deleteAuth i)"
| "runTask c (WelcomeEmailTask to username) =
     sendEmail c to (lit ''Welcome to '' @ APP_NAME (getEnv c))
       (WelcomeEmail (APP_NAME (getEnv c)) username (APP_URL (getEnv c) @ lit ''/dashboard'')
          (APP_URL (getEnv c) @ lit ''/support''))"

section \<open>Properties\<close>

lemma addressMatchAt_full:
  assumes "nm \<noteq> []" "list_all (\<lambda>u. \<not> isLineTerminator u) nm" "em \<noteq> []" "62 \<notin> set em"
  shows "addressMatchAt (nm @ [32, 60] @ em @ [62]) (length nm) = Some (nm, em)"
proof -
  have "dropWhile isSpace (drop (length nm) (nm @ [32, 60] @ em @ [62])) = 60 # em @ [62]"
    by (simp add: isSpace_def)
  with assms show ?thesis by (cases em) (simp_all add: addressMatchAt_def butlast_append)
qed

lemma addressMatchAt_short:
  assumes "0 < k" "k < length nm" "\<not> isSpace (last nm)" "60 \<notin> set nm"
  shows "addressMatchAt (nm @ rest) k = None"
proof -
  have ne: "drop k nm \<noteq> []" using assms(2) by simp
  then have "last nm \<in> set (drop k nm)" by (metis last_drop last_in_set linorder_not_le drop_eq_Nil)
  then have dw: "dropWhile isSpace (drop k nm @ rest) = dropWhile isSpace (drop k nm) @ rest"
    using assms(3) by (metis dropWhile_append1)
  have ne': "dropWhile isSpace (drop k nm) \<noteq> []"
    using \<open>last nm \<in> set (drop k nm)\<close> assms(3) by (metis dropWhile_eq_Nil_conv)
  then have "hd (dropWhile isSpace (drop k nm) @ rest) \<in> set nm"
    by (metis hd_append2 hd_in_set set_dropWhileD set_drop_subset subsetD)
  then have "hd (dropWhile isSpace (drop k nm @ rest)) \<noteq> 60" using assms(4) dw by metis
  then show ?thesis using assms(2) by (simp add: addressMatchAt_def)
qed

text \<open>
  Parsing a written address gives its parts back: for a display name without white space
  or quotes at its ends, without line breaks and angle brackets, and an e-mail address without
  brackets and without white space at its ends, \<open>name <email>\<close> is parsed to exactly
  that name and that address, and the address alone to the address with no name.
\<close>

lemma parseAddress_roundtrip:
  assumes "nm \<noteq> []" "trim nm = nm" "stripQuotes nm = nm" "list_all (\<lambda>u. \<not> isLineTerminator u \<and> u \<noteq> 60) nm"
    and "em \<noteq> []" "trim em = em" "60 \<notin> set em" "62 \<notin> set em"
  shows "parseAddress (nm @ lit '' <'' @ em @ lit ''>'') = \<lparr>ad_email = em, ad_name = Some nm\<rparr>
       \<and> parseAddress em = \<lparr>ad_email = em, ad_name = None\<rparr>"
proof -
  let ?s = "nm @ [32, 60] @ em @ [62]"
  have nm: "\<not> isSpace (hd nm)" "\<not> isSpace (last nm)" "60 \<notin> set nm"
    "list_all (\<lambda>u. \<not> isLineTerminator u) nm"
    using trim_ends[of nm] assms(1,2,4) by (auto simp: list_all_iff)
  have "trim ?s = ?s" using nm(1) assms(1) by (intro trim_id) (simp add: isSpace_def)
  moreover have "addressMatch ?s = Some (nm, em)"
  proof -
    have hit: "addressMatchAt ?s (length nm) = Some (nm, em)"
      using addressMatchAt_full[OF assms(1) nm(4) assms(5,8)] .
    have miss: "addressMatchAt ?s k = None" if "k \<in> set [1..<length nm]" for k
      using addressMatchAt_short[of k nm] that nm by simp
    have "[1..<Suc (length ?s)] = [1..<length nm] @ length nm # [Suc (length nm)..<Suc (length ?s)]"
      using assms(1) by (intro upt_split_at) (simp_all add: Suc_leI)
    moreover have "find (\<lambda>n. addressMatchAt ?s n \<noteq> None) [1..<length nm] = None"
      using miss by (simp add: find_None_set)
    ultimately have "find (\<lambda>n. addressMatchAt ?s n \<noteq> None) [1..<Suc (length ?s)] = Some (length nm)"
      using hit by (simp add: find_append_None)
    with hit show ?thesis by (simp add: addressMatch_def)
  qed
  moreover have "addressMatch em = None"
  proof -
    have "addressMatchAt em n = None" for n
    proof -
      have "set (dropWhile isSpace (drop n em)) \<subseteq> set em"
        by (meson set_dropWhileD set_drop_subset subsetD subsetI)
      then have "\<not> (3 \<le> length (dropWhile isSpace (drop n em)) \<and> last (dropWhile isSpace (drop n em)) = 62)"
        using assms(8) by (metis last_in_set subsetD list.size(3) not_numeral_le_zero)
      then show ?thesis by (auto simp: addressMatchAt_def Let_def)
    qed
    then show ?thesis by (simp add: addressMatch_def del: upt_Suc split: option.splits)
  qed
  ultimately show ?thesis using assms(2,3,6) by (simp add: parseAddress_def lit_def)
qed

lemma parseAddress_roundtrip_witness:
  "parseAddress (lit ''John Doe <john@example.com>'')
     = \<lparr>ad_email = lit ''john@example.com'', ad_name = Some (lit ''John Doe'')\<rparr>"
  using parseAddress_roundtrip[of "lit ''John Doe''" "lit ''john@example.com''"]
  by (simp add: lit_def trim_def isSpace_def stripQuotes_def isQuote_def isLineTerminator_def)

text \<open>
  The text message goes to the wrong number: the schema accepts ten-digit numbers that
  start with a digit from 2 to 9, but the adapter drops the first digit and writes the country
  code 880 before the other nine. So every valid phone shares its number with another one.
\<close>

lemma smsNumber_drops_digit:
  assumes "isPhone ph"
  shows "\<exists>q. isPhone q \<and> q \<noteq> ph \<and> smsNumber q = smsNumber ph"
    (is "?P")
proof -
  from assms obtain a r where ph: "ph = a # r" and a: "isDigit29 a" and r: "isPhone (50 # r)" "isPhone (51 # r)"
    by (cases ph rule: isPhone.cases) (auto simp: isDigit29_def)
  then show ?P
    by (cases "a = 50") (auto simp: smsNumber_def)
qed

lemma smsNumber_drops_digit_witness:
  "\<exists>q. isPhone q \<and> q \<noteq> sample_phone \<and> smsNumber q = smsNumber sample_phone"
  by (rule smsNumber_drops_digit) (simp add: sample_phone_def lit_def isDigit29_def isDigit_def)

text \<open>
  The clean-up of a failed signup is exact: deleting the account that was just inserted,
  with the cascade to profiles and sessions, gives back the database before the insertion.
\<close>

lemma deleteAuth_undoes_insertAuth:
  assumes "db_ok d" "insertAuth a d = Inr d'" "serving c w" "w_db w = d'"
  shows "run (runTask c (DeleteAuthTask (a_id a))) w = (Done (), w\<lparr>w_db := d\<rparr>)"
proof -
  from assms(2) have d': "d' = d\<lparr>auth := auth d @ [a]\<rparr>" and new: "a_id a \<notin> a_id ` set (auth d)"
    by (auto simp: insertAuth_def split: if_splits)
  have "filter (\<lambda>r. a_id r \<noteq> a_id a) (auth d) = auth d" using new by (intro filter_True) (metis image_eqI)
  moreover have "filter (\<lambda>r. u_id r \<noteq> a_id a) (users d) = users d"
    using new db_okD(6)[OF assms(1)] by (intro filter_True) (metis image_eqI subsetD)
  moreover have "filter (\<lambda>r. t_authId r \<noteq> a_id a) (tokens d) = tokens d"
    using new db_okD(9)[OF assms(1)] by (intro filter_True) (metis image_eqI subsetD)
  ultimately have "deleteAuth (a_id a) d' = d" by (simp add: deleteAuth_def d')
  then show ?thesis by (simp add: run_serving[OF assms(3)] assms(4))
qed

end
