(* ===== verification/Upload.thy ===== *)
theory Upload
  imports Adapters
begin

text \<open>
  Uploads (\<open>apps/api/src/handlers/upload.ts\<close>): the calendar strings of a request signature, the
  hexadecimal coding of digests, AWS Signature V4 over the hash functions of \<open>ext\<close>, and the two
  handlers.
\<close>

section \<open>Calendar\<close>

text \<open>\<open>DayFromYear\<close> and \<open>YearFromTime\<close> of ECMAScript, for times from 1970 on.\<close>

definition dayFromYear :: "int \<Rightarrow> int" where
  "dayFromYear y = 365 * (y - 1970) + (y - 1969) div 4 - (y - 1901) div 100 + (y - 1601) div 400"

lemma dayFromYear_step: "dayFromYear y < dayFromYear (y + 1)"
proof -
  define a b c a' b' c' where defs: "a = (y - 1969) div 4" "b = (y - 1901) div 100" "c = (y - 1601) div 400"
    "a' = (y + 1 - 1969) div 4" "b' = (y + 1 - 1901) div 100" "c' = (y + 1 - 1601) div 400"
  have "a \<le> a'" "c \<le> c'" unfolding defs by (simp_all add: zdiv_mono1)
  moreover have "b' \<le> b + 1"
  proof -
    have "b' \<le> (y - 1901 + 100) div 100" unfolding defs by (simp add: zdiv_mono1)
    also have "\<dots> = b + 1" unfolding defs by (subst div_add_self2) simp_all
    finally show ?thesis .
  qed
  moreover have "365 * (y + 1 - 1970) = 365 * (y - 1970) + 365" by simp
  ultimately show ?thesis unfolding dayFromYear_def defs(1-6)[symmetric] by linarith
qed

function yearFrom :: "int \<Rightarrow> int \<Rightarrow> int" where
  "yearFrom y d = (if dayFromYear (y + 1) \<le> d then yearFrom (y + 1) d else y)"
  by pat_completeness auto
termination
proof (relation "measure (\<lambda>(y, d). nat (d - dayFromYear y))")
  show "wf (measure (\<lambda>(y, d). nat (d - dayFromYear y)))" by simp
  show "((y + 1, d), (y, d)) \<in> measure (\<lambda>(y, d). nat (d - dayFromYear y))" if "dayFromYear (y + 1) \<le> d" for y d
    using that dayFromYear_step[of y] by simp
qed

declare yearFrom.simps [simp del]

definition msPerDay :: int where "msPerDay = 86400000"

definition getFullYear :: "timestamp \<Rightarrow> int" where
  "getFullYear t = yearFrom 1970 (t div msPerDay)"

lemma yearFrom_brackets:
  assumes "dayFromYear y \<le> d"
  shows "dayFromYear (yearFrom y d) \<le> d \<and> d < dayFromYear (yearFrom y d + 1)"
  using assms
proof (induction y d rule: yearFrom.induct)
  case (1 y d)
  then show ?case by (cases "dayFromYear (y + 1) \<le> d") (simp_all add: yearFrom.simps[of y d])
qed

definition isLeap :: "int \<Rightarrow> bool" where
  "isLeap y \<longleftrightarrow> y mod 4 = 0 \<and> (y mod 100 \<noteq> 0 \<or> y mod 400 = 0)"

definition monthLengths :: "int \<Rightarrow> int list" where
  "monthLengths y = [31, if isLeap y then 29 else 28, 31, 30, 31, 30, 31, 31, 30, 31, 30, 31]"

text \<open>The month, from 1 on, and the day of the month of a day of the year.\<close>

fun monthDay :: "int list \<Rightarrow> nat \<Rightarrow> int \<Rightarrow> nat \<times> int" where
  "monthDay [] m d = (m, d + 1)"
| "monthDay (l # ls) m d = (if d < l then (m, d + 1) else monthDay ls (Suc m) (d - l))"

definition padNat :: "nat \<Rightarrow> nat \<Rightarrow> jstring" where
  "padNat k n = padStart k 48 (natToString 10 n)"

text \<open>\<open>toISOString\<close> for the years 0 to 9999.\<close>

definition toISOString :: "timestamp \<Rightarrow> jstring" where
  "toISOString t =
    (let day = t div msPerDay; ms = t mod msPerDay;
         y = yearFrom 1970 day;
         (m, d) = monthDay (monthLengths y) 1 (day - dayFromYear y)
     in padNat 4 (nat y) @ lit ''-'' @ padNat 2 m @ lit ''-'' @ padNat 2 (nat d) @ lit ''T''
        @ padNat 2 (nat (ms div 3600000)) @ lit '':'' @ padNat 2 (nat (ms div 60000 mod 60))
        @ lit '':'' @ padNat 2 (nat (ms div 1000 mod 60)) @ lit ''.'' @ padNat 3 (nat (ms mod 1000)) @ lit ''Z'')"

text \<open>\<open>s.replace(/-/g, "")\<close> and \<open>s.replace(/[:\-]|\.\d{3}/g, "")\<close>\<close>

definition stripDashes :: "jstring \<Rightarrow> jstring" where
  "stripDashes s = filter (\<lambda>u. u \<noteq> 45) s"

fun stripIso :: "jstring \<Rightarrow> jstring" where
  "stripIso [] = []"
| "stripIso (u # s) =
    (if u = 58 \<or> u = 45 then stripIso s
     else if u = 46 \<and> 3 \<le> length s \<and> list_all isDigit (take 3 s) then stripIso (drop 3 s)
     else u # stripIso s)"

definition amzDate :: "timestamp \<Rightarrow> jstring" where
  "amzDate t = stripDashes (take 10 (toISOString t))"

definition amzDateTime :: "timestamp \<Rightarrow> jstring" where
  "amzDateTime t = stripIso (toISOString t)"

section \<open>Bytes\<close>

text \<open>\<open>TextEncoder.encode\<close>: UTF-8; a lone surrogate is written as U+FFFD.\<close>

definition utf8Point :: "nat \<Rightarrow> 8 word list" where
  "utf8Point p = (let p = (if 0xD800 \<le> p \<and> p \<le> 0xDFFF then 0xFFFD else p) in
     if p < 0x80 then [of_nat p]
     else if p < 0x800 then [of_nat (0xC0 + p div 64), of_nat (0x80 + p mod 64)]
     else if p < 0x10000 then [of_nat (0xE0 + p div 4096), of_nat (0x80 + p div 64 mod 64), of_nat (0x80 + p mod 64)]
     else [of_nat (0xF0 + p div 262144), of_nat (0x80 + p div 4096 mod 64), of_nat (0x80 + p div 64 mod 64),
           of_nat (0x80 + p mod 64)])"

definition utf8 :: "jstring \<Rightarrow> 8 word list" where
  "utf8 s = concat (map utf8Point (codePoints s))"

text \<open>\<open>b.toString(16).padStart(2, "0")\<close>, joined; and back with \<open>match(/.{2}/g)\<close> and \<open>parseInt(_, 16)\<close>.\<close>

definition hexByte :: "8 word \<Rightarrow> jstring" where
  "hexByte b = padStart 2 48 (natToString 16 (unat b))"

definition toHex :: "8 word list \<Rightarrow> jstring" where
  "toHex bs = concat (map hexByte bs)"

definition hexDigitValue :: "code_unit \<Rightarrow> nat" where
  "hexDigitValue u = (if isDigit u then unat u - 48 else if isLowerAlpha u then unat u - 87 else unat u - 55)"

definition parseHexByte :: "jstring \<Rightarrow> 8 word" where
  "parseHexByte s = of_nat (foldl (\<lambda>acc u. acc * 16 + hexDigitValue u) 0 s)"

fun pairs :: "jstring \<Rightarrow> jstring list" where
  "pairs (a # b # s) = [a, b] # pairs s"
| "pairs _ = []"

definition fromHex :: "jstring \<Rightarrow> 8 word list" where
  "fromHex s = map parseHexByte (pairs s)"

section \<open>Signature V4\<close>

definition sha256 :: "ext \<Rightarrow> jstring \<Rightarrow> jstring" where
  "sha256 x data = toHex (x_sha256 x (utf8 data))"

definition hmacSha256 :: "ext \<Rightarrow> 8 word list \<Rightarrow> jstring \<Rightarrow> jstring" where
  "hmacSha256 x key data = toHex (x_hmac x key (utf8 data))"

definition getSigningKey :: "ext \<Rightarrow> jstring \<Rightarrow> jstring \<Rightarrow> jstring \<Rightarrow> jstring \<Rightarrow> 8 word list" where
  "getSigningKey x secretKey date region service =
    (let kDate = hmacSha256 x (utf8 (lit ''AWS4'' @ secretKey)) date;
         kDateBytes = fromHex kDate;
         kRegion = hmacSha256 x kDateBytes region;
         kRegionBytes = fromHex kRegion;
         kService = hmacSha256 x kRegionBytes service;
         kServiceBytes = fromHex kService;
         kSigning = hmacSha256 x kServiceBytes (lit ''aws4_request'')
     in fromHex kSigning)"

definition newline :: jstring where "newline = [10]"

definition signingRegion :: "jstring \<Rightarrow> jstring" where
  "signingRegion host =
     (if strIncludes host (lit ''r2.cloudflarestorage.com'') then lit ''auto'' else lit ''us-east-1'')"

definition signedHeaders :: jstring where
  "signedHeaders = lit ''host;x-amz-content-sha256;x-amz-date''"

definition canonicalRequest :: "jstring \<Rightarrow> jstring \<Rightarrow> jstring \<Rightarrow> jstring \<Rightarrow> jstring" where
  "canonicalRequest meth path host datetime =
    (let canonicalHeaders = join newline [lit ''host:'' @ host, lit ''x-amz-content-sha256:UNSIGNED-PAYLOAD'',
           lit ''x-amz-date:'' @ datetime]
     in join newline [meth, path, [], canonicalHeaders, [], signedHeaders, lit ''UNSIGNED-PAYLOAD''])"

definition signatureHeaders :: "ext \<Rightarrow> jstring \<Rightarrow> jstring \<Rightarrow> jstring \<Rightarrow> jstring \<Rightarrow> jstring \<Rightarrow> timestamp
    \<Rightarrow> (jstring \<times> jstring) list" where
  "signatureHeaders x meth path accessKeyId secretAccessKey host t =
    (let date = amzDate t; datetime = amzDateTime t;
         region = signingRegion host;
         algorithm = lit ''AWS4-HMAC-SHA256'';
         credentialScope = date @ lit ''/'' @ region @ lit ''/s3/aws4_request'';
         stringToSign = join newline [algorithm, datetime, credentialScope,
           sha256 x (canonicalRequest meth path host datetime)];
         signingKey = getSigningKey x secretAccessKey date region (lit ''s3'');
         signature = hmacSha256 x signingKey stringToSign;
         authorization = algorithm @ lit '' Credential='' @ accessKeyId @ lit ''/'' @ credentialScope
           @ lit '', SignedHeaders='' @ signedHeaders @ lit '', Signature='' @ signature
     in [(lit ''Authorization'', authorization), (lit ''x-amz-date'', datetime),
         (lit ''x-amz-content-sha256'', lit ''UNSIGNED-PAYLOAD'')])"

text \<open>
  The awaited digests change nothing that other code can see, so the headers are a function of
  the time that is read first; \<open>x_hostname\<close> is \<open>new URL(endpoint).hostname\<close>. The content
  type and length that the source passes along are not used by it.
\<close>

definition generateAwsSignatureV4 :: "ctx \<Rightarrow> jstring \<Rightarrow> jstring \<Rightarrow> jstring \<Rightarrow> jstring \<Rightarrow> jstring
    \<Rightarrow> (world, exn, (jstring \<times> jstring) list) prog" where
  "generateAwsSignatureV4 c meth path accessKeyId secretAccessKey endpoint =
     bindP now (\<lambda>t.
     case x_hostname (c_ext c) endpoint of
       Inl e \<Rightarrow> Throw e
     | Inr host \<Rightarrow> Ret (signatureHeaders (c_ext c) meth path accessKeyId secretAccessKey host t))"

section \<open>The handlers\<close>

definition imageIdOf :: "jstring \<Rightarrow> jstring" where
  "imageIdOf key = hd (splitOn 46 key)"

definition generatePresignedUrl :: "presigned_request \<Rightarrow> (world, exn, response) prog" where
  "generatePresignedUrl req =
    (let key = pr_fileName req;
         fs = JObj [(lit ''key'', JStr key), (lit ''contentType'', JStr (pr_contentType req))]
     in Ret (res_ok [(lit ''imageId'', JStr (imageIdOf key)), (lit ''fields'', fs)] noOptions))"

definition directUpload :: "ctx \<Rightarrow> direct_upload_query \<Rightarrow> 8 word list \<Rightarrow> (world, exn, response) prog" where
  "directUpload c req requestBody = (case getR2Config c of
       Inl e \<Rightarrow> Throw e
     | Inr r2 \<Rightarrow>
      let uploadUrl = r2_endpoint r2 @ lit ''/'' @ r2_bucketName r2 @ lit ''/'' @ du_key req;
          isR2 = strIncludes (r2_endpoint r2) (lit ''cloudflarestorage.com'');
          headers = [(lit ''Content-Type'', du_contentType req),
            (lit ''Content-Length'', natToString 10 (length requestBody))]
      in bindP (if isR2
                then bindP (generateAwsSignatureV4 c (lit ''PUT'')
                       (lit ''/'' @ r2_bucketName r2 @ lit ''/'' @ du_key req)
                       (r2_accessKeyId r2) (r2_secretAccessKey r2) (r2_endpoint r2))
                     (\<lambda>authHeaders. Ret (headers @ authHeaders))
                else Ret headers) (\<lambda>headers.
         bindP (fetchP c \<lparr>hq_method = lit ''PUT'', hq_url = uploadUrl, hq_headers = headers,
                  hq_body = BytesBody requestBody\<rparr>) (\<lambda>uploadResponse.
         if \<not> hr_ok uploadResponse
         then Throw (Error (lit ''Upload failed: '' @ natToString 10 (hr_status uploadResponse) @ lit '' - ''
                @ hr_text uploadResponse))
         else Ret (res_ok [(lit ''imageId'', JStr (imageIdOf (du_key req)))] noOptions))))"

section \<open>Hexadecimal coding\<close>

lemma hexDigitValue_digitUnit: "d < 16 \<Longrightarrow> hexDigitValue (digitUnit d) = d"
proof -
  assume d: "d < 16"
  then have u: "unat (digitUnit d) = (if d < 10 then 48 + d else 87 + d)" by (simp add: unat_digitUnit)
  show ?thesis
  proof (cases "d < 10")
    case True
    then show ?thesis using u by (simp add: hexDigitValue_def digitUnit_digit)
  next
    case False
    with u d have "\<not> isDigit (digitUnit d)" "isLowerAlpha (digitUnit d)"
      by (simp_all add: isDigit_def isLowerAlpha_def word_le_nat_alt)
    with False u show ?thesis by (simp add: hexDigitValue_def)
  qed
qed

lemma parseHexByte_digits:
  "\<forall>d \<in> set ds. d < 16 \<Longrightarrow> parseHexByte (map digitUnit ds) = of_nat (radixValue 16 ds)"
proof -
  assume "\<forall>d \<in> set ds. d < 16"
  then have "foldl (\<lambda>acc u. acc * 16 + hexDigitValue u) n (map digitUnit ds)
      = foldl (\<lambda>acc d. acc * 16 + d) n ds" for n
    by (induction ds arbitrary: n) (auto simp: hexDigitValue_digitUnit)
  then show ?thesis by (simp add: parseHexByte_def radixValue_def)
qed

lemma hexByte_digits:
  "hexByte b = map digitUnit (replicate (2 - length (radixDigits 16 (unat b))) 0 @ radixDigits 16 (unat b))"
  by (simp add: hexByte_def padStart_def natToString_def digitUnit_def)

interpretation hex: block_codec hexByte parseHexByte 2
proof
  fix b :: "8 word"
  have "unat b < 16 ^ 2" using unsigned_less[of b, where 'a = nat] by simp
  then have "length (radixDigits 16 (unat b)) \<le> 2" by (intro length_radixDigits_le) auto
  then show "length (hexByte b) = 2" by (simp add: hexByte_digits)
  have "\<forall>d \<in> set (replicate (2 - length (radixDigits 16 (unat b))) 0 @ radixDigits 16 (unat b)). d < 16"
    by (auto dest: radixDigits_less[rotated])
  from parseHexByte_digits[OF this] show "parseHexByte (hexByte b) = b"
    by (simp add: hexByte_digits radixValue_radixDigits)
qed simp

lemma pairs_chunks: "length s \<le> 2 * n \<Longrightarrow> pairs s = hex.chunks n s"
proof (induction s arbitrary: n rule: pairs.induct)
  case (1 a b s)
  then show ?case by (cases n) auto
next
  case "2_1"
  then show ?case by (cases n) auto
next
  case "2_2"
  then show ?case by (cases n) auto
qed

lemma fromHex_toHex: "fromHex (toHex bs) = bs"
proof -
  have "length (toHex bs) = 2 * length bs" unfolding toHex_def by (rule hex.length_enc_all)
  then have "pairs (toHex bs) = hex.chunks (length bs) (toHex bs)" by (intro pairs_chunks) simp
  then show ?thesis using hex.decode_all[of bs "length bs"] by (simp add: fromHex_def toHex_def)
qed

section \<open>Properties\<close>

text \<open>
  The hexadecimal coding of digests loses nothing: it has two code units per byte, decoding
  gives the bytes back, and different byte strings have different codes.
\<close>

lemma hex_coding_lossless:
  "length (toHex bs) = 2 * length bs \<and> fromHex (toHex bs) = bs \<and> (toHex bs = toHex cs \<longleftrightarrow> bs = cs)"
proof -
  have "toHex bs = toHex cs \<Longrightarrow> bs = cs" unfolding toHex_def by (rule hex.enc_all_inj)
  then show ?thesis
    using fromHex_toHex[of bs] hex.length_enc_all[of bs] by (auto simp: toHex_def)
qed

text \<open>
  C38. The signing key is the one of the Signature V4 specification: the chain of keyed hashes
  over date, region, service and the terminator, on raw bytes; the passage of every
  intermediate key through hexadecimal text does not change it.
\<close>

theorem getSigningKey_is_hmac_chain:
  "getSigningKey x secretKey date region service =
     foldl (\<lambda>key part. x_hmac x key (utf8 part)) (utf8 (lit ''AWS4'' @ secretKey))
       [date, region, service, lit ''aws4_request'']"
  by (simp add: getSigningKey_def hmacSha256_def fromHex_toHex Let_def)

lemma signatureHeaders_authorization:
  "map_of (signatureHeaders x meth path accessKeyId secretAccessKey host t) (lit ''Authorization'') \<noteq> None"
  by (simp add: signatureHeaders_def Let_def)

text \<open>
  A direct upload with a complete configuration sends exactly one request: a \<open>PUT\<close> of
  the request body to the key under the configured bucket, with the validated content type and
  the length of the body. A 2xx answer gives 200 with the image identifier, which is the part
  of the key before the first dot, the identifier the presigned-URL handler announces for that
  file name; any other answer is thrown as an upload failure.
\<close>

lemma directUpload_puts_once:
  assumes "quiet w" "getR2Config c = Inr r2" "x_hostname (c_ext c) (r2_endpoint r2) = Inr host"
    and "\<And>req. x_fetch (c_ext c) req = Inr answer"
  shows "\<exists>put. run (directUpload c \<lparr>du_key = key, du_contentType = ct\<rparr> body) w =
      (if hr_ok answer then Done (res_ok [(lit ''imageId'', JStr (takeWhile (\<lambda>u. u \<noteq> 46) key))] noOptions)
       else Thrown (Error (lit ''Upload failed: '' @ natToString 10 (hr_status answer) @ lit '' - '' @ hr_text answer)),
       w\<lparr>w_sent := w_sent w @ [put]\<rparr>)
    \<and> hq_method put = lit ''PUT''
    \<and> hq_url put = r2_endpoint r2 @ lit ''/'' @ r2_bucketName r2 @ lit ''/'' @ key
    \<and> hq_body put = BytesBody body
    \<and> map_of (hq_headers put) (lit ''Content-Type'') = Some ct
    \<and> map_of (hq_headers put) (lit ''Content-Length'') = Some (natToString 10 (length body))
    \<and> (strIncludes (r2_endpoint r2) (lit ''cloudflarestorage.com'')
        \<longrightarrow> map_of (hq_headers put) (lit ''Authorization'') \<noteq> None)
    \<and> fst (run (generatePresignedUrl \<lparr>pr_contentType = ct, pr_fileName = key\<rparr>) w)
      = Done (res_ok [(lit ''imageId'', JStr (takeWhile (\<lambda>u. u \<noteq> 46) key)),
          (lit ''fields'', JObj [(lit ''key'', JStr key), (lit ''contentType'', JStr ct)])] noOptions)"
proof -
  define hs where "hs = (if strIncludes (r2_endpoint r2) (lit ''cloudflarestorage.com'')
    then signatureHeaders (c_ext c) (lit ''PUT'') (lit ''/'' @ r2_bucketName r2 @ lit ''/'' @ key) (r2_accessKeyId r2)
      (r2_secretAccessKey r2) host (w_now w) else [])"
  define put where "put = \<lparr>hq_method = lit ''PUT'', hq_url = r2_endpoint r2 @ lit ''/'' @ r2_bucketName r2 @ lit ''/'' @ key,
    hq_headers = [(lit ''Content-Type'', ct), (lit ''Content-Length'', natToString 10 (length body))] @ hs,
    hq_body = BytesBody body\<rparr>"
  have "run (directUpload c \<lparr>du_key = key, du_contentType = ct\<rparr> body) w =
      (if hr_ok answer then Done (res_ok [(lit ''imageId'', JStr (takeWhile (\<lambda>u. u \<noteq> 46) key))] noOptions)
       else Thrown (Error (lit ''Upload failed: '' @ natToString 10 (hr_status answer) @ lit '' - '' @ hr_text answer)),
       w\<lparr>w_sent := w_sent w @ [put]\<rparr>)"
    using assms
    by (simp add: directUpload_def generateAwsSignatureV4_def Let_def run_fetchP_quiet imageIdOf_def
        hd_splitOn put_def hs_def)
  moreover have "strIncludes (r2_endpoint r2) (lit ''cloudflarestorage.com'')
      \<Longrightarrow> map_of (hq_headers put) (lit ''Authorization'') \<noteq> None"
    by (simp add: put_def hs_def signatureHeaders_authorization)
  ultimately show ?thesis
    by (intro exI[of _ put]) (simp add: put_def generatePresignedUrl_def imageIdOf_def hd_splitOn)
qed

lemma sample_r2: "getR2Config sample_ctx = Inr
  \<lparr>r2_accessKeyId = lit ''ak'', r2_secretAccessKey = lit ''sk'', r2_bucketName = lit ''bucket'',
   r2_publicUrl = lit ''https://cdn'', r2_endpoint = lit ''https://x.r2.cloudflarestorage.com''\<rparr>"
  by (simp add: getR2Config_def isDev_def sample_ctx_def sample_env_def)

lemma sample_services [simp]:
  "x_hostname (c_ext sample_ctx) e = Inr e"
  "x_fetch (c_ext sample_ctx) r = Inr \<lparr>hr_status = 200, hr_text = [], hr_json = Some (JObj []), hr_headers = []\<rparr>"
  "w_sent (sample_world d) = []"
  by (simp_all add: sample_ctx_def sample_ext_def sample_world_def)

lemma directUpload_puts_once_witness:
  "\<exists>put. run (directUpload sample_ctx \<lparr>du_key = lit ''a.jpg'', du_contentType = lit ''image/jpeg''\<rparr> [1, 2])
       (sample_world sample_db)
     = (Done (res_ok [(lit ''imageId'', JStr (lit ''a''))] noOptions), (sample_world sample_db)\<lparr>w_sent := [put]\<rparr>)
   \<and> hq_body put = BytesBody [1, 2]"
proof -
  have "takeWhile (\<lambda>u. u \<noteq> 46) (lit ''a.jpg'') = lit ''a''" by (simp add: lit_def)
  then show ?thesis
    using directUpload_puts_once[OF _ sample_r2 _ sample_services(2), of "sample_world sample_db"
        "lit ''https://x.r2.cloudflarestorage.com''" "lit ''a.jpg''" "lit ''image/jpeg''" "[1, 2]"]
    by (auto simp: hr_ok_def)
qed

section \<open>The calendar strings\<close>

lemma dayFromYear_mono: "y \<le> z \<Longrightarrow> dayFromYear y \<le> dayFromYear z"
proof (induction "nat (z - y)" arbitrary: z)
  case 0
  then show ?case by simp
next
  case (Suc n)
  then have "dayFromYear y \<le> dayFromYear (z - 1)" by simp
  with dayFromYear_step[of "z - 1"] show ?case by simp
qed

lemma dayFromYear_next: "dayFromYear (y + 1) \<le> dayFromYear y + 367"
proof -
  define a b c a' b' c' where defs: "a = (y - 1969) div 4" "b = (y - 1901) div 100" "c = (y - 1601) div 400"
    "a' = (y + 1 - 1969) div 4" "b' = (y + 1 - 1901) div 100" "c' = (y + 1 - 1601) div 400"
  have "b \<le> b'" unfolding defs by (simp add: zdiv_mono1)
  moreover have "a' \<le> a + 1"
  proof -
    have "a' \<le> (y - 1969 + 4) div 4" unfolding defs by (simp add: zdiv_mono1)
    also have "\<dots> = a + 1" unfolding defs by (subst div_add_self2) simp_all
    finally show ?thesis .
  qed
  moreover have "c' \<le> c + 1"
  proof -
    have "c' \<le> (y - 1601 + 400) div 400" unfolding defs by (simp add: zdiv_mono1)
    also have "\<dots> = c + 1" unfolding defs by (subst div_add_self2) simp_all
    finally show ?thesis .
  qed
  moreover have "365 * (y + 1 - 1970) = 365 * (y - 1970) + 365" by simp
  ultimately show ?thesis unfolding dayFromYear_def defs(1-6)[symmetric] by linarith
qed

lemma monthDay_bounds:
  assumes "0 \<le> d" "d < sum_list ls + 31" "\<forall>l \<in> set ls. l \<le> 31" "monthDay ls m d = (m', d')"
  shows "m' \<le> m + length ls \<and> 1 \<le> d' \<and> d' \<le> 31"
  using assms
proof (induction ls m d rule: monthDay.induct)
  case (1 m d)
  then show ?case by auto
next
  case (2 l ls m d)
  show ?case
  proof (cases "d < l")
    case True
    with "2.prems" show ?thesis by auto
  next
    case False
    with "2.IH" "2.prems" show ?thesis by force
  qed
qed

lemma padNat_digits:
  assumes "n < 10 ^ k" "0 < k"
  shows "length (padNat k n) = k \<and> list_all isDigit (padNat k n)"
proof -
  have "length (radixDigits 10 n) \<le> k" using assms by (intro length_radixDigits_le) auto
  moreover have "isDigit (digitUnit d)" if "d \<in> set (radixDigits 10 n)" for d
    using that radixDigits_less[of 10 d n] by (simp add: digitUnit_digit)
  moreover have "isDigit 48" by (simp add: isDigit_def)
  ultimately show ?thesis
    by (auto simp: padNat_def padStart_def natToString_def list_all_iff)
qed

lemma stripDashes_digits: "list_all isDigit s \<Longrightarrow> stripDashes (s @ t) = s @ stripDashes t"
  by (induction s) (auto simp: stripDashes_def isDigit_def word_le_nat_alt)

lemma stripDashes_simps [simp]: "stripDashes [] = []" "stripDashes (45 # s) = stripDashes s"
  by (simp_all add: stripDashes_def)

lemma stripIso_digits: "list_all isDigit s \<Longrightarrow> stripIso (s @ t) = s @ stripIso t"
  by (induction s) (auto simp: isDigit_def word_le_nat_alt)

lemma div_less_bound: "r < 86400000 \<Longrightarrow> r div 3600000 < (100 :: int)"
  by simp

lemma toISOString_shape:
  assumes "0 \<le> t" "t < 253402300800000"
  obtains Y M D h m s ms where "toISOString t = Y @ lit ''-'' @ M @ lit ''-'' @ D @ lit ''T'' @ h @ lit '':''
      @ m @ lit '':'' @ s @ lit ''.'' @ ms @ lit ''Z''"
    and "map length [Y, M, D, h, m, s, ms] = [4, 2, 2, 2, 2, 2, 3]"
    and "list_all (list_all isDigit) [Y, M, D, h, m, s, ms]"
proof -
  define day where "day = t div msPerDay"
  define r where "r = t mod msPerDay"
  define y where "y = yearFrom 1970 day"
  have day: "0 \<le> day" "day < 2932897" using assms by (simp_all add: day_def msPerDay_def)
  have r: "0 \<le> r" "r < 86400000" by (simp_all add: r_def msPerDay_def)
  have y: "dayFromYear y \<le> day" "day < dayFromYear (y + 1)"
    using yearFrom_brackets[of 1970 day] day by (simp_all add: y_def dayFromYear_def)
  have "y < 10000"
  proof (rule ccontr)
    assume "\<not> y < 10000"
    then have "dayFromYear 10000 \<le> dayFromYear y" by (intro dayFromYear_mono) simp
    moreover have "dayFromYear 10000 = 2932897" by (simp add: dayFromYear_def)
    ultimately show False using y(1) day(2) by linarith
  qed
  obtain m d where md: "monthDay (monthLengths y) 1 (day - dayFromYear y) = (m, d)" by fastforce
  have "m \<le> 1 + length (monthLengths y) \<and> 1 \<le> d \<and> d \<le> 31"
    by (rule monthDay_bounds[OF _ _ _ md]) (use y dayFromYear_next[of y] in \<open>auto simp: monthLengths_def\<close>)
  moreover have "length (monthLengths y) = 12" by (simp add: monthLengths_def)
  ultimately have "m \<le> 13 \<and> 1 \<le> d \<and> d \<le> 31" by simp
  then have bounds: "nat y < 10 ^ 4" "m < 10 ^ 2" "nat d < 10 ^ 2" "nat (r div 3600000) < 10 ^ 2"
    "nat (r div 60000 mod 60) < 10 ^ 2" "nat (r div 1000 mod 60) < 10 ^ 2" "nat (r mod 1000) < 10 ^ 3"
    using \<open>y < 10000\<close> div_less_bound[OF r(2)] by (simp_all add: nat_less_iff)
  have "toISOString t = padNat 4 (nat y) @ lit ''-'' @ padNat 2 m @ lit ''-'' @ padNat 2 (nat d) @ lit ''T''
        @ padNat 2 (nat (r div 3600000)) @ lit '':'' @ padNat 2 (nat (r div 60000 mod 60))
        @ lit '':'' @ padNat 2 (nat (r div 1000 mod 60)) @ lit ''.'' @ padNat 3 (nat (r mod 1000)) @ lit ''Z''"
    using md by (simp add: toISOString_def Let_def day_def[symmetric] r_def[symmetric] y_def[symmetric])
  then show thesis
    by (rule that) (simp_all add: bounds[THEN padNat_digits] del: power_numeral)
qed

text \<open>
  The calendar strings of a signature fit together: for every time from 1970 to the year
  9999 the date is eight digits, and the time stamp is that date, the letter T, six digits and
  the letter Z, as Signature V4 asks of the credential scope and of \<open>x-amz-date\<close>.
\<close>

lemma amz_dates_fit:
  assumes "0 \<le> t" "t < 253402300800000"
  shows "length (amzDate t) = 8 \<and> list_all isDigit (amzDate t)
    \<and> (\<exists>hms. amzDateTime t = amzDate t @ lit ''T'' @ hms @ lit ''Z'' \<and> length hms = 6 \<and> list_all isDigit hms)"
proof -
  obtain Y M D h m s ms where iso: "toISOString t = Y @ lit ''-'' @ M @ lit ''-'' @ D @ lit ''T'' @ h @ lit '':''
      @ m @ lit '':'' @ s @ lit ''.'' @ ms @ lit ''Z''"
    and len: "map length [Y, M, D, h, m, s, ms] = [4, 2, 2, 2, 2, 2, 3]"
    and dig: "list_all (list_all isDigit) [Y, M, D, h, m, s, ms]"
    using toISOString_shape[OF assms] by metis
  have "take 10 (toISOString t) = Y @ lit ''-'' @ M @ lit ''-'' @ D"
    using len by (simp add: iso)
  then have "amzDate t = Y @ M @ D"
    using dig stripDashes_digits[of D "[]"]
    by (simp add: amzDate_def stripDashes_digits lit_def)
  moreover have "amzDateTime t = Y @ M @ D @ lit ''T'' @ (h @ m @ s) @ lit ''Z''"
    using dig len by (simp add: amzDateTime_def iso lit_def stripIso_digits)
  ultimately show ?thesis using len dig by (intro conjI exI[of _ "h @ m @ s"]) auto
qed

end
