(* ===== verification/Server.thy ===== *)
theory Server
  imports Upload "HOL-Library.Countable"
begin

text \<open>
  The HTTP application: \<open>apps/api/src/index.ts\<close> with the middlewares of \<open>middlewares/\<close>,
  \<open>utils/validation.ts\<close> and \<open>modules/auth/middleware.ts\<close>, the health check, and the routes of the
  auth and upload modules. Hono's documented conventions are part of the model: a middleware
  runs before the routes and passes on with \<open>next\<close>, and an \<open>Error\<close> thrown by a handler is
  given to \<open>onError\<close> where it is thrown, so that \<open>next\<close> does not throw it again. CORS headers
  are not modelled.
\<close>

record request =
  q_method :: jstring
  q_path :: jstring
  q_contentType :: "jstring option"
  q_authorization :: "jstring option"
  q_text :: jstring
  q_bytes :: "8 word list"
  q_query :: "(jstring \<times> jstring) list"

section \<open>Errors\<close>

definition errorHandler :: "ctx \<Rightarrow> exn \<Rightarrow> response" where
  "errorHandler c err = (case err of
       ZodError issues \<Rightarrow> res_validationError issues
     | _ \<Rightarrow>
        let message = errMessage (c_ext c) err in
        if isErrorInstance err \<and> strIncludes message (lit ''duplicate key'')
        then res_conflict (lit ''Resource already exists'') None
        else if isErrorInstance err
          \<and> (strIncludes message (lit ''connection'') \<or> strIncludes message (lit ''timeout''))
        then res_serviceUnavailable (Some (lit ''Database temporarily unavailable''))
        else if isDev c then res_internalError (Some (lit ''Internal error: '' @ message))
        else res_internalError None)"

definition notFoundHandler :: response where
  "notFoundHandler = res_notFound None"

definition withOnError :: "ctx \<Rightarrow> (world, exn, response) prog \<Rightarrow> (world, exn, response) prog" where
  "withOnError c p = catchP p (\<lambda>e. if isErrorInstance e then Ret (errorHandler c e) else Throw e)"

section \<open>Middlewares\<close>

definition bodyIssue :: "string \<Rightarrow> string \<Rightarrow> json" where
  "bodyIssue code message = JArr [JObj [(lit ''code'', JStr (lit code)), (lit ''message'', JStr (lit message)),
     (lit ''path'', JArr [JStr (lit ''body'')])]]"

definition MAX_BODY_SIZE :: nat where "MAX_BODY_SIZE = 1024 * 1024"

text \<open>
  \<open>json\<close>. \<open>JSON.parse\<close> throws nothing but a \<open>SyntaxError\<close>, so the branch for other errors is
  never taken.
\<close>

definition json :: "ctx \<Rightarrow> request \<Rightarrow> (world, exn, response) prog \<Rightarrow> (world, exn, response) prog" where
  "json c req continue =
    (let contentType = map_option (x_toLowerCase (c_ext c)) (q_contentType req) in
     if \<not> truthyOpt contentType \<or> \<not> strIncludes (the contentType) (lit ''application/json'') then continue
     else
     let rawBody = q_text req in
     if \<not> truthy rawBody \<or> trim rawBody = []
     then Ret (res_validationError (bodyIssue ''EMPTY_BODY'' ''Request body cannot be empty''))
     else if MAX_BODY_SIZE < length rawBody
     then Ret (res_validationError (bodyIssue ''BODY_TOO_LARGE'' ''Request body exceeds size limit (1MB)''))
     else (case x_jsonParse (c_ext c) rawBody of
         None \<Rightarrow> Ret (res_validationError (bodyIssue ''INVALID_JSON'' ''Invalid JSON format in request body''))
       | Some _ \<Rightarrow> continue))"

text \<open>
  \<open>validate\<close> and \<open>validateQuery\<close>. The validator library reads the body as JSON if the content
  type says so and validates an empty object otherwise.
\<close>

definition requestJson :: "ctx \<Rightarrow> request \<Rightarrow> exn + json" where
  "requestJson c req = (case q_contentType req of
       None \<Rightarrow> Inr (JObj [])
     | Some ct \<Rightarrow>
         if \<not> x_isJsonContent (c_ext c) ct then Inr (JObj [])
         else (case x_jsonParse (c_ext c) (q_text req) of
             None \<Rightarrow> Inl (Error (lit ''Malformed JSON in request body''))
           | Some j \<Rightarrow> Inr j))"

definition validated :: "ctx \<Rightarrow> 'a parsed \<Rightarrow> ('a \<Rightarrow> (world, exn, response) prog) \<Rightarrow> (world, exn, response) prog" where
  "validated c result k = (case result of
       Inl issues \<Rightarrow> Ret (res_validationError (x_issues (c_ext c) issues))
     | Inr data \<Rightarrow> k data)"

definition validate :: "ctx \<Rightarrow> (json option \<Rightarrow> 'a parsed) \<Rightarrow> request
    \<Rightarrow> ('a \<Rightarrow> (world, exn, response) prog) \<Rightarrow> (world, exn, response) prog" where
  "validate c schema req k = (case requestJson c req of
       Inl e \<Rightarrow> Throw e
     | Inr j \<Rightarrow> validated c (schema (Some j)) k)"

text \<open>
  The query as the validator sees it: a parameter that occurs once is its text, one that is
  repeated the array of its texts, which no text schema accepts.
\<close>

fun queryValue :: "jstring list \<Rightarrow> json" where
  "queryValue [v] = JStr v"
| "queryValue vs = JArr (map JStr vs)"

definition queryObject :: "(jstring \<times> jstring) list \<Rightarrow> fields" where
  "queryObject q = map (\<lambda>n. (n, queryValue (map snd (filter (\<lambda>p. fst p = n) q)))) (rev (remdups (rev (map fst q))))"

lemma queryObject_pair: "k \<noteq> k' \<Longrightarrow> queryObject [(k, v), (k', v')] = [(k, JStr v), (k', JStr v')]"
  by (simp add: queryObject_def)

definition validateQuery :: "ctx \<Rightarrow> (json option \<Rightarrow> 'a parsed) \<Rightarrow> request
    \<Rightarrow> ('a \<Rightarrow> (world, exn, response) prog) \<Rightarrow> (world, exn, response) prog" where
  "validateQuery c schema req k =
     validated c (schema (Some (JObj (queryObject (q_query req))))) k"

definition verifyAccessToken :: "ctx \<Rightarrow> jstring \<Rightarrow> (world, exn, jwt_payload) prog" where
  "verifyAccessToken c token = awaitW (\<lambda>w. (x_verify (c_ext c) token (JWT_SECRET (getEnv c)) (w_now w), w))"

text \<open>\<open>continue\<close> gets the user identifier that the source puts in the context.\<close>

definition requireAuth :: "ctx \<Rightarrow> request \<Rightarrow> (jstring \<Rightarrow> (world, exn, response) prog)
    \<Rightarrow> (world, exn, response) prog" where
  "requireAuth c req continue =
     bindP (getDb c) (\<lambda>_.
     case q_authorization req of
       None \<Rightarrow> Ret (res_missingToken None)
     | Some authHeader \<Rightarrow>
     if \<not> startsWith authHeader (lit ''Bearer '') then Ret (res_missingToken None)
     else
     let token = splitOn 0x20 authHeader ! 1 in
     catchP
       (bindP (verifyAccessToken c token) (\<lambda>decoded.
        bindP (sqlQuery (selectUser (jwt_sub decoded))) (\<lambda>user.
        if user = None then Ret (res_conflict (lit ''Profile required'') None)
        else continue (jwt_sub decoded))))
       (\<lambda>error.
        if isErrorInstance error \<and> strIncludes (errMessage (c_ext c) error) (lit ''expired'')
        then Ret (res_expiredToken None)
        else Ret (res_invalidToken None)))"

section \<open>Routes\<close>

definition checkHealth :: "ctx \<Rightarrow> (world, exn, response) prog" where
  "checkHealth c =
     bindP (checkDbHealth c) (\<lambda>dbHealth.
     case dbHealth of
       Some error \<Rightarrow> Ret (res_serviceUnavailable (Some (lit ''Database connection failed'')))
     | None \<Rightarrow> Ret (res_ok [(lit ''status'', JStr (lit ''healthy''))] noOptions))"

definition authRoute :: "ctx \<Rightarrow> request \<Rightarrow> (json option \<Rightarrow> 'a parsed) \<Rightarrow> ('a \<Rightarrow> auth_request)
    \<Rightarrow> (world, exn, response) prog" where
  "authRoute c req schema mk = validate c schema req (\<lambda>data. withOnError c (authHandler c (mk data)))"

definition authRoutes :: "ctx \<Rightarrow> request \<Rightarrow> int \<Rightarrow> (string \<times> (world, exn, response) prog) list" where
  "authRoutes c req year =
     [(''/auth/phone/otp'', authRoute c req otpRequestSchema PhoneOtp),
      (''/auth/phone/signup'', authRoute c req (phoneSignupSchema (c_ext c) year) PhoneSignup),
      (''/auth/phone/login'', authRoute c req phoneSignInSchema PhoneLogin),
      (''/auth/google'', authRoute c req oauthSignInSchema GoogleLogin),
      (''/auth/apple'', authRoute c req oauthSignInSchema AppleLogin),
      (''/auth/oauth/signup'', authRoute c req (oauthSignupSchema (c_ext c) year) OAuthSignup),
      (''/auth/token/refresh'', authRoute c req refreshTokensSchema TokenRefresh),
      (''/auth/logout'', authRoute c req logoutSchema Logout)]"

definition uploadRoutes :: "ctx \<Rightarrow> request \<Rightarrow> (string \<times> (world, exn, response) prog) list" where
  "uploadRoutes c req =
     [(''/upload/presigned-url'', requireAuth c req (\<lambda>user. withOnError c
         (validate c presignedUrlSchema req (\<lambda>v. withOnError c (generatePresignedUrl v))))),
      (''/upload/direct'', requireAuth c req (\<lambda>user. withOnError c
         (validateQuery c directUploadQuerySchema req (\<lambda>v. withOnError c (directUpload c v (q_bytes req))))))]"

definition route :: "ctx \<Rightarrow> request \<Rightarrow> (world, exn, response) prog" where
  "route c req =
     bindP now (\<lambda>t.
     if q_method req = lit ''GET'' \<and> q_path req = lit ''/health'' then checkHealth c
     else if q_method req = lit ''POST'' then
       (case find (\<lambda>(p, h). lit p = q_path req) (authRoutes c req (getFullYear t) @ uploadRoutes c req) of
          Some (p, h) \<Rightarrow> h
        | None \<Rightarrow> Ret notFoundHandler)
     else Ret notFoundHandler)"

definition app :: "ctx \<Rightarrow> request \<Rightarrow> (world, exn, response) prog" where
  "app c req = withOnError c (json c req (withOnError c (route c req)))"

section \<open>Every request is answered\<close>

text \<open>
  \<open>returns p\<close>: with a random source that keeps producing usable bytes, \<open>p\<close> ends, by
  returning or by throwing an \<open>Error\<close>, whatever the network does. \<open>errors_only\<close>: the libraries
  reject with instances of \<open>Error\<close>, as they document.
\<close>

definition returns :: "(world, exn, 'a) prog \<Rightarrow> bool" where
  "returns p \<longleftrightarrow> (\<forall>w. live (w_rand w) \<longrightarrow> fst (run p w) \<noteq> Hung
     \<and> (\<forall>e. fst (run p w) = Thrown e \<longrightarrow> isErrorInstance e) \<and> w_rand (snd (run p w)) = w_rand w)"

definition errors_only :: "ctx \<Rightarrow> bool" where
  "errors_only c \<longleftrightarrow>
     (\<forall>t s n e. x_verify (c_ext c) t s n = Inl e \<longrightarrow> isErrorInstance e)
   \<and> (\<forall>k i t n e. x_jwtVerify (c_ext c) k i t n = Inl e \<longrightarrow> isErrorInstance e)
   \<and> (\<forall>t e. x_decodeJwt (c_ext c) t = Inl e \<longrightarrow> isErrorInstance e)
   \<and> (\<forall>r e. x_fetch (c_ext c) r = Inl e \<longrightarrow> isErrorInstance e)
   \<and> (\<forall>u e. x_hostname (c_ext c) u = Inl e \<longrightarrow> isErrorInstance e)"

lemma returns_Ret: "returns (Ret a)"
  by (simp add: returns_def)

lemma returns_cong: "(\<And>w. live (w_rand w) \<Longrightarrow> run p w = run q w) \<Longrightarrow> returns q \<Longrightarrow> returns p"
  by (simp add: returns_def)

lemma returnsD:
  assumes "returns p" "live (w_rand w)" "run p w = (out, w')"
  shows "out \<noteq> Hung" "out = Thrown e \<Longrightarrow> isErrorInstance e" "w_rand w' = w_rand w"
  using assms by (auto simp: returns_def)

lemma returns_bind:
  assumes "returns p" "\<And>a. returns (k a)"
  shows "returns (bindP p k)"
  unfolding returns_def
proof (intro allI impI)
  fix w :: world assume w: "live (w_rand w)"
  obtain out w' where r: "run p w = (out, w')" by fastforce
  show "fst (run (bindP p k) w) \<noteq> Hung
     \<and> (\<forall>e. fst (run (bindP p k) w) = Thrown e \<longrightarrow> isErrorInstance e) \<and> w_rand (snd (run (bindP p k) w)) = w_rand w"
  proof (cases out)
    case (Done a)
    have "live (w_rand w')" using returnsD(3)[OF assms(1) w r] w by simp
    moreover obtain o2 w2 where r2: "run (k a) w' = (o2, w2)" by fastforce
    ultimately show ?thesis
      using returnsD[OF assms(2) _ r2] returnsD(3)[OF assms(1) w r] Done r by auto
  qed (use r returnsD[OF assms(1) w r] in auto)
qed

lemma returns_try: "returns p \<Longrightarrow> returns (tryP p)"
  unfolding returns_def by (fastforce split: outcome.splits prod.splits)

lemma returns_catch: "returns p \<Longrightarrow> (\<And>e. returns (h e)) \<Longrightarrow> returns (catchP p h)"
  unfolding catchP_def by (intro returns_bind returns_try) (auto split: sum.splits simp: returns_def)

lemma returns_rethrow: "returns p \<Longrightarrow> (\<And>a. returns (k a)) \<Longrightarrow> (\<And>e. isErrorInstance e \<Longrightarrow> returns (h e))
    \<Longrightarrow> returns (bindP (tryP p) (case_sum h k))"
proof -
  assume p: "returns p" and k: "\<And>a. returns (k a)" and h: "\<And>e. isErrorInstance e \<Longrightarrow> returns (h e)"
  have "returns (bindP (tryP p) (case_sum (\<lambda>e. if isErrorInstance e then h e else Ret undefined) k))"
    by (intro returns_bind returns_try p) (auto simp: k h returns_Ret split: sum.splits)
  moreover have "run (bindP (tryP p) (case_sum h k)) w
      = run (bindP (tryP p) (case_sum (\<lambda>e. if isErrorInstance e then h e else Ret undefined) k)) w"
    if "live (w_rand w)" for w
  proof -
    obtain out w' where r: "run p w = (out, w')" by fastforce
    then show ?thesis using returnsD(2)[OF p that r] by (cases out) auto
  qed
  ultimately show ?thesis by (rule returns_cong[rotated])
qed

lemma returns_if: "returns p \<Longrightarrow> returns q \<Longrightarrow> returns (if b then p else q)"
  by simp

lemma w_rand_afterIo [simp]: "w_rand (afterIo w) = w_rand w"
  by (simp add: afterIo_def)

lemma returns_effects:
  "returns (Ret a)" "isErrorInstance e \<Longrightarrow> returns (Throw e)" "returns (getDb c)" "returns now" "returns (minutesAgo m)"
  "returns (minutesFromNow m)" "returns (daysFromNow m)" "returns createId" "returns (waitUntil t)"
  "returns generateRefreshToken" "returns (generateAccessToken c u)" "returns (sqlQuery q)"
  "returns (sqlExec u')" "returns (sqlCheck v)" "returns (recentlyRefreshed l)"
  by (auto simp: returns_def getDb_def Let_def run_sqlQuery run_sqlExec run_sqlCheck
      recentlyRefreshed_def split: option.splits sum.splits)

lemma returns_fetchP: "errors_only c \<Longrightarrow> returns (fetchP c r)"
  by (auto simp: returns_def errors_only_def fetchP_def Let_def split: option.splits sum.splits)

lemma returns_generateOTP: "returns generateOTP"
  unfolding returns_def using run_generateOTP by fastforce

lemma returns_verifyOAuthJWT: "errors_only c \<Longrightarrow> returns (verifyOAuthJWT c t cfg e)"
  by (auto simp: returns_def errors_only_def verifyOAuthJWT_def split: sum.splits option.splits)

lemma returns_verifyAccessToken: "errors_only c \<Longrightarrow> returns (verifyAccessToken c t)"
  by (auto simp: returns_def errors_only_def verifyAccessToken_def split: sum.splits)

lemmas returns_base = returns_effects returns_generateOTP returns_verifyOAuthJWT returns_verifyAccessToken
  returns_fetchP returns_try

lemma returns_issueTokens: "returns (issueTokens c i di)"
  unfolding issueTokens_def by (rule returns_base returns_bind)+

lemma returns_verifyOTPCode: "returns (verifyOTPCode c ph code)"
  unfolding verifyOTPCode_def Let_def
  by (rule returns_base returns_bind returns_if | (split option.split, intro conjI allI impI))+

lemmas returns_calls = returns_base returns_issueTokens returns_verifyOTPCode returns_rethrow
  returns_bind returns_if

lemma returns_phone:
  "returns (requestOTP c r1)" "returns (phoneSignup c r2)" "returns (phoneSignIn c r3)"
  "returns (refreshTokens c r4)" "returns (logout c r4)"
  unfolding requestOTP_def phoneSignup_def phoneSignIn_def refreshTokens_def logout_def Let_def
  by (assumption | rule returns_calls | (split option.split, intro conjI allI impI)
      | (split sum.split, intro conjI allI impI) | (split otp_result.split, intro conjI allI impI))+

lemma returns_oauth: "errors_only c \<Longrightarrow> returns (oauthSignIn p c r1)" "returns (oauthSignup c r2)"
  unfolding oauthSignIn_def oauthSignup_def Let_def
  by (assumption | rule returns_calls | (split option.split, intro conjI allI impI)
      | (split sum.split, intro conjI allI impI))+

lemma returns_authHandler: "errors_only c \<Longrightarrow> returns (authHandler c r)"
  by (cases r) (simp_all add: googleSignIn_def appleSignIn_def returns_phone returns_oauth)

lemma returns_withOnError: "returns p \<Longrightarrow> returns (withOnError c p)"
  unfolding withOnError_def catchP_def
  by (rule returns_rethrow returns_base | assumption | simp)+

lemma returns_validated: "(\<And>v. returns (k v)) \<Longrightarrow> returns (validated c r k)"
  by (auto simp: validated_def returns_base split: sum.splits)

lemma returns_validate: "(\<And>v. returns (k v)) \<Longrightarrow> returns (validate c s req k)"
  by (auto simp: validate_def requestJson_def returns_base returns_validated split: sum.splits option.splits if_splits)

lemma returns_validateQuery: "(\<And>v. returns (k v)) \<Longrightarrow> returns (validateQuery c s req k)"
  by (simp add: validateQuery_def returns_validated)

lemma returns_requireAuth: "errors_only c \<Longrightarrow> (\<And>u. returns (k u)) \<Longrightarrow> returns (requireAuth c req k)"
  unfolding requireAuth_def Let_def
  by (assumption | rule returns_catch returns_base returns_bind returns_if
      | (split option.split, intro conjI allI impI))+

lemma returns_signature: "errors_only c \<Longrightarrow> returns (generateAwsSignatureV4 c m p a s e)"
  by (auto simp: generateAwsSignatureV4_def returns_def errors_only_def split: sum.splits)

lemma getR2Config_error: "getR2Config c = Inl e \<Longrightarrow> isErrorInstance e"
  by (auto simp: getR2Config_def Let_def split: if_splits)

lemma returns_upload: "returns (generatePresignedUrl v)" "errors_only c \<Longrightarrow> returns (directUpload c v' b)"
proof -
  show "returns (generatePresignedUrl v)" by (simp add: generatePresignedUrl_def Let_def returns_base)
  assume "errors_only c"
  then show "returns (directUpload c v' b)"
    unfolding directUpload_def Let_def
    by (auto intro!: returns_bind returns_base returns_signature dest: getR2Config_error split: sum.splits)
qed

lemma returns_checkHealth: "returns (checkHealth c)"
  unfolding checkHealth_def checkDbHealth_def
  by (rule returns_catch returns_base returns_bind | (split option.split, intro conjI allI impI))+

lemma returns_route:
  assumes "errors_only c"
  shows "returns (route c req)"
proof -
  have "returns h" if "(p, h) \<in> set (authRoutes c req year @ uploadRoutes c req)" for p h year
    using that assms
    by (auto simp: authRoutes_def uploadRoutes_def authRoute_def simp del: authHandler.simps
        intro!: returns_validate returns_validateQuery returns_withOnError returns_authHandler
          returns_requireAuth returns_upload)
  then show ?thesis
    unfolding route_def
    by (auto intro!: returns_bind returns_base returns_checkHealth split: option.splits prod.splits
        dest!: find_Some_set)
qed

lemma returns_json: "returns p \<Longrightarrow> returns (json c req p)"
  unfolding json_def Let_def by (auto intro!: returns_base split: option.splits)

text \<open>
  C14. Every request is answered: whatever its method, path, headers and body, whatever the
  database and the network do, and whatever errors the handlers and libraries throw, the
  application ends with a response, as long as the random source keeps producing bytes below
  250 and the libraries reject with instances of \<open>Error\<close> only.
\<close>

theorem app_always_answers:
  assumes "live (w_rand w)" "errors_only c"
  shows "\<exists>resp w'. run (app c req) w = (Done resp, w')"
proof -
  let ?p = "json c req (withOnError c (route c req))"
  have "returns ?p" by (intro returns_json returns_withOnError returns_route assms(2))
  with assms(1) have p: "fst (run ?p w) \<noteq> Hung" "\<And>e. fst (run ?p w) = Thrown e \<Longrightarrow> isErrorInstance e"
    by (simp_all add: returns_def)
  then show ?thesis
    unfolding app_def withOnError_def
    by (cases "run ?p w"; cases "fst (run ?p w)") (auto simp: withOnError_def)
qed

lemma errors_only_sample: "errors_only sample_ctx"
  by (simp add: errors_only_def sample_ctx_def sample_ext_def)

theorem app_always_answers_witness:
  "\<exists>resp w'. run (app sample_ctx \<lparr>q_method = lit ''POST'', q_path = lit ''/auth/phone/otp'', q_contentType = None,
     q_authorization = None, q_text = [], q_bytes = [], q_query = []\<rparr>) (sample_world sample_db) = (Done resp, w')"
  by (rule app_always_answers[OF live_sample errors_only_sample])

section \<open>What the whole server keeps\<close>

locale server_statements = auth_statements +
  assumes keeps_deleteAuth: "\<And>d i. J d \<Longrightarrow> J (deleteAuth i d) \<and> S d (deleteAuth i d)"
begin

lemma ok_Ret_Throw: "ok (Ret a)" "ok (Throw e)"
  by simp_all

lemma withOnError_keeps: "ok p \<Longrightarrow> ok (withOnError c p)"
  unfolding withOnError_def by (intro guar_catchP) auto

lemma validated_keeps: "(\<And>v. ok (k v)) \<Longrightarrow> ok (validated c r k)"
  by (auto simp: validated_def split: sum.splits)

lemma validate_keeps:
  "(\<And>v. ok (k v)) \<Longrightarrow> ok (validate c s req k)" "(\<And>v. ok (k v)) \<Longrightarrow> ok (validateQuery c s req k)"
  by (auto simp: validate_def validateQuery_def intro: validated_keeps split: sum.splits)

lemma verifyAccessToken_keeps: "(\<And>v. ok (k v)) \<Longrightarrow> ok (bindP (verifyAccessToken c t) k)"
  unfolding verifyAccessToken_def by (intro guar_bindP guar_awaitW) (auto simp: rel_refl)

lemma requireAuth_keeps: "(\<And>u. ok (k u)) \<Longrightarrow> ok (requireAuth c req k)"
  unfolding requireAuth_def Let_def
  by (auto intro!: getDb_keeps guar_catchP verifyAccessToken_keeps query_keeps split: option.splits)

lemma checkHealth_keeps: "ok (checkHealth c)"
  unfolding checkHealth_def checkDbHealth_def
  by (intro guar_bindP guar_catchP getDb_keeps query_keeps) (auto split: option.splits)

lemma signature_keeps: "(\<And>hs. ok (k hs)) \<Longrightarrow> ok (bindP (generateAwsSignatureV4 c m p a s e) k)"
  unfolding generateAwsSignatureV4_def bindP_assoc by (intro pure_keeps) (auto split: sum.splits)

lemma directUpload_keeps: "ok (directUpload c v b)"
  unfolding directUpload_def Let_def
  by (auto simp: bindP_assoc intro!: signature_keeps fetchP_keeps split: sum.splits)

lemma route_keeps: "ok (route c req)"
proof -
  have "ok h" if "(p, h) \<in> set (authRoutes c req year @ uploadRoutes c req)" for p h year
    using that
    by (auto simp: authRoutes_def uploadRoutes_def authRoute_def generatePresignedUrl_def Let_def
        simp del: authHandler.simps
        intro!: validate_keeps withOnError_keeps authHandler_keeps requireAuth_keeps directUpload_keeps)
  then show ?thesis
    unfolding route_def
    by (auto intro!: pure_keeps checkHealth_keeps split: option.splits prod.splits dest!: find_Some_set)
qed

lemma app_keeps: "ok (app c req)"
  unfolding app_def json_def Let_def
  by (auto intro!: withOnError_keeps route_keeps split: option.splits)

lemma runTask_keeps: "ok (runTask c t)"
proof (cases t)
  case (SendOtpTask ph code)
  then show ?thesis by (auto simp: sendOTP_def intro!: guar_catchP fetchP_keeps split: option.splits)
next
  case (DeleteAuthTask i)
  have "ok (bindP (sqlExec (\<lambda>_. deleteAuth i)) Ret)"
    by (intro exec_keeps keeps_deleteAuth) auto
  with DeleteAuthTask show ?thesis by (simp add: bindP_Ret)
next
  case (WelcomeEmailTask to' username)
  then show ?thesis
    by (auto simp: sendEmail_def providerSend_def split: sum.splits email_provider.splits
        intro!: fetchP_keeps guar_awaitW same_db)
qed

theorem server_keeps:
  assumes "sys_step\<^sup>*\<^sup>* (w, map (\<lambda>(c, r). bindP (app c r) (\<lambda>_. Ret ())) reqs @ map (\<lambda>(c, t). runTask c t) tasks) (w', ps)"
    and "J (w_db w)"
  shows "J (w_db w') \<and> S (w_db w) (w_db w')"
proof -
  have "list_all (guar (db_prop J) (db_rel S))
      (map (\<lambda>(c, r). bindP (app c r) (\<lambda>_. Ret ())) reqs @ map (\<lambda>(c, t). runTask c t) tasks)"
    by (auto simp: list_all_iff runTask_keeps intro!: guar_bindP app_keeps)
  from worlds.system_keeps[OF assms(1) this] assms(2) show ?thesis
    by (simp add: db_prop_def db_rel_def)
qed

end

lemma otps_ok_deleteAuth: "otps_ok d \<Longrightarrow> otps_ok (deleteAuth i d)"
  by (simp add: otps_ok_def selectOtp_def deleteAuth_def)

interpretation server: server_statements "\<lambda>d. db_ok d \<and> otps_ok d" "\<lambda>d d'. True"
proof unfold_locales
  fix d d0 :: db and r p
  assume "db_ok d \<and> otps_ok d" "db_ok d0 \<and> otps_ok d0" "selectOtp p d0 = Some r" "o_attempts r < OTP_MAX_ATTEMPTS"
  then show "(db_ok (updateOtpAttempts p (o_attempts r + 1) d) \<and> otps_ok (updateOtpAttempts p (o_attempts r + 1) d)) \<and> True"
    using codes.keeps_updateOtpAttempts by auto
qed (auto simp: otps_ok_deleteAuth intro: records.keeps_insertAuth[THEN conjunct1] codes.keeps_insertAuth[THEN conjunct1]
    records.keeps_updateAuthEmail[THEN conjunct1] codes.keeps_updateAuthEmail[THEN conjunct1]
    records.keeps_insertUser[THEN conjunct1] codes.keeps_insertUser[THEN conjunct1]
    records.keeps_insertToken[THEN conjunct1] codes.keeps_insertToken[THEN conjunct1]
    records.keeps_rotateToken[THEN conjunct1] codes.keeps_rotateToken[THEN conjunct1]
    codes.keeps_upsertOtp[THEN conjunct1] codes.keeps_deleteOtp[THEN conjunct1]
    codes.keeps_revokeToken[THEN conjunct1])

text \<open>
  C5. The database stays consistent: while any number of requests to any route and any
  background tasks are being served together, in every interleaving of their statements and
  with any of them failing, the keys stay unique, every profile and every session belongs to
  an account, and every stored code is six digits with at most three failed attempts.
\<close>

theorem server_keeps_database:
  assumes "sys_step\<^sup>*\<^sup>* (w, map (\<lambda>(c, r). bindP (app c r) (\<lambda>_. Ret ())) reqs @ map (\<lambda>(c, t). runTask c t) tasks) (w', ps)"
    and "db_ok (w_db w)" "otps_ok (w_db w)"
  shows "db_ok (w_db w') \<and> otps_ok (w_db w')"
  using server.server_keeps[OF assms(1)] assms(2,3) by blast

theorem server_keeps_database_witness:
  "\<exists>w' ps. sys_step\<^sup>*\<^sup>* (sample_world sample_db, [runTask sample_ctx (DeleteAuthTask (lit ''u1''))]) (w', ps)
     \<and> auth (w_db w') = [] \<and> db_ok (w_db w') \<and> otps_ok (w_db w')"
proof -
  let ?p = "runTask sample_ctx (DeleteAuthTask (lit ''u1''))"
  have st: "sys_step\<^sup>*\<^sup>* (sample_world sample_db, [?p])
      ((sample_world sample_db)\<lparr>w_db := deleteAuth (lit ''u1'') sample_db\<rparr>, [Ret ()])"
    by (intro run_alone_done) (simp add: run_serving[OF sample_serving])
  then show ?thesis
    using server_keeps_database[of "sample_world sample_db" "[]" "[(sample_ctx, DeleteAuthTask (lit ''u1''))]"]
    by (intro exI conjI) (auto simp: deleteAuth_def)
qed

section \<open>Authorisation\<close>

definition bearerToken :: "request \<Rightarrow> jstring option" where
  "bearerToken req = (case q_authorization req of
       None \<Rightarrow> None
     | Some h \<Rightarrow> if startsWith h (lit ''Bearer '') then Some (splitOn 0x20 h ! 1) else None)"

definition authorised :: "ctx \<Rightarrow> request \<Rightarrow> world \<Rightarrow> bool" where
  "authorised c req w \<longleftrightarrow> (\<exists>t p. bearerToken req = Some t
     \<and> x_verify (c_ext c) t (JWT_SECRET (getEnv c)) (w_now w) = Inr p \<and> selectUser (jwt_sub p) (w_db w) \<noteq> None)"

lemma run_verifyAccessToken:
  "run (verifyAccessToken c t) w =
     (case x_verify (c_ext c) t (JWT_SECRET (getEnv c)) (w_now w) of Inl e \<Rightarrow> Thrown e | Inr p \<Rightarrow> Done p, w)"
  by (auto simp: verifyAccessToken_def split: sum.splits)

lemma run_requireAuth:
  assumes "serving c w"
  shows "run (requireAuth c req k) w = (case bearerToken req of
       None \<Rightarrow> (Done (res_missingToken None), w)
     | Some t \<Rightarrow> (case x_verify (c_ext c) t (JWT_SECRET (getEnv c)) (w_now w) of
         Inl e \<Rightarrow> (Done (if isErrorInstance e \<and> strIncludes (errMessage (c_ext c) e) (lit ''expired'')
                  then res_expiredToken None else res_invalidToken None), w)
       | Inr p \<Rightarrow> if selectUser (jwt_sub p) (w_db w) = None
           then (Done (res_conflict (lit ''Profile required'') None), w)
           else (case run (k (jwt_sub p)) w of
             (Thrown e, w') \<Rightarrow> (Done (if isErrorInstance e \<and> strIncludes (errMessage (c_ext c) e) (lit ''expired'')
                  then res_expiredToken None else res_invalidToken None), w')
           | r \<Rightarrow> r)))"
  by (auto simp: requireAuth_def bearerToken_def Let_def run_verifyAccessToken run_serving[OF assms]
      split: option.splits sum.splits prod.splits outcome.splits)

lemma requireAuth_refuses:
  assumes "serving c w" "\<not> authorised c req w"
  shows "\<exists>resp. run (requireAuth c req k) w = (Done resp, w) \<and> r_status resp \<in> {401, 409}"
proof (cases "bearerToken req")
  case None
  then show ?thesis by (simp add: run_requireAuth[OF assms(1)] res_defs)
next
  case (Some t)
  then show ?thesis
    using assms(2)
    by (cases "x_verify (c_ext c) t (JWT_SECRET (getEnv c)) (w_now w)")
      (auto simp: run_requireAuth[OF assms(1)] authorised_def res_defs)
qed

lemma run_route_upload:
  assumes "q_method req = lit ''POST''"
  shows "q_path req = lit ''/upload/direct'' \<Longrightarrow> \<exists>k. run (route c req) w = run (requireAuth c req k) w"
    and "q_path req = lit ''/upload/presigned-url'' \<Longrightarrow> \<exists>k. run (route c req) w = run (requireAuth c req k) w"
  using assms by (auto simp: route_def authRoutes_def uploadRoutes_def)

text \<open>
  C21. Uploads need a user: a request to an upload route without a bearer token that verifies
  for a user with a profile is answered with 401, 409 or, for a bad JSON body, 422, and changes
  nothing: in particular nothing is sent to the object store.
\<close>

theorem upload_needs_user:
  assumes "serving c w" "q_method req = lit ''POST''"
    and "q_path req = lit ''/upload/direct'' \<or> q_path req = lit ''/upload/presigned-url''"
    and "\<not> authorised c req w"
  shows "\<exists>resp. run (app c req) w = (Done resp, w) \<and> r_status resp \<in> {401, 409, 422}"
proof -
  obtain k where "run (route c req) w = run (requireAuth c req k) w"
    using run_route_upload[OF assms(2)] assms(3) by blast
  with requireAuth_refuses[OF assms(1,4)] obtain resp where
    "run (route c req) w = (Done resp, w)" "r_status resp \<in> {401, 409}" by metis
  moreover have "r_status (res_validationError d) = 422" for d
    by (simp add: res_validationError_def res_err_def)
  ultimately show ?thesis
    by (auto simp: app_def withOnError_def json_def Let_def split: option.splits)
qed

theorem upload_needs_user_witness:
  "\<exists>resp. run (app sample_ctx \<lparr>q_method = lit ''POST'', q_path = lit ''/upload/direct'', q_contentType = None,
       q_authorization = None, q_text = [], q_bytes = [], q_query = []\<rparr>) (sample_world sample_db)
     = (Done resp, sample_world sample_db) \<and> r_status resp \<in> {401, 409, 422}"
  by (rule upload_needs_user) (simp_all add: authorised_def bearerToken_def)

text \<open>
  The behaviour of \<open>sign\<close> and \<open>verify\<close> of hono/jwt: a token verifies with the secret it was
  signed with, from its issue time until its expiry; afterwards verification fails with a
  message that says so. A compact token contains no blank.
\<close>

definition jwt_laws :: "ext \<Rightarrow> bool" where
  "jwt_laws x \<longleftrightarrow> (\<forall>p s n. x_verify x (x_sign x p s) s n =
      (if n div 1000 < jwt_iat p then Inl (Error (x_sign x p s @ lit '' issued in the future''))
       else if jwt_exp p \<le> n div 1000 then Inl (Error (lit ''token ('' @ x_sign x p s @ lit '') expired''))
       else Inr p))
   \<and> (\<forall>p s. 0x20 \<notin> set (x_sign x p s))"

lemma bearerToken_issued:
  assumes "0x20 \<notin> set t" "q_authorization req = Some (lit ''Bearer '' @ t)"
  shows "bearerToken req = Some t"
proof -
  have "splitOn 0x20 t = [t]" using assms(1)
  proof (induction t)
    case (Cons u t)
    then show ?case by auto
  qed simp
  then have "splitOn 0x20 (lit ''Bearer '' @ t) ! 1 = t" by (simp add: lit_def)
  then show ?thesis using assms(2) by (simp add: bearerToken_def)
qed

text \<open>
  C25. An access token lasts thirty minutes: presented as a bearer token, the token issued for
  an account with a profile at time \<open>t\<close> lets the request through as that account up to and not
  including the second thirty minutes later, and gets \<open>EXPIRED_TOKEN\<close> from then on.
\<close>

theorem accessToken_lifetime:
  assumes "jwt_laws (c_ext c)" "serving c w" "t \<le> w_now w"
    and "q_authorization req = Some (lit ''Bearer '' @ accessTokenAt c i t)"
    and "selectUser i (w_db w) \<noteq> None"
  shows "run (requireAuth c req (\<lambda>u. Ret (reply u))) w =
     (Done (if w_now w div 1000 < t div 1000 + 1800 then reply i else res_expiredToken None), w)"
proof -
  have law: "x_verify (c_ext c) (accessTokenAt c i t) (JWT_SECRET (getEnv c)) (w_now w) =
     (if w_now w div 1000 < t div 1000 + 1800
      then Inr \<lparr>jwt_sub = i, jwt_iat = t div 1000, jwt_exp = t div 1000 + 1800\<rparr>
      else Inl (Error (lit ''token ('' @ accessTokenAt c i t @ lit '') expired'')))"
    using assms(1,3) zdiv_mono1[of t "w_now w" 1000] by (simp add: jwt_laws_def accessTokenAt_def)
  have "bearerToken req = Some (accessTokenAt c i t)"
    using assms(1,4) by (intro bearerToken_issued) (auto simp: jwt_laws_def accessTokenAt_def)
  moreover have "strIncludes (lit ''token ('' @ z @ lit '') expired'') (lit ''expired'')" for z
    unfolding strIncludes_iff
    by (intro exI[of _ "lit ''token ('' @ z @ lit '') ''"] exI[of _ "[]"]) (simp add: lit_def)
  ultimately show ?thesis
    using assms(5) by (auto simp: run_requireAuth[OF assms(2)] law)
qed

text \<open>A token format that satisfies the laws: the number of the payload in a fixed enumeration, in unary.\<close>

definition unary_sign :: "jwt_payload \<Rightarrow> jstring \<Rightarrow> jstring" where
  "unary_sign p s = replicate (to_nat (jwt_sub p, jwt_iat p, jwt_exp p)) 120"

definition unary_verify :: "jstring \<Rightarrow> jstring \<Rightarrow> timestamp \<Rightarrow> exn + jwt_payload" where
  "unary_verify tok s n = (case from_nat (length tok) of (sub, iat, ex) \<Rightarrow>
     if n div 1000 < iat then Inl (Error (tok @ lit '' issued in the future''))
     else if ex \<le> n div 1000 then Inl (Error (lit ''token ('' @ tok @ lit '') expired''))
     else Inr \<lparr>jwt_sub = sub, jwt_iat = iat, jwt_exp = ex\<rparr>)"

definition unary_ctx :: ctx where
  "unary_ctx = sample_ctx\<lparr>c_ext := (c_ext sample_ctx)\<lparr>x_sign := unary_sign, x_verify := unary_verify\<rparr>\<rparr>"

lemma unary_laws: "jwt_laws (c_ext unary_ctx)"
  by (simp add: jwt_laws_def unary_ctx_def unary_verify_def unary_sign_def)

lemma unary_serving: "serving unary_ctx (sample_world d)"
  by (simp add: serving_def quiet_def connected_def unary_ctx_def sample_ctx_def sample_env_def)

theorem accessToken_lifetime_witness:
  "run (requireAuth unary_ctx \<lparr>q_method = lit ''POST'', q_path = lit ''/upload/direct'', q_contentType = None,
       q_authorization = Some (lit ''Bearer '' @ accessTokenAt unary_ctx (lit ''u1'') 999000),
       q_text = [], q_bytes = [], q_query = []\<rparr>
     (\<lambda>u. Ret (res_ok [(lit ''user'', JStr u)] noOptions))) (sample_world sample_db)
   = (Done (res_ok [(lit ''user'', JStr (lit ''u1''))] noOptions), sample_world sample_db)"
  using accessToken_lifetime[OF unary_laws unary_serving, of 999000 sample_db]
  by (simp add: unary_ctx_def)

text \<open>
  An outage of the database looks like a bad token: when the lookup of the user fails, a
  request with a valid access token is answered 401 \<open>INVALID_TOKEN\<close>, the answer to a forged
  token, although the error handler has an answer of its own for database failures.
\<close>

lemma database_failure_reported_as_bad_token:
  assumes "connected c w" "bearerToken req = Some t"
    and "x_verify (c_ext c) t (JWT_SECRET (getEnv c)) (w_now w) = Inr p"
    and "io_fault (nextIo w) = Some m" "\<not> strIncludes m (lit ''expired'')"
  shows "run (requireAuth c req k) w = (Done (res_invalidToken None), afterIo w)"
  using assms
  by (auto simp: requireAuth_def bearerToken_def run_getDb_connected run_verifyAccessToken run_sqlQuery Let_def
      split: option.splits if_splits)

end
