(* ===== verification/ClientStore.thy ===== *)
theory ClientStore
  imports Schemas
begin

text \<open>
  The state of the mobile application: the authentication store of
  \<open>packages/auth/expo/src/store.ts\<close>, the secure storage it is persisted in, the logger and the
  device description of \<open>packages/utils/expo/src\<close>, and the world the client code runs in.

  \<open>'s\<close> is the state of the server and of the network as the client sees them; what they do with
  a request is a parameter (\<open>cx_send\<close>). The persistence middleware is taken as documented: every
  change of the store hands the persisted part of the state to the storage, and the writes reach
  the storage in the order they were issued (\<open>cl_writes\<close>), after the code that issued them.
\<close>

section \<open>The logger\<close>

text \<open>
  A value that is logged: an \<open>Error\<close> with its message, or a plain value. \<open>toText\<close> is
  \<open>String(v)\<close>, which formats numbers and objects.
\<close>

datatype js_value = ErrorValue jstring | PlainValue json

type_synonym details = "(jstring \<times> js_value option) list"

definition getErrorMessage :: "(json \<Rightarrow> jstring) \<Rightarrow> js_value \<Rightarrow> jstring" where
  "getErrorMessage toText error = (case error of
       ErrorValue m \<Rightarrow> m
     | PlainValue (JStr s) \<Rightarrow> s
     | PlainValue (JNum q) \<Rightarrow> lit ''Error '' @ toText (JNum q)
     | PlainValue (JObj fs) \<Rightarrow>
         (case map_of fs (lit ''message'') of Some m \<Rightarrow> toText m | None \<Rightarrow> toText (JObj fs))
     | PlainValue v \<Rightarrow> toText v)"

definition formatDetails :: "(json \<Rightarrow> jstring) \<Rightarrow> details option \<Rightarrow> details" where
  "formatDetails toText details = (case details of
       None \<Rightarrow> []
     | Some ds \<Rightarrow> map (\<lambda>(key, value).
         case value of
           Some v \<Rightarrow> if key = lit ''error'' then (key, Some (PlainValue (JStr (getErrorMessage toText v))))
                     else (key, Some v)
         | None \<Rightarrow> (key, None)) ds)"

datatype log_level = DebugLevel | WarnLevel | ErrorLevel

datatype console_line = ConsoleLine log_level jstring "details option"

definition consoleLine :: "(json \<Rightarrow> jstring) \<Rightarrow> log_level \<Rightarrow> jstring \<Rightarrow> details option \<Rightarrow> console_line" where
  "consoleLine toText level message details =
     (if details \<noteq> None \<and> 0 < length (the details)
      then ConsoleLine level message (Some (formatDetails toText details))
      else ConsoleLine level message None)"

definition logger_debug :: "(json \<Rightarrow> jstring) \<Rightarrow> bool \<Rightarrow> jstring \<Rightarrow> details option \<Rightarrow> console_line list" where
  "logger_debug toText dev message details =
     (if dev then [consoleLine toText DebugLevel message details] else [])"

definition logger_warn :: "(json \<Rightarrow> jstring) \<Rightarrow> bool \<Rightarrow> jstring \<Rightarrow> details option \<Rightarrow> console_line list" where
  "logger_warn toText dev message details =
     (if dev then [consoleLine toText WarnLevel message details] else [])"

definition logger_error :: "(json \<Rightarrow> jstring) \<Rightarrow> jstring \<Rightarrow> details option \<Rightarrow> console_line list" where
  "logger_error toText message details = [consoleLine toText ErrorLevel message details]"

lemma map_of_formatDetails:
  "map_of (formatDetails toText (Some ds)) k =
     (if k = lit ''error''
      then map_option (map_option (\<lambda>v. PlainValue (JStr (getErrorMessage toText v)))) (map_of ds k)
      else map_of ds k)"
  by (induction ds) (auto simp: formatDetails_def split: option.splits prod.splits if_splits)

section \<open>The device\<close>

text \<open>What the platform tells about the device; \<open>None\<close> stands for \<open>null\<close> and \<open>undefined\<close>.\<close>

record device =
  dv_os :: jstring
  dv_version :: jstring
  dv_modelName :: "jstring option"
  dv_modelId :: "jstring option"
  dv_brand :: "jstring option"
  dv_deviceYearClass :: "rat option"
  dv_appVersion :: "jstring option"
  dv_iosBuildNumber :: "jstring option"
  dv_androidVersionCode :: "jstring option"

definition orElse :: "jstring option \<Rightarrow> jstring \<Rightarrow> jstring" where
  "orElse v d = (if truthyOpt v then the v else d)"

lemma orElse_simps [simp]: "orElse None d = d" "orElse (Some s) d = (if s = [] then d else s)"
  by (simp_all add: orElse_def)

definition getDeviceInfo :: "device \<Rightarrow> fields" where
  "getDeviceInfo dv =
     [(lit ''os'', JStr (dv_os dv)),
      (lit ''osVersion'', JStr (dv_version dv)),
      (lit ''model'', JStr (orElse (dv_modelName dv) (orElse (dv_modelId dv) (lit ''unknown'')))),
      (lit ''brand'', JStr (orElse (dv_brand dv) (lit ''unknown''))),
      (lit ''deviceYearClass'', (case dv_deviceYearClass dv of
          Some y \<Rightarrow> if y = 0 then JNull else JNum y | None \<Rightarrow> JNull)),
      (lit ''appVersion'', JStr (orElse (dv_appVersion dv) (lit ''unknown''))),
      (lit ''buildNumber'', JStr (if dv_os dv = lit ''ios'' then orElse (dv_iosBuildNumber dv) (lit ''unknown'')
          else orElse (dv_androidVersionCode dv) (lit ''unknown'')))]"

definition knownOs :: "jstring \<Rightarrow> bool" where
  "knownOs s \<longleftrightarrow> s \<in> {lit ''ios'', lit ''android'', lit ''windows'', lit ''macos'', lit ''web''}"

lemma getDeviceInfo_valid:
  assumes "knownOs (dv_os dv)"
  shows "\<exists>i. deviceInfo (Some (JObj (getDeviceInfo dv))) = Inr i"
proof -
  have "\<exists>a. deviceOs (Some (JStr (dv_os dv))) = Inr a"
    using assms by (auto simp: knownOs_def deviceOs_def zEnum_def)
  moreover have "\<exists>e. zNullableNumber (Some (case dv_deviceYearClass dv of
      Some y \<Rightarrow> if y = 0 then JNull else JNum y | None \<Rightarrow> JNull)) = Inr e"
    by (auto simp: zNullableNumber_def split: option.splits)
  ultimately show ?thesis
    by (auto simp: deviceInfo_def getDeviceInfo_def objectFields_def andThen_def zString_def Let_def)
qed

section \<open>The store\<close>

record auth_store =
  s_accessToken :: "jstring option"
  s_refreshToken :: "jstring option"
  s_isAuthenticated :: bool
  s_isAuthLoading :: bool
  s_isLoading :: bool
  s_error :: "jstring option"

definition initialStore :: auth_store where
  "initialStore = \<lparr>s_accessToken = None, s_refreshToken = None, s_isAuthenticated = False,
     s_isAuthLoading = True, s_isLoading = False, s_error = None\<rparr>"

record persisted_auth =
  p_accessToken :: "jstring option"
  p_refreshToken :: "jstring option"
  p_isAuthenticated :: bool

definition partialize :: "auth_store \<Rightarrow> persisted_auth" where
  "partialize s = \<lparr>p_accessToken = s_accessToken s, p_refreshToken = s_refreshToken s,
     p_isAuthenticated = s_isAuthenticated s\<rparr>"

text \<open>
  \<open>onRehydrateStorage\<close> is called with the state that was loaded and merged, or with no state and
  an error when the stored text could not be read; it changes the state it gets in place.
\<close>

definition onRehydrateStorage :: "auth_store option \<Rightarrow> auth_store option" where
  "onRehydrateStorage state = map_option (\<lambda>s. s\<lparr>s_isAuthLoading := False\<rparr>) state"

definition mergePersisted :: "persisted_auth \<Rightarrow> auth_store \<Rightarrow> auth_store" where
  "mergePersisted p s = s\<lparr>s_accessToken := p_accessToken p, s_refreshToken := p_refreshToken p,
     s_isAuthenticated := p_isAuthenticated p\<rparr>"

section \<open>The world of the client\<close>

datatype storage_op = SetItem jstring jstring | RemoveItem jstring

datatype err_code = CodeText jstring | CodeNum int

text \<open>
  A thrown value: a text, or an object of which the code reads \<open>error\<close>, \<open>message\<close> and \<open>code\<close>.
\<close>

datatype thrown =
    ThrownText jstring
  | ThrownObj (th_error: "jstring option") (th_message: "jstring option") (th_code: "err_code option")

datatype promise_state = Pending | Resolved | RejectedWith thrown

datatype timer = LogOutTimer

datatype screen = LoginScreen | SignupScreen | OtpScreen | HomeScreen

datatype navigation =
    Push screen "(jstring \<times> jstring) list"
  | Replace screen
  | Back

record areq =
  rq_method :: jstring
  rq_url :: jstring
  rq_data :: json
  rq_authorization :: "jstring option"
  rq_retry :: bool

record axios_response =
  ar_status :: nat
  ar_data :: json

text \<open>
  The state of the hooks of the authentication screens: the resend timer and the error of the
  one-time code, the loading flags, the errors of the sign-in buttons, and how often the code
  input has been reset.
\<close>

datatype error_type = ValidationFailure | ApiFailure | OAuthFailure | ConfigurationFailure

record hook_error =
  he_type :: error_type
  he_code :: "err_code option"
  he_message :: jstring
  he_title :: "jstring option"

record ui =
  ui_resendTimer :: int
  ui_otpError :: "hook_error option"
  ui_otpResets :: nat
  ui_phoneLoading :: bool
  ui_googleLoading :: bool
  ui_googleError :: "hook_error option"
  ui_appleLoading :: bool
  ui_appleError :: "hook_error option"

text \<open>
  The state of the image upload hook: the images of its parent (identifiers and previews), its
  flags and sets, and the messages it has reported.
\<close>

record upload_state =
  us_images :: "jstring list"
  us_isPicking :: bool
  us_isUploading :: bool
  us_initialImages :: "jstring list"
  us_uploadingImages :: "jstring set"
  us_uploadedImages :: "jstring set"
  us_errors :: "jstring list"
  us_drawn :: nat

record 's client =
  cl_store :: auth_store
  cl_items :: "jstring \<Rightarrow> jstring option"
  cl_writes :: "storage_op list"
  cl_faults :: "bool list"
  cl_refreshPromise :: "nat option"
  cl_promises :: "promise_state list"
  cl_timers :: "timer list"
  cl_now :: timestamp
  cl_server :: 's
  cl_sent :: "areq list"
  cl_router :: "navigation list"
  cl_ui :: ui
  cl_upload :: upload_state

text \<open>
  The parameters: the network with the server behind it (a failure with an optional code, or a
  response; and the time it takes), the JWT decoder, the text of the persisted state, the
  environment variables, the sign-in libraries, the device.
\<close>

record 's cext =
  cx_send :: "'s \<Rightarrow> areq \<Rightarrow> (jstring option + axios_response) \<times> nat \<times> 's"
  cx_jwtDecode :: "jstring \<Rightarrow> jwt_payload option"
  cx_stringify :: "persisted_auth \<Rightarrow> jstring"
  cx_parse :: "jstring \<Rightarrow> persisted_auth option"
  cx_typeErrorText :: jstring
  cx_googleClientIds :: "jstring option \<times> jstring option"
  cx_googlePlayServices :: "thrown option"
  cx_googleSignIn :: "thrown option"
  cx_googleTokens :: "thrown + jstring option"
  cx_appleSignIn :: "thrown + jstring option"
  cx_device :: device

text \<open>\<open>useAuthStore.setState\<close> and \<open>set\<close>: the merge and the write of the persisted part.\<close>

definition setState :: "'s cext \<Rightarrow> (auth_store \<Rightarrow> auth_store) \<Rightarrow> 's client \<Rightarrow> 's client" where
  "setState x f w = w\<lparr>cl_store := f (cl_store w),
     cl_writes := cl_writes w @ [SetItem (lit ''auth'') (cx_stringify x (partialize (f (cl_store w))))]\<rparr>"

definition clearError :: "'s cext \<Rightarrow> 's client \<Rightarrow> 's client" where
  "clearError x w = setState x (\<lambda>s. s\<lparr>s_error := None\<rparr>) w"

definition clearUI :: "'s cext \<Rightarrow> 's client \<Rightarrow> 's client" where
  "clearUI x w = setState x (\<lambda>s. s\<lparr>s_isLoading := False, s_error := None\<rparr>) w"

definition clearAll :: "'s cext \<Rightarrow> 's client \<Rightarrow> 's client" where
  "clearAll x w = (let v = setState x (\<lambda>s. s\<lparr>s_accessToken := None, s_refreshToken := None,
        s_isAuthenticated := False, s_isLoading := False, s_error := None\<rparr>) w
     in v\<lparr>cl_writes := cl_writes v @ [RemoveItem (lit ''auth'')]\<rparr>)"

section \<open>Secure storage\<close>

text \<open>
  The native module may fail on every call (\<open>cl_faults\<close>); the adapter logs the failure and goes
  on. \<open>getItem\<close> then returns \<open>null\<close>.
\<close>

definition faulty :: "'s client \<Rightarrow> bool" where
  "faulty w = (case cl_faults w of [] \<Rightarrow> False | b # _ \<Rightarrow> b)"

definition afterCall :: "'s client \<Rightarrow> 's client" where
  "afterCall w = w\<lparr>cl_faults := tl (cl_faults w)\<rparr>"

definition storage_getItem :: "jstring \<Rightarrow> 's client \<Rightarrow> jstring option \<times> 's client" where
  "storage_getItem name w = (if faulty w then None else cl_items w name, afterCall w)"

definition storage_setItem :: "jstring \<Rightarrow> jstring \<Rightarrow> 's client \<Rightarrow> 's client" where
  "storage_setItem name value w =
     (if faulty w then afterCall w else (afterCall w)\<lparr>cl_items := (cl_items w)(name \<mapsto> value)\<rparr>)"

definition storage_removeItem :: "jstring \<Rightarrow> 's client \<Rightarrow> 's client" where
  "storage_removeItem name w =
     (if faulty w then afterCall w else (afterCall w)\<lparr>cl_items := (cl_items w)(name := None)\<rparr>)"

primrec runWrite :: "storage_op \<Rightarrow> 's client \<Rightarrow> 's client" where
  "runWrite (SetItem n v) w = storage_setItem n v w"
| "runWrite (RemoveItem n) w = storage_removeItem n w"

definition flushWrites :: "'s client \<Rightarrow> 's client" where
  "flushWrites w = foldl (\<lambda>v op. runWrite op v) (w\<lparr>cl_writes := []\<rparr>) (cl_writes w)"

text \<open>
  The start of the application: the middleware reads the stored text, merges it into the state
  and calls \<open>onRehydrateStorage\<close>. Where nothing is stored the state is the initial one; a text
  that cannot be read is an error, and the state stays as it is.
\<close>

definition rehydrate :: "'s cext \<Rightarrow> 's client \<Rightarrow> 's client" where
  "rehydrate x w = (case storage_getItem (lit ''auth'') w of (item, v) \<Rightarrow>
     let loaded = (case item of
           None \<Rightarrow> Some (cl_store v)
         | Some t \<Rightarrow> map_option (\<lambda>p. mergePersisted p (cl_store v)) (cx_parse x t))
     in case onRehydrateStorage loaded of
          Some s \<Rightarrow> v\<lparr>cl_store := s\<rparr>
        | None \<Rightarrow> v)"

interpretation items: keyed_store
  "\<lambda>k w. cl_items w k"
  "\<lambda>k v w. storage_setItem k v (w\<lparr>cl_faults := []\<rparr>)"
  "\<lambda>k w. storage_removeItem k (w\<lparr>cl_faults := []\<rparr>)"
  by unfold_locales
    (simp_all add: storage_setItem_def storage_removeItem_def faulty_def afterCall_def)

end
