(* ===== verification/ClientApi.thy ===== *)
theory ClientApi
  imports ClientStore
begin

text \<open>
  The HTTP client of the mobile application: \<open>packages/auth/expo/src/api.ts\<close> and \<open>util.ts\<close>, with
  the error codes of \<open>packages/types/src/responses.ts\<close>.

  The functions of the module call one another in a circle (\<open>api\<close>, the interceptors,
  \<open>handleError\<close>, \<open>refreshTokens\<close>, \<open>api\<close>). Each is a definition that takes the instance \<open>api\<close> as an
  argument, and \<open>api n\<close> ties the knot for calls nested at most \<open>n\<close> deep; \<open>api_depth\<close> shows that
  three levels give the same execution as any greater number.

  A promise is a position in \<open>cl_promises\<close>, and \<open>cl_refreshPromise\<close> is the module variable. The
  function that starts the refresh awaits it at once and is the only one that runs it, so it
  runs in place. To await a promise that is pending with nothing else running is never to
  return; in an interleaving, such a function has no turn until the promise is settled.

  Fields of a response that the types declare to be strings and that are not are read as absent.
\<close>

section \<open>Response values\<close>

definition errorBody :: "jstring \<Rightarrow> jstring \<Rightarrow> json" where
  "errorBody error code = JObj [(lit ''error'', JStr error), (lit ''code'', JStr code)]"

definition UNKNOWN_ERROR :: json where
  "UNKNOWN_ERROR = errorBody (lit ''An unexpected error occurred.'') (lit ''UNKNOWN_ERROR'')"

definition unknownText :: jstring where
  "unknownText = lit ''An unexpected error occurred.''"

fun jsonString :: "json option \<Rightarrow> jstring option" where
  "jsonString (Some (JStr s)) = Some s"
| "jsonString _ = None"

fun jsonTruthy :: "json option \<Rightarrow> bool" where
  "jsonTruthy None \<longleftrightarrow> False"
| "jsonTruthy (Some JNull) \<longleftrightarrow> False"
| "jsonTruthy (Some (JBool b)) \<longleftrightarrow> b"
| "jsonTruthy (Some (JNum q)) \<longleftrightarrow> q \<noteq> 0"
| "jsonTruthy (Some (JStr s)) \<longleftrightarrow> s \<noteq> []"
| "jsonTruthy (Some _) \<longleftrightarrow> True"

fun isObject :: "json \<Rightarrow> bool" where
  "isObject (JArr _) \<longleftrightarrow> True"
| "isObject (JObj _) \<longleftrightarrow> True"
| "isObject _ \<longleftrightarrow> False"

text \<open>What a call resolves to: a response of axios, or the body that \<open>handleError\<close> returned.\<close>

datatype api_value = Resp axios_response | Body json

fun dataOf :: "api_value \<Rightarrow> json option" where
  "dataOf (Resp r) = Some (ar_data r)"
| "dataOf (Body b) = jsonField (lit ''data'') b"

definition bodyThrown :: "json \<Rightarrow> thrown" where
  "bodyThrown b = ThrownObj (jsonString (jsonField (lit ''error'') b))
     (jsonString (jsonField (lit ''message'') b))
     (map_option CodeText (jsonString (jsonField (lit ''code'') b)))"

record axios_error =
  ae_code :: "jstring option"
  ae_response :: "axios_response option"
  ae_config :: areq

definition axios_err :: "string \<Rightarrow> json" where
  "axios_err errorCode =
     (if errorCode = ''NETWORK_ERROR''
      then errorBody (lit ''Network error. Please check your connection.'') (lit errorCode)
      else if errorCode = ''TIMEOUT_ERROR''
      then errorBody (lit ''Request timed out. Please try again.'') (lit errorCode)
      else if errorCode = ''INVALID_RESPONSE'' then errorBody unknownText (lit errorCode)
      else if errorCode = ''UNKNOWN_ERROR'' then errorBody unknownText (lit errorCode)
      else UNKNOWN_ERROR)"

section \<open>\<open>setErrorState\<close>\<close>

definition thrownText :: "thrown \<Rightarrow> jstring" where
  "thrownText error = (case error of
       ThrownText t \<Rightarrow> t
     | ThrownObj e m c \<Rightarrow> (case e of Some t \<Rightarrow> t | None \<Rightarrow>
         (case m of Some t \<Rightarrow> t | None \<Rightarrow> unknownText)))"

definition thrownCode :: "thrown \<Rightarrow> err_code" where
  "thrownCode error = (case error of
       ThrownText t \<Rightarrow> CodeText (lit ''UNKNOWN_ERROR'')
     | ThrownObj e m c \<Rightarrow> (case c of Some k \<Rightarrow> k | None \<Rightarrow> CodeText (lit ''UNKNOWN_ERROR'')))"

definition setErrorState :: "'s cext \<Rightarrow> thrown \<Rightarrow> ('s client, thrown, thrown) prog" where
  "setErrorState x error =
     bindP (setW (setState x (\<lambda>s. s\<lparr>s_error := Some (thrownText error), s_isLoading := False\<rparr>))) (\<lambda>_.
     Ret (ThrownObj (Some (thrownText error)) (Some (thrownText error)) (Some (thrownCode error))))"

definition rethrow :: "'s cext \<Rightarrow> thrown \<Rightarrow> ('s client, thrown, 'a) prog" where
  "rethrow x error = bindP (setErrorState x error) Throw"

section \<open>Tokens and promises\<close>

definition getState :: "('s client, thrown, auth_store) prog" where
  "getState = getW cl_store"

definition logOutSoon :: "('s client, thrown, unit) prog" where
  "logOutSoon = setW (\<lambda>w. w\<lparr>cl_timers := cl_timers w @ [LogOutTimer]\<rparr>)"

text \<open>
  \<open>needsTokenRefresh\<close>; \<open>exp - now <= (exp - iat) * 0.1\<close> is read over the integers.
\<close>

definition needsTokenRefresh :: "'s cext \<Rightarrow> jstring \<Rightarrow> timestamp \<Rightarrow> bool" where
  "needsTokenRefresh x accessToken time = (case cx_jwtDecode x accessToken of
       None \<Rightarrow> True
     | Some decoded \<Rightarrow>
         10 * (jwt_exp decoded - time div 1000) \<le> jwt_exp decoded - jwt_iat decoded)"

definition bearer :: "jstring option \<Rightarrow> jstring" where
  "bearer t = lit ''Bearer '' @ (case t of Some s \<Rightarrow> s | None \<Rightarrow> lit ''null'')"

definition awaitPromise :: "nat \<Rightarrow> ('s client, thrown, unit) prog" where
  "awaitPromise i = waitW (\<lambda>w. case cl_promises w ! i of
     Pending \<Rightarrow> None
   | Resolved \<Rightarrow> Some (Inr ())
   | RejectedWith e \<Rightarrow> Some (Inl e))"

definition newPromise :: "'s client \<Rightarrow> nat \<times> 's client" where
  "newPromise w = (length (cl_promises w),
     w\<lparr>cl_promises := cl_promises w @ [Pending], cl_refreshPromise := Some (length (cl_promises w))\<rparr>)"

definition settlePromise :: "nat \<Rightarrow> thrown + unit \<Rightarrow> 's client \<Rightarrow> 's client" where
  "settlePromise i r w = w\<lparr>cl_promises := (cl_promises w)[i :=
     (case r of Inl e \<Rightarrow> RejectedWith e | Inr _ \<Rightarrow> Resolved)]\<rparr>"

section \<open>The module\<close>

type_synonym 's api_fun = "areq \<Rightarrow> ('s client, thrown, api_value) prog"

definition postRequest :: "string \<Rightarrow> json \<Rightarrow> areq" where
  "postRequest url data = \<lparr>rq_method = lit ''post'', rq_url = lit url, rq_data = data,
     rq_authorization = None, rq_retry = False\<rparr>"

text \<open>\<open>data.accessToken\<close> throws where \<open>data\<close> is undefined or null.\<close>

definition withData :: "'s cext \<Rightarrow> api_value \<Rightarrow> (json \<Rightarrow> ('s client, thrown, 'a) prog) \<Rightarrow> ('s client, thrown, 'a) prog" where
  "withData x v k = (case dataOf v of
       None \<Rightarrow> Throw (ThrownObj None (Some (cx_typeErrorText x)) None)
     | Some JNull \<Rightarrow> Throw (ThrownObj None (Some (cx_typeErrorText x)) None)
     | Some data \<Rightarrow> k data)"

definition stringField :: "string \<Rightarrow> json \<Rightarrow> jstring option" where
  "stringField k data = jsonString (jsonField (lit k) data)"

definition refreshTokensWith :: "'s cext \<Rightarrow> 's api_fun \<Rightarrow> ('s client, thrown, unit) prog" where
  "refreshTokensWith x api =
     bindP getState (\<lambda>s.
     catchP
       (if \<not> truthyOpt (s_refreshToken s)
        then bindP logOutSoon (\<lambda>_.
          Throw (ThrownObj None (Some (lit ''No refresh token found, logging out'')) None))
        else
          bindP (setW (setState x (\<lambda>s. s\<lparr>s_isLoading := True, s_error := None\<rparr>))) (\<lambda>_.
          bindP (api (postRequest ''/auth/token/refresh''
            (JObj [(lit ''refreshToken'', JStr (the (s_refreshToken s)))]))) (\<lambda>v.
          withData x v (\<lambda>data.
          setW (setState x (\<lambda>s. s\<lparr>s_accessToken := stringField ''accessToken'' data,
            s_refreshToken := stringField ''refreshToken'' data\<rparr>))))))
       (rethrow x))"

text \<open>
  The shared part of the two interceptors: start the refresh unless one is there, await it,
  and reset the variable after it has succeeded.
\<close>

definition awaitRefresh :: "'s cext \<Rightarrow> 's api_fun \<Rightarrow> ('s client, thrown, unit) prog" where
  "awaitRefresh x api =
     bindP (getW cl_refreshPromise) (\<lambda>p.
     bindP
       (case p of
          None \<Rightarrow>
            bindP (syncW newPromise) (\<lambda>i.
            bindP (tryP (refreshTokensWith x api)) (\<lambda>r.
            bindP (setW (settlePromise i r)) (\<lambda>_.
            awaitPromise i)))
        | Some i \<Rightarrow> awaitPromise i)
       (\<lambda>_. setW (\<lambda>w. w\<lparr>cl_refreshPromise := None\<rparr>)))"

definition responseCode :: "json \<Rightarrow> json" where
  "responseCode data = (case jsonField (lit ''code'') data of
       None \<Rightarrow> JStr (lit ''UNKNOWN_ERROR'')
     | Some JNull \<Rightarrow> JStr (lit ''UNKNOWN_ERROR'')
     | Some c \<Rightarrow> c)"

definition handleError :: "'s cext \<Rightarrow> 's api_fun \<Rightarrow> axios_error \<Rightarrow> ('s client, thrown, api_value) prog" where
  "handleError x api error = (case ae_response error of
       None \<Rightarrow>
         Ret (Body (if \<not> truthyOpt (ae_code error) then UNKNOWN_ERROR
           else if ae_code error = Some (lit ''ERR_NETWORK'') then axios_err ''NETWORK_ERROR''
           else if ae_code error \<in> {Some (lit ''ECONNABORTED''), Some (lit ''ETIMEDOUT'')}
           then axios_err ''TIMEOUT_ERROR''
           else UNKNOWN_ERROR))
     | Some response \<Rightarrow>
         let data = ar_data response in
         if \<not> isObject data then Ret (Body (axios_err ''INVALID_RESPONSE''))
         else if ar_status response = 401 \<and> responseCode data = JStr (lit ''EXPIRED_TOKEN'')
           \<and> \<not> rq_retry (ae_config error)
         then
           bindP (awaitRefresh x api) (\<lambda>_.
           bindP getState (\<lambda>s.
           api ((ae_config error)\<lparr>rq_retry := True, rq_authorization := Some (bearer (s_accessToken s))\<rparr>)))
         else
           bindP (if ar_status response = 401
               \<and> responseCode data \<in> {JStr (lit ''INVALID_TOKEN''), JStr (lit ''INVALID_REFRESH_TOKEN'')}
             then logOutSoon else Ret ()) (\<lambda>_.
           Ret (Body data)))"

definition requestInterceptor :: "'s cext \<Rightarrow> 's api_fun \<Rightarrow> areq \<Rightarrow> ('s client, thrown, areq) prog" where
  "requestInterceptor x api config =
     bindP getState (\<lambda>s.
     if startsWith (rq_url config) (lit ''~'') then
       let config = config\<lparr>rq_url := tl (rq_url config)\<rparr> in
       if truthyOpt (s_accessToken s) then
         bindP (getW cl_now) (\<lambda>time.
         if needsTokenRefresh x (the (s_accessToken s)) time then
           bindP (awaitRefresh x api) (\<lambda>_.
           bindP getState (\<lambda>s.
           Ret (config\<lparr>rq_authorization := Some (bearer (s_accessToken s))\<rparr>)))
         else Ret (config\<lparr>rq_authorization := Some (bearer (s_accessToken s))\<rparr>))
       else bindP logOutSoon (\<lambda>_. Ret config)
     else Ret config)"

text \<open>The transport of axios: a status outside the two hundreds rejects with the response.\<close>

definition dispatch :: "'s cext \<Rightarrow> areq \<Rightarrow> ('s client, axios_error, axios_response) prog" where
  "dispatch x config = awaitW (\<lambda>w. case cx_send x (cl_server w) config of (result, elapsed, s') \<Rightarrow>
     (case result of
        Inl code \<Rightarrow> Inl \<lparr>ae_code = code, ae_response = None, ae_config = config\<rparr>
      | Inr r \<Rightarrow>
          if 200 \<le> ar_status r \<and> ar_status r \<le> 299 then Inr r
          else Inl \<lparr>ae_code = Some (lit ''ERR_BAD_RESPONSE''), ae_response = Some r, ae_config = config\<rparr>,
      w\<lparr>cl_server := s', cl_now := cl_now w + int elapsed, cl_sent := cl_sent w @ [config]\<rparr>))"

definition responseInterceptor :: "'s cext \<Rightarrow> 's api_fun \<Rightarrow> axios_error \<Rightarrow> ('s client, thrown, api_value) prog" where
  "responseInterceptor x api error =
     bindP (handleError x api error) (\<lambda>response.
     case response of
       Body b \<Rightarrow> if jsonTruthy (jsonField (lit ''code'') b) then Throw (bodyThrown b) else Ret (Body b)
     | Resp r \<Rightarrow> Ret (Resp r))"

primrec api :: "nat \<Rightarrow> 's cext \<Rightarrow> 's api_fun" where
  "api 0 x = (\<lambda>config. Hang)"
| "api (Suc n) x = (\<lambda>config.
     bindP (requestInterceptor x (api n x) config) (\<lambda>config.
     bindP (tryP (dispatch x config)) (\<lambda>r.
     case r of
       Inr response \<Rightarrow> Ret (Resp response)
     | Inl error \<Rightarrow> responseInterceptor x (api n x) error)))"

definition callDepth :: nat where "callDepth = 3"

definition apiCall :: "'s cext \<Rightarrow> 's api_fun" where
  "apiCall x = api callDepth x"

definition client_refreshTokens :: "'s cext \<Rightarrow> ('s client, thrown, unit) prog" where
  "client_refreshTokens x = refreshTokensWith x (apiCall x)"

text \<open>The Google session is cleared first; its failures are ignored, and so are all the others.\<close>

definition logOut :: "'s cext \<Rightarrow> ('s client, thrown, unit) prog" where
  "logOut x =
     bindP getState (\<lambda>s.
     finallyP
       (catchP
         (bindP (awaitW (\<lambda>w. (Inr (), w))) (\<lambda>_.
          if \<not> truthyOpt (s_refreshToken s)
          then Throw (ThrownObj None (Some (lit ''No refresh token found'')) None)
          else
            bindP (setW (setState x (\<lambda>s. s\<lparr>s_isLoading := True, s_error := None\<rparr>))) (\<lambda>_.
            bindP (apiCall x (postRequest ''/auth/logout''
              (JObj [(lit ''refreshToken'', JStr (the (s_refreshToken s)))]))) (\<lambda>_. Ret ()))))
         (\<lambda>e. Ret ()))
       (setW (clearAll x)))"

section \<open>Running the client\<close>

lemma run_getState [simp]: "run getState w = (Done (cl_store w), w)"
  and run_logOutSoon [simp]: "run logOutSoon w = (Done (), w\<lparr>cl_timers := cl_timers w @ [LogOutTimer]\<rparr>)"
  by (simp_all add: getState_def logOutSoon_def)

lemma run_awaitPromise [simp]: "run (awaitPromise i) w = (case cl_promises w ! i of
    Pending \<Rightarrow> (Hung, w) | Resolved \<Rightarrow> (Done (), w) | RejectedWith e \<Rightarrow> (Thrown e, w))"
  by (simp add: awaitPromise_def split: promise_state.splits)

lemma setState_simps [simp]:
  "cl_store (setState x f w) = f (cl_store w)"
  "cl_refreshPromise (setState x f w) = cl_refreshPromise w"
  "cl_promises (setState x f w) = cl_promises w"
  "cl_server (setState x f w) = cl_server w"
  "cl_now (setState x f w) = cl_now w"
  "cl_sent (setState x f w) = cl_sent w"
  "cl_timers (setState x f w) = cl_timers w"
  "cl_router (setState x f w) = cl_router w"
  by (simp_all add: setState_def)

lemma run_rethrow [simp]: "run (rethrow x e) w =
    (Thrown (ThrownObj (Some (thrownText e)) (Some (thrownText e)) (Some (thrownCode e))),
     setState x (\<lambda>s. s\<lparr>s_error := Some (thrownText e), s_isLoading := False\<rparr>) w)"
  by (simp add: rethrow_def setErrorState_def)

text \<open>The world after a request has been sent and answered.\<close>

definition afterSend :: "'s cext \<Rightarrow> areq \<Rightarrow> 's client \<Rightarrow> 's client" where
  "afterSend x q w = (case cx_send x (cl_server w) q of (_, elapsed, s') \<Rightarrow>
     w\<lparr>cl_server := s', cl_now := cl_now w + int elapsed, cl_sent := cl_sent w @ [q]\<rparr>)"

definition reply :: "'s cext \<Rightarrow> areq \<Rightarrow> 's client \<Rightarrow> axios_error + axios_response" where
  "reply x q w = (case fst (cx_send x (cl_server w) q) of
     Inl code \<Rightarrow> Inl \<lparr>ae_code = code, ae_response = None, ae_config = q\<rparr>
   | Inr r \<Rightarrow> if 200 \<le> ar_status r \<and> ar_status r \<le> 299 then Inr r
       else Inl \<lparr>ae_code = Some (lit ''ERR_BAD_RESPONSE''), ae_response = Some r, ae_config = q\<rparr>)"

lemma run_dispatch [simp]: "run (dispatch x q) w =
    (case reply x q w of Inl e \<Rightarrow> Thrown e | Inr r \<Rightarrow> Done r, afterSend x q w)"
  by (auto simp: dispatch_def reply_def afterSend_def split: prod.splits sum.splits)

lemma afterSend_simps [simp]:
  "cl_store (afterSend x q w) = cl_store w"
  "cl_refreshPromise (afterSend x q w) = cl_refreshPromise w"
  "cl_promises (afterSend x q w) = cl_promises w"
  "cl_timers (afterSend x q w) = cl_timers w"
  "cl_sent (afterSend x q w) = cl_sent w @ [q]"
  by (simp_all add: afterSend_def split: prod.splits)

lemma reply_config: "reply x q w = Inl e \<Longrightarrow> ae_config e = q"
  by (auto simp: reply_def split: sum.splits if_splits)

lemma run_api_Suc: "run (api (Suc n) x q) w =
    (case run (requestInterceptor x (api n x) q) w of
       (Done q', w') \<Rightarrow> (case reply x q' w' of
            Inr r \<Rightarrow> (Done (Resp r), afterSend x q' w')
          | Inl e \<Rightarrow> run (responseInterceptor x (api n x) e) (afterSend x q' w'))
     | (Thrown t, w') \<Rightarrow> (Thrown t, w')
     | (Hung, w') \<Rightarrow> (Hung, w'))"
  by (auto split: outcome.splits prod.splits sum.splits)

declare api.simps(2) [simp del]

lemma run_interceptor_public:
  "\<not> startsWith (rq_url q) (lit ''~'') \<Longrightarrow> run (requestInterceptor x f q) w = (Done q, w)"
  by (simp add: requestInterceptor_def)

lemma run_awaitRefresh_present:
  "cl_refreshPromise w = Some i \<Longrightarrow> run (awaitRefresh x f) w = (case cl_promises w ! i of
     Pending \<Rightarrow> (Hung, w)
   | Resolved \<Rightarrow> (Done (), w\<lparr>cl_refreshPromise := None\<rparr>)
   | RejectedWith e \<Rightarrow> (Thrown e, w))"
  by (simp add: awaitRefresh_def split: promise_state.splits)

lemma handleError_cong:
  assumes "run (awaitRefresh x f) w = run (awaitRefresh x g) w"
    and "\<And>v q. rq_retry q \<Longrightarrow> run (f q) v = run (g q) v"
  shows "run (handleError x f e) w = run (handleError x g e) w"
  by (simp add: handleError_def Let_def assms split: option.splits outcome.splits prod.splits)

lemma responseInterceptor_cong:
  "run (handleError x f e) w = run (handleError x g e) w \<Longrightarrow>
   run (responseInterceptor x f e) w = run (responseInterceptor x g e) w"
  by (simp add: responseInterceptor_def)

lemma requestInterceptor_cong:
  "run (awaitRefresh x f) w = run (awaitRefresh x g) w \<Longrightarrow>
   run (requestInterceptor x f q) w = run (requestInterceptor x g q) w"
  by (simp add: requestInterceptor_def Let_def)

lemma pending_blocks:
  assumes "cl_refreshPromise w = Some i" "cl_promises w ! i = Pending"
  shows "run (responseInterceptor x f e) w = run (responseInterceptor x g e) w"
proof (rule responseInterceptor_cong)
  show "run (handleError x f e) w = run (handleError x g e) w"
    using assms by (simp add: handleError_def Let_def run_awaitRefresh_present split: option.splits)
qed

text \<open>While the refresh is pending no call goes deeper.\<close>

lemma api_while_pending:
  assumes "cl_refreshPromise w = Some i" "cl_promises w ! i = Pending"
    and "\<not> startsWith (rq_url q) (lit ''~'')"
  shows "run (api (Suc n) x q) w = run (api (Suc m) x q) w"
  by (simp add: run_api_Suc run_interceptor_public assms pending_blocks[of _ i] split: sum.splits)

lemma refresh_path_public: "\<not> startsWith (rq_url (postRequest (CHR ''/'' # p) d)) (lit ''~'')"
  by (simp add: postRequest_def startsWith_def lit_def)

lemma awaitRefresh_depth:
  "run (awaitRefresh x (api (Suc n) x)) w = run (awaitRefresh x (api (Suc m) x)) w"
proof (cases "cl_refreshPromise w")
  case (Some i)
  then show ?thesis by (simp add: run_awaitRefresh_present)
next
  case None
  let ?w = "snd (newPromise w)"
  have "run (refreshTokensWith x (api (Suc n) x)) ?w = run (refreshTokensWith x (api (Suc m) x)) ?w"
  proof -
    let ?q = "postRequest ''/auth/token/refresh'' (JObj [(lit ''refreshToken'', JStr (the (s_refreshToken (cl_store ?w))))])"
    let ?v = "setState x (\<lambda>s. s\<lparr>s_isLoading := True, s_error := None\<rparr>) ?w"
    have "run (api (Suc n) x ?q) ?v = run (api (Suc m) x ?q) ?v"
      by (rule api_while_pending[of _ "length (cl_promises w)"])
        (simp_all add: newPromise_def refresh_path_public)
    then show ?thesis by (simp add: refreshTokensWith_def)
  qed
  with None show ?thesis by (simp add: awaitRefresh_def)
qed

lemma api_depth_retry:
  assumes "rq_retry q"
  shows "run (api (Suc (Suc n)) x q) w = run (api (Suc (Suc m)) x q) w"
proof -
  have "run (requestInterceptor x (api (Suc n) x) q) w = run (requestInterceptor x (api (Suc m) x) q) w"
    by (rule requestInterceptor_cong) (rule awaitRefresh_depth)
  moreover have "run (responseInterceptor x f e) v = run (responseInterceptor x g e) v"
    if "rq_retry (ae_config e)" for f g e and v :: "'a client"
    using that by (intro responseInterceptor_cong) (simp add: handleError_def Let_def split: option.splits)
  moreover have "rq_retry q'" if "run (requestInterceptor x f q) w = (Done q', w')" for f q' w'
    using that assms by (auto simp: requestInterceptor_def Let_def split: if_splits outcome.splits prod.splits)
  ultimately show ?thesis
    by (auto simp: run_api_Suc dest: reply_config split: outcome.splits prod.splits sum.splits)
qed

lemma api_depth: "run (api (Suc (Suc (Suc n))) x q) w = run (api (Suc (Suc (Suc m))) x q) w"
proof -
  have "run (responseInterceptor x (api (Suc (Suc n)) x) e) v
      = run (responseInterceptor x (api (Suc (Suc m)) x) e) v" for e and v :: "'a client"
    by (intro responseInterceptor_cong handleError_cong awaitRefresh_depth api_depth_retry)
  moreover have "run (requestInterceptor x (api (Suc (Suc n)) x) q) w
      = run (requestInterceptor x (api (Suc (Suc m)) x) q) w"
    by (rule requestInterceptor_cong) (rule awaitRefresh_depth)
  ultimately show ?thesis
    by (simp add: run_api_Suc split: outcome.splits prod.splits sum.splits)
qed
lemma apiCall_depth:
  assumes "3 \<le> n"
  shows "run (api n x q) w = run (apiCall x q) w"
proof -
  from assms have "n = Suc (Suc (Suc (n - 3)))" by simp
  then show ?thesis
    using api_depth[of "n - 3" x q w 0] by (simp add: apiCall_def callDepth_def numeral_3_eq_3)
qed

section \<open>What the module keeps in every interleaving\<close>

text \<open>
  A property of the world and a relation that the effects of the module keep: the writes to the
  store, the timers, the promises, the request variable and a request with its answer. Every
  function of the module then guarantees them.
\<close>

locale api_guarantee = world_guarantee I R
  for I :: "'s client \<Rightarrow> bool" and R :: "'s client \<Rightarrow> 's client \<Rightarrow> bool" +
  fixes x :: "'s cext"
  assumes store: "I w \<Longrightarrow> I (setState x f w) \<and> R w (setState x f w)"
    and timers: "I w \<Longrightarrow> I (w\<lparr>cl_timers := ts\<rparr>) \<and> R w (w\<lparr>cl_timers := ts\<rparr>)"
    and promises: "I w \<Longrightarrow> I (w\<lparr>cl_promises := ps\<rparr>) \<and> R w (w\<lparr>cl_promises := ps\<rparr>)"
    and variable: "I w \<Longrightarrow> I (w\<lparr>cl_refreshPromise := p\<rparr>) \<and> R w (w\<lparr>cl_refreshPromise := p\<rparr>)"
    and request: "I w \<Longrightarrow> I (w\<lparr>cl_server := s, cl_now := cl_now w + int n, cl_sent := qs\<rparr>)
      \<and> R w (w\<lparr>cl_server := s, cl_now := cl_now w + int n, cl_sent := qs\<rparr>)"
begin

lemma newPromise_keeps: "I w \<Longrightarrow> I (snd (newPromise w)) \<and> R w (snd (newPromise w))"
  using promises[of w "cl_promises w @ [Pending]"]
    variable[of "w\<lparr>cl_promises := cl_promises w @ [Pending]\<rparr>" "Some (length (cl_promises w))"]
  by (auto simp: newPromise_def intro: trans)

lemma effects_keep:
  "guar I R (setW (setState x f))" "guar I R getState" "guar I R (getW g)" "guar I R logOutSoon"
  "guar I R (syncW newPromise)" "guar I R (setW (settlePromise i r))" "guar I R (awaitPromise i)"
  "guar I R (setW (\<lambda>w. w\<lparr>cl_refreshPromise := p\<rparr>))" "guar I R (dispatch x q)"
  by (simp_all add: getState_def logOutSoon_def settlePromise_def awaitPromise_def dispatch_def
      guar_getW guar_setW guar_syncW guar_waitW refl store timers promises variable newPromise_keeps)
    (rule guar_awaitW, use request in \<open>auto split: prod.splits\<close>)

lemma rethrow_keeps: "guar I R (rethrow x e)"
  by (simp add: rethrow_def setErrorState_def guar_bindP effects_keep)

lemma withData_keeps: "(\<And>d. guar I R (k d)) \<Longrightarrow> guar I R (withData x v k)"
  by (auto simp: withData_def split: option.splits json.splits)

lemmas keeps_intros = guar_bindP guar_catchP guar_finallyP guar_tryP withData_keeps rethrow_keeps
  effects_keep

lemma refresh_keeps:
  assumes "\<And>q. guar I R (f q)"
  shows "guar I R (refreshTokensWith x f)" "guar I R (awaitRefresh x f)"
proof -
  show r: "guar I R (refreshTokensWith x f)"
    unfolding refreshTokensWith_def by (intro keeps_intros) (auto intro!: keeps_intros assms)
  show "guar I R (awaitRefresh x f)"
    unfolding awaitRefresh_def by (intro keeps_intros) (auto intro!: keeps_intros r split: option.splits)
qed

lemma interceptors_keep:
  assumes "\<And>q. guar I R (f q)"
  shows "guar I R (requestInterceptor x f q)" "guar I R (responseInterceptor x f e)"
  unfolding requestInterceptor_def responseInterceptor_def handleError_def Let_def
  by (auto intro!: keeps_intros refresh_keeps assms split: option.splits api_value.splits)

lemma api_keeps: "guar I R (api n x q)"
proof (induction n arbitrary: q)
  case (Suc n)
  then show ?case
    by (auto simp: api.simps intro!: keeps_intros interceptors_keep split: sum.splits)
qed simp

lemma apiCall_keeps: "guar I R (apiCall x q)"
  by (simp add: apiCall_def api_keeps)

lemma client_refreshTokens_keeps: "guar I R (client_refreshTokens x)"
  by (simp add: client_refreshTokens_def refresh_keeps apiCall_keeps)

end

end
