(* ===== verification/ClientService.thy ===== *)
theory ClientService
  imports ClientApi
begin

text \<open>
  The authentication service of the mobile application, \<open>packages/auth/expo/src/service.ts\<close>: a
  request object is the list of its fields, and each function is a call of the API between two
  changes of the store. The second part shows what every function of the client keeps, whatever
  other functions run meanwhile: the text in the storage mirrors the persisted part of the store.
\<close>

definition injectDeviceInfo :: "'s cext \<Rightarrow> fields \<Rightarrow> fields" where
  "injectDeviceInfo x req = AList.update (lit ''deviceInfo'') (JObj (getDeviceInfo (cx_device x))) req"

definition startLoading :: "'s cext \<Rightarrow> ('s client, thrown, unit) prog" where
  "startLoading x = setW (setState x (\<lambda>s. s\<lparr>s_isLoading := True, s_error := None\<rparr>))"

definition storeTokens :: "'s cext \<Rightarrow> json \<Rightarrow> ('s client, thrown, unit) prog" where
  "storeTokens x data =
     bindP (setW (setState x (\<lambda>s. s\<lparr>s_accessToken := stringField ''accessToken'' data,
        s_refreshToken := stringField ''refreshToken'' data, s_isAuthenticated := True\<rparr>))) (\<lambda>_.
     setW (clearUI x))"

definition sendOtp :: "'s cext \<Rightarrow> fields \<Rightarrow> ('s client, thrown, json option) prog" where
  "sendOtp x req =
     bindP (startLoading x) (\<lambda>_.
     catchP
       (bindP (apiCall x (postRequest ''/auth/phone/otp'' (JObj req))) (\<lambda>v.
        bindP (setW (setState x (\<lambda>s. s\<lparr>s_isLoading := False\<rparr>))) (\<lambda>_.
        withData x v (\<lambda>data. Ret (jsonField (lit ''userExists'') data)))))
       (rethrow x))"

text \<open>The three functions that end in a session send different requests and do the same with the answer.\<close>

definition authenticate :: "'s cext \<Rightarrow> string \<Rightarrow> fields \<Rightarrow> ('s client, thrown, unit) prog" where
  "authenticate x url req =
     bindP (startLoading x) (\<lambda>_.
     catchP
       (bindP (apiCall x (postRequest url (JObj (injectDeviceInfo x req)))) (\<lambda>v.
        withData x v (storeTokens x)))
       (rethrow x))"

definition signUpWithPhone :: "'s cext \<Rightarrow> fields \<Rightarrow> ('s client, thrown, unit) prog" where
  "signUpWithPhone x req = authenticate x ''/auth/phone/signup'' req"

definition signInWithPhone :: "'s cext \<Rightarrow> fields \<Rightarrow> ('s client, thrown, unit) prog" where
  "signInWithPhone x req = authenticate x ''/auth/phone/login'' req"

definition signUpWithOAuth :: "'s cext \<Rightarrow> fields \<Rightarrow> ('s client, thrown, unit) prog" where
  "signUpWithOAuth x req = authenticate x ''/auth/oauth/signup'' req"

text \<open>\<open>None\<close> is \<open>{ needsSignup: false }\<close>.\<close>

record signup_needed =
  sn_provider :: jstring
  sn_providerId :: jstring
  sn_email :: "jstring option"

definition signInWithIdToken :: "'s cext \<Rightarrow> string \<Rightarrow> jstring \<Rightarrow> ('s client, thrown, signup_needed option) prog" where
  "signInWithIdToken x url idToken =
     bindP (startLoading x) (\<lambda>_.
     catchP
       (bindP (apiCall x (postRequest url
          (JObj (injectDeviceInfo x [(lit ''idToken'', JStr idToken)])))) (\<lambda>v.
        withData x v (\<lambda>data.
        if jsonTruthy (jsonField (lit ''needsSignup'') data) \<and> truthyOpt (stringField ''provider'' data)
          \<and> truthyOpt (stringField ''providerId'' data)
        then
          bindP (setW (setState x (\<lambda>s. s\<lparr>s_isLoading := False\<rparr>))) (\<lambda>_.
          Ret (Some \<lparr>sn_provider = the (stringField ''provider'' data),
            sn_providerId = the (stringField ''providerId'' data), sn_email = stringField ''email'' data\<rparr>))
        else bindP (storeTokens x data) (\<lambda>_. Ret None))))
       (rethrow x))"

definition signInWithGoogle :: "'s cext \<Rightarrow> jstring \<Rightarrow> ('s client, thrown, signup_needed option) prog" where
  "signInWithGoogle x idToken = signInWithIdToken x ''/auth/google'' idToken"

definition signInWithApple :: "'s cext \<Rightarrow> jstring \<Rightarrow> ('s client, thrown, signup_needed option) prog" where
  "signInWithApple x idToken = signInWithIdToken x ''/auth/apple'' idToken"

section \<open>The functions the screens call\<close>

datatype client_call =
    SendOtp fields
  | SignUpWithPhone fields
  | SignInWithPhone fields
  | SignUpWithOAuth fields
  | SignInWithGoogle jstring
  | SignInWithApple jstring
  | RefreshTokens
  | LogOut
  | ApiRequest areq

definition ignoreResult :: "('s client, thrown, 'a) prog \<Rightarrow> ('s client, thrown, unit) prog" where
  "ignoreResult p = bindP p (\<lambda>_. Ret ())"

primrec clientCall :: "'s cext \<Rightarrow> client_call \<Rightarrow> ('s client, thrown, unit) prog" where
  "clientCall x (SendOtp r) = ignoreResult (sendOtp x r)"
| "clientCall x (SignUpWithPhone r) = signUpWithPhone x r"
| "clientCall x (SignInWithPhone r) = signInWithPhone x r"
| "clientCall x (SignUpWithOAuth r) = signUpWithOAuth x r"
| "clientCall x (SignInWithGoogle t) = ignoreResult (signInWithGoogle x t)"
| "clientCall x (SignInWithApple t) = ignoreResult (signInWithApple x t)"
| "clientCall x RefreshTokens = client_refreshTokens x"
| "clientCall x LogOut = logOut x"
| "clientCall x (ApiRequest q) = ignoreResult (apiCall x q)"

section \<open>What every function keeps\<close>

locale service_guarantee = api_guarantee I R x
  for I :: "'s client \<Rightarrow> bool" and R :: "'s client \<Rightarrow> 's client \<Rightarrow> bool" and x :: "'s cext" +
  assumes sign_out: "I w \<Longrightarrow> I (clearAll x w) \<and> R w (clearAll x w)"
begin

lemma more_effects_keep:
  "guar I R (setW (clearAll x))" "guar I R (setW (clearUI x))" "guar I R (setW (clearError x))"
  "guar I R (startLoading x)" "guar I R (storeTokens x data)" "guar I R (awaitW (\<lambda>w. (Inr a, w)))"
  by (simp_all add: clearUI_def clearError_def startLoading_def storeTokens_def
      guar_setW guar_bindP guar_awaitW refl store sign_out)

lemmas service_intros = keeps_intros apiCall_keeps more_effects_keep

lemma authenticate_keeps: "guar I R (authenticate x url req)"
  by (auto simp: authenticate_def intro!: service_intros)

lemma signInWithIdToken_keeps: "guar I R (signInWithIdToken x url t)"
  by (auto simp: signInWithIdToken_def intro!: service_intros)

lemma clientCall_keeps: "guar I R (clientCall x call)"
proof (cases call)
  case (SendOtp r)
  then show ?thesis by (auto simp: ignoreResult_def sendOtp_def intro!: service_intros)
next
  case LogOut
  then show ?thesis by (auto simp: logOut_def intro!: service_intros)
next
  case RefreshTokens
  then show ?thesis by (simp add: client_refreshTokens_keeps)
qed (auto simp: ignoreResult_def signUpWithPhone_def signInWithPhone_def signUpWithOAuth_def
    signInWithGoogle_def signInWithApple_def intro!: service_intros authenticate_keeps signInWithIdToken_keeps)

lemma calls_keep:
  assumes "sys_step\<^sup>*\<^sup>* (w, map (clientCall x) calls) (w', ps)" and "I w"
  shows "I w' \<and> R w w'"
  using system_keeps[OF assms(1)] assms(2) by (simp add: list_all_iff clientCall_keeps)

end

section \<open>The storage mirrors the store\<close>

text \<open>What the storage will hold under the name of the store once the writes are done.\<close>

fun applyWrite :: "jstring option \<Rightarrow> storage_op \<Rightarrow> jstring option" where
  "applyWrite i (SetItem n v) = (if n = lit ''auth'' then Some v else i)"
| "applyWrite i (RemoveItem n) = (if n = lit ''auth'' then None else i)"

definition storedText :: "'s client \<Rightarrow> jstring option" where
  "storedText w = foldl applyWrite (cl_items w (lit ''auth'')) (cl_writes w)"

definition signedOut :: persisted_auth where
  "signedOut = \<lparr>p_accessToken = None, p_refreshToken = None, p_isAuthenticated = False\<rparr>"

definition mirrored :: "'s cext \<Rightarrow> 's client \<Rightarrow> bool" where
  "mirrored x w \<longleftrightarrow> storedText w = Some (cx_stringify x (partialize (cl_store w)))
     \<or> storedText w = None \<and> partialize (cl_store w) = signedOut"

definition anyChange :: "'s client \<Rightarrow> 's client \<Rightarrow> bool" where
  "anyChange w w' \<longleftrightarrow> True"

lemma mirrored_cong:
  "cl_store v = cl_store w \<Longrightarrow> cl_items v = cl_items w \<Longrightarrow> cl_writes v = cl_writes w
     \<Longrightarrow> mirrored x v = mirrored x w"
  by (simp add: mirrored_def storedText_def)

lemma mirrored_setState [simp]: "mirrored x (setState x f w)"
  by (simp add: mirrored_def storedText_def setState_def)

lemma mirrored_clearAll [simp]: "mirrored x (clearAll x w)"
  by (simp add: mirrored_def storedText_def clearAll_def setState_def Let_def signedOut_def partialize_def)

lemma mirrored_fields [simp]:
  "mirrored x (w\<lparr>cl_timers := ts\<rparr>) = mirrored x w"
  "mirrored x (w\<lparr>cl_refreshPromise := p\<rparr>) = mirrored x w"
  "mirrored x (w\<lparr>cl_promises := ps\<rparr>) = mirrored x w"
  "mirrored x (w\<lparr>cl_router := rs\<rparr>) = mirrored x w"
  "mirrored x (w\<lparr>cl_server := s, cl_now := t, cl_sent := qs\<rparr>) = mirrored x w"
  by (rule mirrored_cong; simp)+

interpretation mirror: service_guarantee "mirrored x" anyChange x
  for x
  by unfold_locales (simp_all add: anyChange_def)

lemma calls_keep_mirror:
  assumes "sys_step\<^sup>*\<^sup>* (w, map (clientCall x) calls) (w', ps)" and "mirrored x w"
  shows "mirrored x w'"
  using mirror.calls_keep[OF assms] by blast

end
