(* ===== verification/ClientForms.thy ===== *)
theory ClientForms
  imports ClientService Samples
begin

text \<open>
  The forms of the mobile application: \<open>useForm\<close> of
  \<open>packages/utils/expo/src/hooks/use-form.ts\<close> and the signup wizard \<open>useSignupFlow\<close> of
  \<open>packages/auth/expo/src/hooks\<close> with the controls of its screen \<open>app/(auth)/signup.tsx\<close>.

  The shape of a schema is the list of its fields with what \<open>safeParse\<close> says of a value. \<open>own\<close> is
  the text of the issues that have no message of their own.
\<close>

section \<open>\<open>useForm\<close>\<close>

type_synonym shape = "(jstring \<times> (json option \<Rightarrow> unit parsed)) list"

definition forget :: "'a parsed \<Rightarrow> unit parsed" where
  "forget r = (case r of Inl is \<Rightarrow> Inl is | Inr _ \<Rightarrow> Inr ())"

lemma forget_simps [simp]: "forget (Inl is) = Inl is" "forget (Inr a) = Inr ()"
  "forget r = Inr () \<longleftrightarrow> (\<exists>a. r = Inr a)"
  by (auto simp: forget_def split: sum.splits)

record form =
  fm_data :: "jstring \<Rightarrow> json option"
  fm_errors :: "jstring \<Rightarrow> jstring option"

definition validateField :: "jstring \<Rightarrow> (json option \<Rightarrow> unit parsed) \<Rightarrow> json option \<Rightarrow> jstring \<Rightarrow> jstring option" where
  "validateField own fieldSchema value field = (case fieldSchema value of
       Inr _ \<Rightarrow> None
     | Inl issues \<Rightarrow> Some (orElse
         (case issues of [] \<Rightarrow> None | (p, m) # _ \<Rightarrow> Some (case m of Some t \<Rightarrow> t | None \<Rightarrow> own))
         (field @ lit '' is invalid'')))"

definition updateFieldError :: "jstring \<Rightarrow> jstring option \<Rightarrow> (jstring \<Rightarrow> jstring option) \<Rightarrow> (jstring \<Rightarrow> jstring option)" where
  "updateFieldError field errorMessage errors =
     (if truthyOpt errorMessage then errors(field := errorMessage) else errors(field := None))"

definition useForm :: "shape \<Rightarrow> (jstring \<Rightarrow> json option) \<Rightarrow> form" where
  "useForm sh initialData = \<lparr>
     fm_data = (\<lambda>field. case map_of sh field of
         None \<Rightarrow> None
       | Some fieldSchema \<Rightarrow> (case initialData field of
            Some v \<Rightarrow> Some v
          | None \<Rightarrow> if fieldSchema None = Inr () then None else Some (JStr []))),
     fm_errors = (\<lambda>_. None)\<rparr>"

definition form_set :: "jstring \<Rightarrow> json \<Rightarrow> form \<Rightarrow> form" where
  "form_set field value f = f\<lparr>fm_data := (fm_data f)(field \<mapsto> value),
     fm_errors := updateFieldError field None (fm_errors f)\<rparr>"

definition formErrors :: "jstring \<Rightarrow> shape \<Rightarrow> jstring list \<Rightarrow> form \<Rightarrow> (jstring \<times> jstring) list" where
  "formErrors own sh names f = List.map_filter (\<lambda>fieldName. case map_of sh fieldName of
       None \<Rightarrow> None
     | Some fieldSchema \<Rightarrow>
         map_option (Pair fieldName) (validateField own fieldSchema (fm_data f fieldName) fieldName)) names"

definition form_validate :: "jstring \<Rightarrow> shape \<Rightarrow> jstring option \<Rightarrow> form \<Rightarrow> bool \<times> form" where
  "form_validate own sh field f =
     (let fieldsToValidate = (if truthyOpt field then [the field] else map fst sh);
          errs = formErrors own sh fieldsToValidate f
      in (errs = [],
          f\<lparr>fm_errors := (if truthyOpt field then updateFieldError (the field) (map_of errs (the field)) (fm_errors f)
             else map_of errs)\<rparr>))"

definition fieldOk :: "shape \<Rightarrow> form \<Rightarrow> jstring \<Rightarrow> bool" where
  "fieldOk sh f k = (case map_of sh k of None \<Rightarrow> True | Some s \<Rightarrow> s (fm_data f k) = Inr ())"

lemma validateField_None: "validateField own s v k = None \<longleftrightarrow> s v = Inr ()"
  by (auto simp: validateField_def split: sum.splits)

lemma truthy_validateField [simp]: "truthyOpt (validateField own s v k) \<longleftrightarrow> s v \<noteq> Inr ()"
proof (cases "s v")
  case (Inl issues)
  have "orElse w (k @ lit '' is invalid'') \<noteq> []" for w by (cases w) auto
  with Inl show ?thesis by (simp add: validateField_def)
qed (simp add: validateField_def)

lemma formErrors_Nil: "formErrors own sh names f = [] \<longleftrightarrow> (\<forall>k \<in> set names. fieldOk sh f k)"
proof (induction names)
  case (Cons k ks)
  show ?case
  proof (cases "map_of sh k")
    case None
    with Cons show ?thesis by (simp add: formErrors_def fieldOk_def map_filter_simps)
  next
    case (Some s)
    with Cons show ?thesis
      using validateField_None[of own s "fm_data f k" k]
      by (cases "validateField own s (fm_data f k) k") (simp_all add: formErrors_def fieldOk_def map_filter_simps)
  qed
qed (simp add: formErrors_def map_filter_simps)

lemma map_of_formErrors:
  "map_of (formErrors own sh names f) k =
     (if k \<in> set names then Option.bind (map_of sh k) (\<lambda>s. validateField own s (fm_data f k) k) else None)"
  by (induction names)
    (auto simp: formErrors_def map_filter_simps split: option.splits)

text \<open>Validating one field, and validating the form.\<close>

lemma form_validate_field:
  assumes "k \<noteq> []"
  shows "fst (form_validate own sh (Some k) f) = fieldOk sh f k"
    and "fm_data (snd (form_validate own sh (Some k) f)) = fm_data f"
    and "fm_errors (snd (form_validate own sh (Some k) f)) k = None \<longleftrightarrow> fieldOk sh f k"
    and "j \<noteq> k \<Longrightarrow> fm_errors (snd (form_validate own sh (Some k) f)) j = fm_errors f j"
proof -
  show "fst (form_validate own sh (Some k) f) = fieldOk sh f k"
    and "fm_data (snd (form_validate own sh (Some k) f)) = fm_data f"
    and "j \<noteq> k \<Longrightarrow> fm_errors (snd (form_validate own sh (Some k) f)) j = fm_errors f j"
    using assms by (simp_all add: form_validate_def Let_def formErrors_Nil updateFieldError_def)
  show "fm_errors (snd (form_validate own sh (Some k) f)) k = None \<longleftrightarrow> fieldOk sh f k"
    using assms
    by (auto simp: form_validate_def Let_def updateFieldError_def map_of_formErrors fieldOk_def
        validateField_None split: option.splits bind_splits)
qed

lemma form_validate_all:
  shows "fst (form_validate own sh None f) \<longleftrightarrow> (\<forall>k \<in> fst ` set sh. fieldOk sh f k)"
    and "fm_errors (snd (form_validate own sh None f)) k = None \<longleftrightarrow> fieldOk sh f k"
    and "fm_data (snd (form_validate own sh None f)) = fm_data f"
proof -
  show "fm_errors (snd (form_validate own sh None f)) k = None \<longleftrightarrow> fieldOk sh f k"
  proof (cases "map_of sh k")
    case None
    then show ?thesis by (simp add: form_validate_def Let_def map_of_formErrors fieldOk_def)
  next
    case (Some s)
    then have "k \<in> fst ` set sh" by (metis map_of_eq_None_iff option.distinct(1))
    with Some show ?thesis
      by (simp add: form_validate_def Let_def map_of_formErrors fieldOk_def validateField_None)
  qed
qed (simp_all add: form_validate_def Let_def formErrors_Nil)

section \<open>The shapes of the forms\<close>

text \<open>
  A shape is the \<open>.shape\<close> of a schema: its fields without what the schema builds from them. The
  lemmas after the definitions say that they are the shapes of the very schemas the server
  parses with: the issues of a schema are those of the fields of its shape, in their order.
\<close>

definition phoneSignupShape :: "ext \<Rightarrow> int \<Rightarrow> shape" where
  "phoneSignupShape x year =
     [(lit ''phone'', \<lambda>v. forget (phone v)), (lit ''code'', \<lambda>v. forget (otp v)),
      (lit ''name'', \<lambda>v. forget (userName x v)), (lit ''gender'', \<lambda>v. forget (gender v)),
      (lit ''birthYear'', \<lambda>v. forget (birthYear year v)),
      (lit ''deviceInfo'', \<lambda>v. forget (zOptional deviceInfo v))]"

definition oauthSignupShape :: "ext \<Rightarrow> int \<Rightarrow> shape" where
  "oauthSignupShape x year =
     [(lit ''provider'', \<lambda>v. forget (zEnum [(''google'', Google), (''apple'', Apple)] None v)),
      (lit ''providerId'', \<lambda>v. forget (zNonempty ''Provider ID is required'' v)),
      (lit ''email'', \<lambda>v. forget (email x v)), (lit ''name'', \<lambda>v. forget (userName x v)),
      (lit ''gender'', \<lambda>v. forget (gender v)), (lit ''birthYear'', \<lambda>v. forget (birthYear year v)),
      (lit ''deviceInfo'', \<lambda>v. forget (zOptional deviceInfo v))]"

definition otpRequestShape :: shape where
  "otpRequestShape = [(lit ''phone'', \<lambda>v. forget (phone v)), (lit ''purpose'', \<lambda>v. forget (otpRequestPurpose v))]"

definition issuesOf :: "'a parsed \<Rightarrow> issue list" where
  "issuesOf r = (case r of Inl is \<Rightarrow> is | Inr _ \<Rightarrow> [])"

definition shapeIssues :: "shape \<Rightarrow> fields \<Rightarrow> issue list" where
  "shapeIssues sh fs = concat (map (\<lambda>(k, s). map (\<lambda>(p, m). (k # p, m)) (issuesOf (s (map_of fs k)))) sh)"

lemma atPath_issues: "atPath k r = map (\<lambda>(p, m). (lit k # p, m)) (issuesOf (forget r))"
  by (cases r) (simp_all add: atPath_def issuesOf_def)

lemma issuesOf_case [simp]: "issuesOf (Inr a) = []" "issuesOf (Inl is) = is"
  by (simp_all add: issuesOf_def)

lemma otpRequestSchema_shape:
  "issuesOf (otpRequestSchema (Some (JObj fs))) = shapeIssues otpRequestShape fs"
  by (simp add: otpRequestSchema_def objectFields_def shapeIssues_def otpRequestShape_def Let_def atPath_issues[symmetric]
      split: sum.split) (simp add: atPath_def)

lemma phoneSignupSchema_shape:
  "issuesOf (phoneSignupSchema x year (Some (JObj fs))) = shapeIssues (phoneSignupShape x year) fs"
  by (simp add: phoneSignupSchema_def objectFields_def shapeIssues_def phoneSignupShape_def Let_def atPath_issues[symmetric]
      split: sum.split) (simp add: atPath_def)

lemma oauthSignupSchema_shape:
  "issuesOf (oauthSignupSchema x year (Some (JObj fs))) = shapeIssues (oauthSignupShape x year) fs"
  by (simp add: oauthSignupSchema_def objectFields_def shapeIssues_def oauthSignupShape_def Let_def atPath_issues[symmetric]
      del: zNonempty_eq_Inr split: sum.split) (simp add: atPath_def del: zNonempty_eq_Inr)

text \<open>The object a form sends: the fields that are not \<open>undefined\<close>.\<close>

definition formObject :: "shape \<Rightarrow> form \<Rightarrow> fields" where
  "formObject sh f = List.map_filter (\<lambda>k. map_option (Pair k) (fm_data f k)) (map fst sh)"

lemma map_of_formObject: "k \<in> fst ` set sh \<Longrightarrow> map_of (formObject sh f) k = fm_data f k"
proof -
  have "map_of (List.map_filter (\<lambda>k. map_option (Pair k) (g k)) ks) k = (if k \<in> set ks then g k else None)"
    for g :: "jstring \<Rightarrow> json option" and ks
    by (induction ks) (auto simp: map_filter_simps split: option.splits)
  then show "k \<in> fst ` set sh \<Longrightarrow> ?thesis" by (simp add: formObject_def)
qed

lemma phoneSignupSchema_accepts:
  "(\<exists>r. phoneSignupSchema x year (Some (JObj fs)) = Inr r) \<longleftrightarrow>
     (\<exists>a. phone (map_of fs (lit ''phone'')) = Inr a) \<and> (\<exists>a. otp (map_of fs (lit ''code'')) = Inr a)
     \<and> (\<exists>a. userName x (map_of fs (lit ''name'')) = Inr a) \<and> (\<exists>a. gender (map_of fs (lit ''gender'')) = Inr a)
     \<and> (\<exists>a. birthYear year (map_of fs (lit ''birthYear'')) = Inr a)
     \<and> (\<exists>a. zOptional deviceInfo (map_of fs (lit ''deviceInfo'')) = Inr a)"
  by (simp add: phoneSignupSchema_def objectFields_def andThen_def Let_def split: sum.splits)

lemma oauthSignupSchema_accepts:
  "(\<exists>r. oauthSignupSchema x year (Some (JObj fs)) = Inr r) \<longleftrightarrow>
     (\<exists>a. zEnum [(''google'', Google), (''apple'', Apple)] None (map_of fs (lit ''provider'')) = Inr a)
     \<and> (\<exists>a. zNonempty ''Provider ID is required'' (map_of fs (lit ''providerId'')) = Inr a)
     \<and> (\<exists>a. email x (map_of fs (lit ''email'')) = Inr a)
     \<and> (\<exists>a. userName x (map_of fs (lit ''name'')) = Inr a) \<and> (\<exists>a. gender (map_of fs (lit ''gender'')) = Inr a)
     \<and> (\<exists>a. birthYear year (map_of fs (lit ''birthYear'')) = Inr a)
     \<and> (\<exists>a. zOptional deviceInfo (map_of fs (lit ''deviceInfo'')) = Inr a)"
  by (simp add: oauthSignupSchema_def objectFields_def andThen_def Let_def del: zNonempty_eq_Inr split: sum.splits)

text \<open>
  C26. The form and the server agree on what is valid: validating the whole signup form succeeds
  exactly if the server's schema accepts the object the form stands for, for the signup with a
  phone and for the one with a provider; and after it the form shows an error for exactly the
  fields that are refused.
\<close>

theorem form_agrees_with_schema:
  "(fst (form_validate own (phoneSignupShape x year) None f) \<longleftrightarrow>
      (\<exists>r. phoneSignupSchema x year (Some (JObj (formObject (phoneSignupShape x year) f))) = Inr r))
   \<and> (fst (form_validate own (oauthSignupShape x year) None f) \<longleftrightarrow>
      (\<exists>r. oauthSignupSchema x year (Some (JObj (formObject (oauthSignupShape x year) f))) = Inr r))
   \<and> (fm_errors (snd (form_validate own sh None f)) k = None \<longleftrightarrow> fieldOk sh f k)"
  unfolding phoneSignupSchema_accepts oauthSignupSchema_accepts form_validate_all
  by (simp add: phoneSignupShape_def oauthSignupShape_def map_of_formObject fieldOk_def)

section \<open>The signup wizard\<close>

datatype signup_step = NameStep | BirthYearStep | GenderStep

record signup_params =
  sp_phone :: "jstring option"
  sp_provider :: "jstring option"
  sp_providerId :: "jstring option"
  sp_email :: "jstring option"

definition isOAuthSignup :: "signup_params \<Rightarrow> bool" where
  "isOAuthSignup p \<longleftrightarrow> truthyOpt (sp_provider p) \<and> truthyOpt (sp_providerId p)"

definition signupShape :: "ext \<Rightarrow> int \<Rightarrow> signup_params \<Rightarrow> shape" where
  "signupShape x year p = (if isOAuthSignup p then oauthSignupShape x year else phoneSignupShape x year)"

definition signupForm :: "ext \<Rightarrow> int \<Rightarrow> signup_params \<Rightarrow> form" where
  "signupForm x year p =
     (if isOAuthSignup p
      then useForm (oauthSignupShape x year) [lit ''provider'' \<mapsto> JStr (orElse (sp_provider p) (lit ''google'')),
        lit ''providerId'' \<mapsto> JStr (orElse (sp_providerId p) []), lit ''email'' \<mapsto> JStr (orElse (sp_email p) [])]
      else useForm (phoneSignupShape x year) [lit ''phone'' \<mapsto> JStr (orElse (sp_phone p) [])])"

text \<open>The years the picker offers, from the latest down to 1900, with their labels.\<close>

function yearsDown :: "int \<Rightarrow> (jstring \<times> int) list" where
  "yearsDown year = (if 1900 \<le> year then (intToString year, year) # yearsDown (year - 1) else [])"
  by pat_completeness auto

termination
  by (relation "measure (\<lambda>y. nat (y - 1899))") auto

declare yearsDown.simps [simp del]

definition birthYearOptions :: "int \<Rightarrow> (jstring \<times> int) list" where
  "birthYearOptions currentYear = yearsDown (currentYear - 13)"

record signup_flow =
  sf_step :: signup_step
  sf_form :: form

definition signupSteps :: "signup_step list" where
  "signupSteps = [NameStep, BirthYearStep, GenderStep]"

fun stepIndex :: "signup_step \<Rightarrow> nat" where
  "stepIndex NameStep = 0"
| "stepIndex BirthYearStep = 1"
| "stepIndex GenderStep = 2"

fun stepField :: "signup_step \<Rightarrow> jstring" where
  "stepField NameStep = lit ''name''"
| "stepField BirthYearStep = lit ''birthYear''"
| "stepField GenderStep = lit ''gender''"

definition isCurrentStepValid :: "signup_flow \<Rightarrow> bool" where
  "isCurrentStepValid fl = (let errors = fm_errors (sf_form fl); data = fm_data (sf_form fl) in
     case sf_step fl of
       NameStep \<Rightarrow> \<not> truthyOpt (errors (lit ''name''))
         \<and> (case data (lit ''name'') of Some (JStr s) \<Rightarrow> trim s \<noteq> [] | _ \<Rightarrow> False)
     | BirthYearStep \<Rightarrow> \<not> truthyOpt (errors (lit ''birthYear'')) \<and> jsonTruthy (data (lit ''birthYear''))
     | GenderStep \<Rightarrow> \<not> truthyOpt (errors (lit ''gender'')) \<and> jsonTruthy (data (lit ''gender'')))"

text \<open>\<open>handleNext\<close>: the second component says that \<open>handleCompleteSignup\<close> is called.\<close>

definition handleNext :: "jstring \<Rightarrow> shape \<Rightarrow> signup_flow \<Rightarrow> signup_flow \<times> bool" where
  "handleNext own sh fl = (case sf_step fl of
       NameStep \<Rightarrow> (case form_validate own sh (Some (lit ''name'')) (sf_form fl) of (ok, f) \<Rightarrow>
         if \<not> ok then (fl\<lparr>sf_form := f\<rparr>, False) else (\<lparr>sf_step = BirthYearStep, sf_form = f\<rparr>, False))
     | BirthYearStep \<Rightarrow> (case form_validate own sh (Some (lit ''birthYear'')) (sf_form fl) of (ok, f) \<Rightarrow>
         if \<not> ok then (fl\<lparr>sf_form := f\<rparr>, False) else (\<lparr>sf_step = GenderStep, sf_form = f\<rparr>, False))
     | GenderStep \<Rightarrow> (case form_validate own sh (Some (lit ''gender'')) (sf_form fl) of (ok, f) \<Rightarrow>
         (fl\<lparr>sf_form := f\<rparr>, ok)))"

text \<open>\<open>handleBack\<close>: \<open>None\<close> is \<open>router.back()\<close>.\<close>

definition signup_handleBack :: "signup_flow \<Rightarrow> signup_flow option" where
  "signup_handleBack fl =
     (if sf_step fl = NameStep then None
      else Some (fl\<lparr>sf_step := signupSteps ! (stepIndex (sf_step fl) - 1)\<rparr>))"

text \<open>
  The controls of the screen. Each step shows its own control; the button is disabled unless
  the step looks valid, and so is the return key of the name field.
\<close>

datatype signup_event =
    TypeName jstring
  | BlurName
  | SelectYear nat
  | PressGender gender
  | PressNext
  | PressBack

text \<open>The wizard with the forms it has submitted, and whether the screen has been left.\<close>

record signup_screen =
  ss_flow :: signup_flow
  ss_submitted :: "form list"
  ss_left :: bool

definition genderText :: "gender \<Rightarrow> jstring" where
  "genderText g = (case g of Male \<Rightarrow> lit ''male'' | Female \<Rightarrow> lit ''female'')"

definition updateForm :: "(form \<Rightarrow> form) \<Rightarrow> signup_screen \<Rightarrow> signup_screen" where
  "updateForm u s = s\<lparr>ss_flow := (ss_flow s)\<lparr>sf_form := u (sf_form (ss_flow s))\<rparr>\<rparr>"

definition pressNext :: "jstring \<Rightarrow> shape \<Rightarrow> signup_screen \<Rightarrow> signup_screen" where
  "pressNext own sh s = (if \<not> isCurrentStepValid (ss_flow s) then s
     else case handleNext own sh (ss_flow s) of (fl, completes) \<Rightarrow>
       s\<lparr>ss_flow := fl, ss_submitted := ss_submitted s @ (if completes then [sf_form fl] else [])\<rparr>)"

fun signupEvent :: "jstring \<Rightarrow> ext \<Rightarrow> int \<Rightarrow> shape \<Rightarrow> signup_screen \<Rightarrow> signup_event \<Rightarrow> signup_screen" where
  "signupEvent own x year sh s (TypeName text) = (if sf_step (ss_flow s) = NameStep
     then updateForm (form_set (lit ''name'') (JStr (capitalizeWords (x_toUpperCase x) (x_toLowerCase x) text))) s
     else s)"
| "signupEvent own x year sh s BlurName = (if sf_step (ss_flow s) = NameStep
     then updateForm (\<lambda>f. snd (form_validate own sh (Some (lit ''name'')) f)) s else s)"
| "signupEvent own x year sh s (SelectYear i) =
     (if sf_step (ss_flow s) = BirthYearStep \<and> i < length (birthYearOptions year)
      then updateForm (form_set (lit ''birthYear'') (JNum (of_int (snd (birthYearOptions year ! i))))) s else s)"
| "signupEvent own x year sh s (PressGender g) = (if sf_step (ss_flow s) = GenderStep
     then updateForm (form_set (lit ''gender'') (JStr (genderText g))) s else s)"
| "signupEvent own x year sh s PressNext = pressNext own sh s"
| "signupEvent own x year sh s PressBack = (case signup_handleBack (ss_flow s) of
       None \<Rightarrow> s\<lparr>ss_left := True\<rparr>
     | Some fl \<Rightarrow> s\<lparr>ss_flow := fl\<rparr>)"

definition signupScreen :: "ext \<Rightarrow> int \<Rightarrow> signup_params \<Rightarrow> signup_screen" where
  "signupScreen x year p = \<lparr>ss_flow = \<lparr>sf_step = NameStep, sf_form = signupForm x year p\<rparr>,
     ss_submitted = [], ss_left = False\<rparr>"

section \<open>The wizard submits only valid answers\<close>

definition profileOk :: "shape \<Rightarrow> form \<Rightarrow> bool" where
  "profileOk sh f \<longleftrightarrow> fieldOk sh f (lit ''name'') \<and> fieldOk sh f (lit ''birthYear'') \<and> fieldOk sh f (lit ''gender'')"

definition wizard_ok :: "shape \<Rightarrow> signup_screen \<Rightarrow> bool" where
  "wizard_ok sh s \<longleftrightarrow>
     (let f = sf_form (ss_flow s) in
       (sf_step (ss_flow s) \<noteq> NameStep \<longrightarrow> fieldOk sh f (lit ''name''))
     \<and> (sf_step (ss_flow s) = GenderStep \<longrightarrow> fieldOk sh f (lit ''birthYear'')))
     \<and> list_all (profileOk sh) (ss_submitted s)"

lemma fieldOk_form_set: "j \<noteq> k \<Longrightarrow> fieldOk sh (form_set k v f) j = fieldOk sh f j"
  by (simp add: fieldOk_def form_set_def split: option.splits)

lemma fieldOk_cong: "fm_data f = fm_data g \<Longrightarrow> fieldOk sh f k = fieldOk sh g k"
  by (simp add: fieldOk_def split: option.splits)

lemma fieldOk_validate [simp]: "k \<noteq> [] \<Longrightarrow> fieldOk sh (snd (form_validate own sh' (Some k) f)) j = fieldOk sh f j"
  by (intro fieldOk_cong form_validate_field)

lemma wizard_ok_next:
  assumes "wizard_ok sh s"
  shows "wizard_ok sh (pressNext own sh s)"
proof -
  let ?f = "sf_form (ss_flow s)" and ?k = "stepField (sf_step (ss_flow s))"
  obtain b g where v: "form_validate own sh (Some ?k) ?f = (b, g)" by fastforce
  have k: "?k \<noteq> []" by (cases "sf_step (ss_flow s)") simp_all
  have b: "b = fieldOk sh ?f ?k" and g: "fieldOk sh g j = fieldOk sh ?f j" for j
    using form_validate_field(1)[OF k, of own sh ?f] fieldOk_validate[OF k, of sh own sh ?f j] v by simp_all
  show ?thesis
    using assms v b g
    by (cases "sf_step (ss_flow s)")
      (auto simp: wizard_ok_def pressNext_def handleNext_def profileOk_def Let_def)
qed

interpretation wizard: event_machine "signupEvent own x year sh" "wizard_ok sh"
  for own x year sh
proof
  fix s e assume "wizard_ok sh s"
  then show "wizard_ok sh (signupEvent own x year sh s e)"
  proof (cases e)
    case PressNext
    then show ?thesis using \<open>wizard_ok sh s\<close> by (simp add: wizard_ok_next)
  next
    case PressBack
    then show ?thesis
      using \<open>wizard_ok sh s\<close>
      by (cases "sf_step (ss_flow s)")
        (auto simp: wizard_ok_def signup_handleBack_def signupSteps_def Let_def)
  qed (auto simp: wizard_ok_def updateForm_def fieldOk_form_set Let_def)
qed

text \<open>
  C27. The wizard submits only valid answers: however the user types, chooses, goes on and goes
  back, every time it submits a signup the name, the birth year and the gender of the form are
  valid.
\<close>

theorem wizard_submits_valid:
  assumes "f \<in> set (ss_submitted (foldl (signupEvent own x year (signupShape x year p)) (signupScreen x year p) events))"
  shows "profileOk (signupShape x year p) f"
proof -
  have "wizard_ok (signupShape x year p) (signupScreen x year p)"
    by (simp add: wizard_ok_def signupScreen_def)
  from wizard.run_good[OF this] assms show ?thesis
    by (auto simp: wizard_ok_def list_all_iff)
qed

definition sample_signup_params :: signup_params where
  "sample_signup_params = \<lparr>sp_phone = Some sample_phone, sp_provider = None, sp_providerId = None, sp_email = None\<rparr>"

definition sample_signup_run :: signup_screen where
  "sample_signup_run = foldl (signupEvent [] sample_ext 1913 (signupShape sample_ext 1913 sample_signup_params))
     (signupScreen sample_ext 1913 sample_signup_params)
     [TypeName (lit ''Ada''), PressNext, SelectYear 0, PressNext, PressGender Female, PressNext]"

lemma sample_name:
  "capitalizeWords (x_toUpperCase sample_ext) (x_toLowerCase sample_ext) (lit ''Ada'') = lit ''Ada''"
  "trim (lit ''Ada'') = lit ''Ada''" "userName sample_ext (Some (JStr (lit ''Ada''))) = Inr (lit ''Ada'')"
proof -
  show t: "trim (lit ''Ada'') = lit ''Ada''" by (rule trim_id) (simp add: lit_def isSpace_def)
  show "capitalizeWords (x_toUpperCase sample_ext) (x_toLowerCase sample_ext) (lit ''Ada'') = lit ''Ada''"
    by (simp add: capitalizeWords_def capitalizeWord_def splitSpaces.simps sample_ext_def lit_def isSpace_def
        hasLatinChars_def isLowerAlpha_def isUpperAlpha_def charAt0_def)
  show "userName sample_ext (Some (JStr (lit ''Ada''))) = Inr (lit ''Ada'')"
    using t by (simp add: userName_def andThen_def refineAll_def isNameText_def sample_ext_def lit_def
        isHighSurrogate_def zNonempty_def zString_def)
qed

lemma sample_profile:
  "birthYearOptions 1913 = [(intToString 1900, 1900)]" "birthYear 1913 (Some (JNum 1900)) = Inr 1900"
  "gender (Some (JStr (lit ''female''))) = Inr Female"
  "signupShape sample_ext year sample_signup_params = phoneSignupShape sample_ext year"
  by (simp_all add: birthYearOptions_def yearsDown.simps birthYear_def refineAll_def gender_def zEnum_def
      signupShape_def isOAuthSignup_def sample_signup_params_def)

theorem wizard_submits_valid_witness:
  "length (ss_submitted sample_signup_run) = 1
   \<and> list_all (profileOk (signupShape sample_ext 1913 sample_signup_params)) (ss_submitted sample_signup_run)"
proof
  show "length (ss_submitted sample_signup_run) = 1"
    by (simp add: sample_signup_run_def sample_name sample_profile signupScreen_def updateForm_def pressNext_def
        isCurrentStepValid_def handleNext_def form_validate_def form_set_def formErrors_def map_filter_simps
        phoneSignupShape_def validateField_def updateFieldError_def genderText_def Let_def)
  show "list_all (profileOk (signupShape sample_ext 1913 sample_signup_params)) (ss_submitted sample_signup_run)"
    using wizard_submits_valid[of _ "[]" sample_ext 1913 sample_signup_params]
    unfolding sample_signup_run_def list_all_iff by blast
qed

lemma set_yearsDown: "set (map snd (yearsDown y)) = {1900..y}"
proof (induction y rule: yearsDown.induct)
  case (1 y)
  show ?case
  proof (cases "1900 \<le> y")
    case True
    then have "set (map snd (yearsDown y)) = insert y (set (map snd (yearsDown (y - 1))))"
      by (subst yearsDown.simps) simp
    also have "\<dots> = insert y {1900..y - 1}" using "1.IH" True by simp
    also have "\<dots> = {1900..y}" using True by auto
    finally show ?thesis .
  next
    case False
    then show ?thesis by (subst yearsDown.simps) auto
  qed
qed

lemma yearsDown_labels: "(l, y) \<in> set (yearsDown n) \<Longrightarrow> l = intToString y"
proof (induction n rule: yearsDown.induct)
  case (1 n)
  then show ?case by (subst (asm) (2) yearsDown.simps) (auto split: if_splits)
qed

text \<open>
  The picker offers exactly the years the server accepts: an integer is the value of an
  option exactly if the schema of the birth year accepts it in the current year, and its label
  is its decimal text.
\<close>

lemma picker_years_are_valid:
  assumes "year - 13 < 2 ^ 53"
  shows "((\<exists>l. (l, y) \<in> set (birthYearOptions year)) \<longleftrightarrow> birthYear year (Some (JNum (of_int y))) = Inr y)
    \<and> (\<forall>l. (l, y) \<in> set (birthYearOptions year) \<longrightarrow> l = intToString y)"
proof -
  have "(\<exists>l. (l, y) \<in> set (yearsDown (year - 13))) \<longleftrightarrow> y \<in> set (map snd (yearsDown (year - 13)))"
    by force
  also have "\<dots> \<longleftrightarrow> 1900 \<le> y \<and> y \<le> year - 13" by (simp only: set_yearsDown atLeastAtMost_iff)
  also have "\<dots> \<longleftrightarrow> birthYear year (Some (JNum (of_int y))) = Inr y"
    using assms by (auto simp: birthYear_def refineAll_def)
  finally show ?thesis by (simp add: birthYearOptions_def yearsDown_labels)
qed

end
