(* ===== verification/ClientSession.thy ===== *)
theory ClientSession
  imports ClientService
begin

text \<open>
  Properties of the client's session: it survives a restart, an expired token is refreshed and
  the request repeated once, a logout that returns ends signed out, and what a failed refresh
  leaves behind.
\<close>

section \<open>Restarts\<close>

text \<open>A restart of the application: the memory is lost, the storage stays.\<close>

definition restart :: "'s client \<Rightarrow> 's client" where
  "restart w = w\<lparr>cl_store := initialStore, cl_writes := [], cl_refreshPromise := None, cl_promises := [],
     cl_timers := []\<rparr>"

lemma flush_items:
  "cl_faults w = [] \<Longrightarrow> cl_items (foldl (\<lambda>v op. runWrite op v) w ops) (lit ''auth'')
     = foldl applyWrite (cl_items w (lit ''auth'')) ops
   \<and> cl_faults (foldl (\<lambda>v op. runWrite op v) w ops) = []"
proof (induction ops arbitrary: w)
  case (Cons op ops)
  from Cons.prems have "cl_faults (runWrite op w) = []"
    and "cl_items (runWrite op w) (lit ''auth'') = applyWrite (cl_items w (lit ''auth'')) op"
    by (cases op; simp add: storage_setItem_def storage_removeItem_def faulty_def afterCall_def)+
  with Cons.IH[of "runWrite op w"] show ?case by simp
qed simp

lemma flushWrites_text:
  assumes "cl_faults w = []"
  shows "cl_items (flushWrites w) (lit ''auth'') = storedText w" "cl_faults (flushWrites w) = []"
  using flush_items[of "w\<lparr>cl_writes := []\<rparr>" "cl_writes w"] assms
  by (simp_all add: flushWrites_def storedText_def)

lemma rehydrate_restart:
  assumes parse: "\<forall>p. cx_parse x (cx_stringify x p) = Some p"
    and mirror: "mirrored x w" and faults: "cl_faults w = []"
  shows "cl_store (rehydrate x (restart (flushWrites w))) =
    (mergePersisted (partialize (cl_store w)) initialStore)\<lparr>s_isAuthLoading := False\<rparr>"
proof -
  let ?r = "restart (flushWrites w)"
  have "cl_items ?r (lit ''auth'') = storedText w" and "\<not> faulty ?r" and "cl_store ?r = initialStore"
    using faults by (simp_all add: restart_def flushWrites_text faulty_def)
  moreover have "mergePersisted signedOut initialStore = initialStore"
    by (simp add: mergePersisted_def signedOut_def initialStore_def)
  ultimately show ?thesis
    using mirror parse unfolding mirrored_def
    by (auto simp: rehydrate_def storage_getItem_def afterCall_def onRehydrateStorage_def Let_def)
qed

text \<open>
  C16. A session survives a restart: after a fresh installation, whatever calls of the
  authentication service run together and however they interleave, and wherever they are
  interrupted, once the issued writes have reached the storage the restarted application has the
  same access token and the same refresh token and is signed in exactly if it was; it is no longer
  loading, and shows no error.
\<close>

theorem session_survives_restart:
  assumes "\<forall>p. cx_parse x (cx_stringify x p) = Some p"
    and "cl_store w = initialStore" "cl_items w (lit ''auth'') = None" "cl_writes w = []"
    and "sys_step\<^sup>*\<^sup>* (w, map (clientCall x) calls) (w', ps)" and "cl_faults w' = []"
  defines "s \<equiv> cl_store (rehydrate x (restart (flushWrites w')))"
  shows "s_accessToken s = s_accessToken (cl_store w') \<and> s_refreshToken s = s_refreshToken (cl_store w')
    \<and> s_isAuthenticated s = s_isAuthenticated (cl_store w')
    \<and> \<not> s_isAuthLoading s \<and> \<not> s_isLoading s \<and> s_error s = None"
proof -
  have "mirrored x w"
    using assms(2-4) by (simp add: mirrored_def storedText_def initialStore_def partialize_def signedOut_def)
  from calls_keep_mirror[OF assms(5) this] assms(1,6)
  have "s = (mergePersisted (partialize (cl_store w')) initialStore)\<lparr>s_isAuthLoading := False\<rparr>"
    unfolding s_def by (intro rehydrate_restart)
  then show ?thesis
    by (simp add: mergePersisted_def partialize_def initialStore_def)
qed

section \<open>Refreshing\<close>

definition refreshRequest :: "jstring \<Rightarrow> areq" where
  "refreshRequest t = postRequest ''/auth/token/refresh'' (JObj [(lit ''refreshToken'', JStr t)])"

lemma refreshRequest_public: "\<not> startsWith (rq_url (refreshRequest t)) (lit ''~'')"
  by (simp add: refreshRequest_def refresh_path_public)

text \<open>The answer of a refresh that succeeds with the tokens \<open>a\<close> and \<open>b\<close>.\<close>

definition tokenAnswer :: "axios_response \<Rightarrow> jstring \<Rightarrow> jstring \<Rightarrow> bool" where
  "tokenAnswer r a b \<longleftrightarrow> 200 \<le> ar_status r \<and> ar_status r \<le> 299
     \<and> stringField ''accessToken'' (ar_data r) = Some a \<and> stringField ''refreshToken'' (ar_data r) = Some b"

definition refreshedStore :: "jstring \<Rightarrow> jstring \<Rightarrow> auth_store \<Rightarrow> auth_store" where
  "refreshedStore a b s = s\<lparr>s_accessToken := Some a, s_refreshToken := Some b, s_isLoading := True, s_error := None\<rparr>"

lemma stringField_JNull [simp]: "stringField k JNull = None"
  by (simp add: stringField_def)

lemma withData_tokens:
  assumes "tokenAnswer r a b"
  shows "withData x (Resp r) k = k (ar_data r)"
  using assms by (auto simp: withData_def tokenAnswer_def split: json.splits)

lemma run_refreshTokensWith_ok:
  assumes t: "s_refreshToken (cl_store w) = Some t" "t \<noteq> []"
    and r: "fst (cx_send x (cl_server w) (refreshRequest t)) = Inr r" "tokenAnswer r a b"
  shows "\<exists>w'. run (refreshTokensWith x (api (Suc n) x)) w = (Done (), w')
    \<and> cl_store w' = refreshedStore a b (cl_store w) \<and> cl_sent w' = cl_sent w @ [refreshRequest t]
    \<and> cl_refreshPromise w' = cl_refreshPromise w \<and> cl_promises w' = cl_promises w
    \<and> cl_timers w' = cl_timers w \<and> cl_server w' = cl_server (afterSend x (refreshRequest t) w)"
proof -
  let ?v = "setState x (\<lambda>s. s\<lparr>s_isLoading := True, s_error := None\<rparr>) w"
  have "reply x (refreshRequest t) ?v = Inr r"
    using r by (simp add: reply_def tokenAnswer_def)
  then have "run (api (Suc n) x (refreshRequest t)) ?v = (Done (Resp r), afterSend x (refreshRequest t) ?v)"
    by (simp add: run_api_Suc run_interceptor_public refreshRequest_public)
  with t r show ?thesis
    by (auto simp: refreshTokensWith_def withData_tokens refreshRequest_def[symmetric] refreshedStore_def
        tokenAnswer_def afterSend_def split: prod.splits)
qed

lemma run_awaitRefresh_ok:
  assumes "s_refreshToken (cl_store w) = Some t" "t \<noteq> []" "cl_refreshPromise w = None"
    and "fst (cx_send x (cl_server w) (refreshRequest t)) = Inr r" "tokenAnswer r a b"
  shows "\<exists>w'. run (awaitRefresh x (api (Suc n) x)) w = (Done (), w')
    \<and> cl_store w' = refreshedStore a b (cl_store w) \<and> cl_sent w' = cl_sent w @ [refreshRequest t]
    \<and> cl_refreshPromise w' = None \<and> cl_timers w' = cl_timers w
    \<and> cl_server w' = cl_server (afterSend x (refreshRequest t) w)"
proof -
  let ?v = "snd (newPromise w)"
  have v: "cl_store ?v = cl_store w" "cl_server ?v = cl_server w" "cl_sent ?v = cl_sent w"
    "cl_timers ?v = cl_timers w" "cl_promises ?v = cl_promises w @ [Pending]"
    by (simp_all add: newPromise_def)
  from run_refreshTokensWith_ok[of ?v t x r a b n] assms(1,2,4,5) obtain w' where
    "run (refreshTokensWith x (api (Suc n) x)) ?v = (Done (), w')"
    "cl_store w' = refreshedStore a b (cl_store w)" "cl_sent w' = cl_sent w @ [refreshRequest t]"
    "cl_promises w' = cl_promises w @ [Pending]" "cl_timers w' = cl_timers w"
    "cl_server w' = cl_server (afterSend x (refreshRequest t) w)"
    unfolding v by (auto simp: afterSend_def v split: prod.splits)
  with assms(3) show ?thesis
    by (simp add: awaitRefresh_def settlePromise_def newPromise_def)
qed

text \<open>An error that does not start a refresh ends the call; at most it plans a logout.\<close>

definition refreshable :: "axios_error \<Rightarrow> bool" where
  "refreshable e \<longleftrightarrow> (case ae_response e of None \<Rightarrow> False | Some r \<Rightarrow>
     isObject (ar_data r) \<and> ar_status r = 401 \<and> responseCode (ar_data r) = JStr (lit ''EXPIRED_TOKEN'')
     \<and> \<not> rq_retry (ae_config e))"

definition plainBody :: "axios_error \<Rightarrow> json" where
  "plainBody e = (case ae_response e of
       None \<Rightarrow> if \<not> truthyOpt (ae_code e) then UNKNOWN_ERROR
         else if ae_code e = Some (lit ''ERR_NETWORK'') then axios_err ''NETWORK_ERROR''
         else if ae_code e \<in> {Some (lit ''ECONNABORTED''), Some (lit ''ETIMEDOUT'')} then axios_err ''TIMEOUT_ERROR''
         else UNKNOWN_ERROR
     | Some r \<Rightarrow> if isObject (ar_data r) then ar_data r else axios_err ''INVALID_RESPONSE'')"

definition plainTimers :: "axios_error \<Rightarrow> timer list" where
  "plainTimers e = (case ae_response e of None \<Rightarrow> [] | Some r \<Rightarrow>
     if isObject (ar_data r) \<and> ar_status r = 401
       \<and> responseCode (ar_data r) \<in> {JStr (lit ''INVALID_TOKEN''), JStr (lit ''INVALID_REFRESH_TOKEN'')}
     then [LogOutTimer] else [])"

definition bodyOutcome :: "json \<Rightarrow> (thrown, api_value) outcome" where
  "bodyOutcome b = (if jsonTruthy (jsonField (lit ''code'') b) then Thrown (bodyThrown b) else Done (Body b))"

lemma run_handleError_plain:
  assumes "\<not> refreshable e"
  shows "run (handleError x f e) w = (Done (Body (plainBody e)), w\<lparr>cl_timers := cl_timers w @ plainTimers e\<rparr>)"
proof (cases "ae_response e")
  case None
  then show ?thesis by (simp add: handleError_def plainBody_def plainTimers_def)
next
  case (Some r)
  show ?thesis
  proof (cases "isObject (ar_data r)")
    case True
    with Some assms have "\<not> (ar_status r = 401 \<and> responseCode (ar_data r) = JStr (lit ''EXPIRED_TOKEN'')
        \<and> \<not> rq_retry (ae_config e))"
      by (simp add: refreshable_def)
    with Some True show ?thesis
      by (simp only: handleError_def Let_def option.case if_False if_True simp_thms run_bindP)
        (simp add: plainBody_def plainTimers_def)
  next
    case False
    with Some show ?thesis by (simp add: handleError_def plainBody_def plainTimers_def)
  qed
qed

lemma run_responseInterceptor_plain:
  "\<not> refreshable e \<Longrightarrow> run (responseInterceptor x f e) w
     = (bodyOutcome (plainBody e), w\<lparr>cl_timers := cl_timers w @ plainTimers e\<rparr>)"
  by (simp add: responseInterceptor_def run_handleError_plain bodyOutcome_def)

lemma bodyOutcome_not_hung [simp]: "bodyOutcome b \<noteq> Hung" "bodyOutcome b \<noteq> Done (Resp r)"
  by (simp_all add: bodyOutcome_def)

text \<open>An error that does: the refresh, then the same request again.\<close>

lemma run_responseInterceptor_expired:
  assumes "refreshable e"
  shows "run (responseInterceptor x f e) w = (case run (awaitRefresh x f) w of
      (Done _, v) \<Rightarrow>
        (case run (f ((ae_config e)\<lparr>rq_retry := True,
            rq_authorization := Some (bearer (s_accessToken (cl_store v)))\<rparr>)) v of
           (Done (Body b), u) \<Rightarrow> (bodyOutcome b, u)
         | (Done (Resp r), u) \<Rightarrow> (Done (Resp r), u)
         | (Thrown t, u) \<Rightarrow> (Thrown t, u)
         | (Hung, u) \<Rightarrow> (Hung, u))
    | (Thrown t, v) \<Rightarrow> (Thrown t, v)
    | (Hung, v) \<Rightarrow> (Hung, v))"
proof -
  from assms obtain r where r: "ae_response e = Some r" "isObject (ar_data r)" "ar_status r = 401"
    "responseCode (ar_data r) = JStr (lit ''EXPIRED_TOKEN'')" "\<not> rq_retry (ae_config e)"
    by (auto simp: refreshable_def split: option.splits)
  have "handleError x f e = bindP (awaitRefresh x f) (\<lambda>_. bindP getState (\<lambda>s.
      f ((ae_config e)\<lparr>rq_retry := True, rq_authorization := Some (bearer (s_accessToken s))\<rparr>)))"
    by (simp add: handleError_def Let_def r)
  then show ?thesis
    by (simp add: responseInterceptor_def bodyOutcome_def split: outcome.splits prod.splits api_value.splits)
qed

text \<open>
  C12. An expired token is refreshed and the request is repeated exactly once: when the server
  answers a private request with \<open>EXPIRED_TOKEN\<close> and the refresh with new tokens, the client
  sends the request, the refresh, and the request again with the new token, and nothing else;
  the store holds the new tokens, and a response to the repeated request is the result. The
  refresh leaves the loading flag of the screens set.
\<close>

theorem expired_request_retried_once:
  assumes url: "rq_url q = lit ''~'' @ path" "\<not> startsWith path (lit ''~'')" "\<not> rq_retry q"
    and token: "s_accessToken (cl_store w) = Some tok" "tok \<noteq> []" "\<not> needsTokenRefresh x tok (cl_now w)"
    and refresh: "s_refreshToken (cl_store w) = Some t" "t \<noteq> []" "cl_refreshPromise w = None"
  defines "q1 \<equiv> q\<lparr>rq_url := path, rq_authorization := Some (bearer (Some tok))\<rparr>"
  assumes expired: "fst (cx_send x (cl_server w) q1) = Inr r1" "ar_status r1 = 401" "isObject (ar_data r1)"
      "responseCode (ar_data r1) = JStr (lit ''EXPIRED_TOKEN'')"
    and refreshed: "fst (cx_send x (cl_server (afterSend x q1 w)) (refreshRequest t)) = Inr r2" "tokenAnswer r2 a b"
  defines "q2 \<equiv> q1\<lparr>rq_retry := True, rq_authorization := Some (bearer (Some a))\<rparr>"
    and "s2 \<equiv> cl_server (afterSend x (refreshRequest t) (afterSend x q1 w))"
    and "w' \<equiv> snd (run (apiCall x q) w)"
  shows "cl_sent w' = cl_sent w @ [q1, refreshRequest t, q2]
    \<and> cl_store w' = refreshedStore a b (cl_store w) \<and> cl_refreshPromise w' = None
    \<and> fst (run (apiCall x q) w) \<noteq> Hung
    \<and> (\<forall>r3. fst (cx_send x s2 q2) = Inr r3 \<and> 200 \<le> ar_status r3 \<and> ar_status r3 \<le> 299
         \<longrightarrow> fst (run (apiCall x q) w) = Done (Resp r3))"
proof -
  let ?e = "\<lparr>ae_code = Some (lit ''ERR_BAD_RESPONSE''), ae_response = Some r1, ae_config = q1\<rparr>"
  have int: "run (requestInterceptor x f q) w = (Done q1, w)" for f
    using url token by (simp add: requestInterceptor_def q1_def startsWith_def Let_def lit_def)
  have rep: "reply x q1 w = Inl ?e" using expired by (simp add: reply_def)
  have ref: "refreshable ?e" using expired url by (simp add: refreshable_def q1_def)
  from run_awaitRefresh_ok[of "afterSend x q1 w" t x r2 a b "Suc 0"] refresh refreshed
  obtain v where v: "run (awaitRefresh x (api (Suc (Suc 0)) x)) (afterSend x q1 w) = (Done (), v)"
    "cl_store v = refreshedStore a b (cl_store w)" "cl_sent v = cl_sent w @ [q1, refreshRequest t]"
    "cl_refreshPromise v = None" "cl_server v = s2"
    by (auto simp: s2_def)
  have int2: "run (requestInterceptor x f q2) v = (Done q2, v)" for f
    using url by (simp add: run_interceptor_public q2_def q1_def)
  have main: "run (apiCall x q) w = (case run (api (Suc (Suc 0)) x q2) v of
        (Done (Body b), u) \<Rightarrow> (bodyOutcome b, u)
      | (Done (Resp r), u) \<Rightarrow> (Done (Resp r), u)
      | (Thrown t, u) \<Rightarrow> (Thrown t, u)
      | (Hung, u) \<Rightarrow> (Hung, u))"
    by (simp add: apiCall_def callDepth_def numeral_3_eq_3 run_api_Suc[of "Suc (Suc 0)"] int rep
        run_responseInterceptor_expired[OF ref] v q2_def refreshedStore_def)
  show ?thesis
  proof (cases "reply x q2 v")
    case (Inr r)
    then have "run (api (Suc (Suc 0)) x q2) v = (Done (Resp r), afterSend x q2 v)"
      by (simp add: run_api_Suc[of "Suc 0"] int2)
    moreover from Inr have "fst (cx_send x s2 q2) = Inr r"
      by (auto simp: reply_def v split: sum.splits if_splits)
    ultimately show ?thesis by (simp add: main w'_def v)
  next
    case (Inl e)
    have "\<not> refreshable e"
      using reply_config[OF Inl] by (simp add: refreshable_def q2_def split: option.splits)
    then have "run (api (Suc (Suc 0)) x q2) v = (bodyOutcome (plainBody e),
        (afterSend x q2 v)\<lparr>cl_timers := cl_timers v @ plainTimers e\<rparr>)"
      by (simp add: run_api_Suc[of "Suc 0"] int2 Inl run_responseInterceptor_plain)
    moreover from Inl have "\<not> (\<exists>r3. fst (cx_send x s2 q2) = Inr r3 \<and> 200 \<le> ar_status r3 \<and> ar_status r3 \<le> 299)"
      by (auto simp: reply_def v)
    ultimately show ?thesis
      by (auto simp: main w'_def v split: outcome.splits api_value.splits)
  qed
qed

section \<open>A failed refresh\<close>

text \<open>A property of the world that every execution of a function keeps.\<close>

definition keeps :: "('w \<Rightarrow> bool) \<Rightarrow> ('w, 'e, 'a) prog \<Rightarrow> bool" where
  "keeps P p \<longleftrightarrow> (\<forall>w. P w \<longrightarrow> P (snd (run p w)))"

lemma keeps_simps [simp]: "keeps P (Ret a)" "keeps P (Throw e)" "keeps P Hang" "keeps P (getW g)"
  by (simp_all add: keeps_def)

lemma keeps_bind: "keeps P p \<Longrightarrow> (\<And>a. keeps P (k a)) \<Longrightarrow> keeps P (bindP p k)"
  unfolding keeps_def by (fastforce split: outcome.splits prod.splits)

lemma keeps_try: "keeps P p \<Longrightarrow> keeps P (tryP p)"
  unfolding keeps_def by (fastforce split: outcome.splits prod.splits)

lemma keeps_catch: "keeps P p \<Longrightarrow> (\<And>e. keeps P (h e)) \<Longrightarrow> keeps P (catchP p h)"
  unfolding catchP_def by (intro keeps_bind keeps_try) (auto split: sum.splits)

lemma keeps_finally: "keeps P p \<Longrightarrow> keeps P q \<Longrightarrow> keeps P (finallyP p q)"
  unfolding finallyP_def by (intro keeps_bind keeps_try) (auto split: sum.splits)

text \<open>
  The part of the world that the service does not touch: the router, the state of the hooks, the
  images, the stored items.
\<close>

definition sideOf :: "'s client \<Rightarrow> navigation list \<times> ui \<times> upload_state \<times> (jstring \<Rightarrow> jstring option) \<times> bool list" where
  "sideOf w = (cl_router w, cl_ui w, cl_upload w, cl_items w, cl_faults w)"

definition aside :: "navigation list \<times> ui \<times> upload_state \<times> (jstring \<Rightarrow> jstring option) \<times> bool list \<Rightarrow> 's client \<Rightarrow> bool" where
  "aside a w \<longleftrightarrow> sideOf w = a"

lemma aside_effects [simp]:
  "keeps (aside a) (setW (setState x f))" "keeps (aside a) (setW (clearAll x))"
  "keeps (aside a) (setW (clearUI x))" "keeps (aside a) (setW (clearError x))" "keeps (aside a) getState"
  "keeps (aside a) logOutSoon" "keeps (aside a) (dispatch x q)" "keeps (aside a) (rethrow x d)"
  "keeps (aside a) (syncW newPromise)" "keeps (aside a) (setW (settlePromise i s))"
  "keeps (aside a) (awaitPromise i)" "keeps (aside a) (setW (\<lambda>w. w\<lparr>cl_refreshPromise := p\<rparr>))"
  by (auto simp: keeps_def aside_def sideOf_def setState_def clearAll_def clearUI_def clearError_def afterSend_def
      newPromise_def settlePromise_def Let_def split: prod.splits promise_state.splits)

lemma aside_withData: "(\<And>d. keeps (aside a) (k d)) \<Longrightarrow> keeps (aside a) (withData x v k)"
  by (auto simp: withData_def split: option.splits json.splits)

lemmas aside_intros = keeps_bind keeps_try keeps_catch keeps_finally aside_withData

lemma aside_awaitRefresh:
  assumes "\<And>q. keeps (aside a) (f q)"
  shows "keeps (aside a) (awaitRefresh x f)"
  unfolding awaitRefresh_def refreshTokensWith_def
  by (intro aside_intros) (auto intro!: aside_intros assms split: option.splits)

lemma aside_api: "keeps (aside a) (api n x q)"
proof (induction n arbitrary: q)
  case (Suc n)
  then show ?case
    by (auto simp: api.simps requestInterceptor_def responseInterceptor_def handleError_def Let_def
        intro!: aside_intros aside_awaitRefresh split: sum.splits option.splits api_value.splits)
qed simp

lemma aside_apiCall [simp]: "keeps (aside a) (apiCall x q)"
  by (simp add: apiCall_def aside_api)

lemma aside_service [simp]:
  "keeps (aside a) (authenticate x url req)" "keeps (aside a) (sendOtp x req)"
  "keeps (aside a) (signInWithIdToken x url t)"
  by (auto simp: authenticate_def sendOtp_def signInWithIdToken_def startLoading_def storeTokens_def
      intro!: aside_intros)

lemma aside_run: "keeps (aside (sideOf w)) p \<Longrightarrow> run p w = (out, w') \<Longrightarrow> sideOf w' = sideOf w"
  by (metis aside_def keeps_def snd_conv)

text \<open>The module variable holds a promise that was rejected with \<open>e\<close>.\<close>

definition poisoned :: "thrown \<Rightarrow> 's client \<Rightarrow> bool" where
  "poisoned e w \<longleftrightarrow> (case cl_refreshPromise w of None \<Rightarrow> False | Some i \<Rightarrow> cl_promises w ! i = RejectedWith e)"

lemma poisoned_cong:
  "cl_refreshPromise v = cl_refreshPromise w \<Longrightarrow> cl_promises v = cl_promises w \<Longrightarrow> poisoned e v = poisoned e w"
  by (simp add: poisoned_def split: option.splits)

lemma clearAll_simps [simp]:
  "cl_refreshPromise (clearAll x w) = cl_refreshPromise w" "cl_promises (clearAll x w) = cl_promises w"
  "cl_refreshPromise (clearUI x w) = cl_refreshPromise w" "cl_promises (clearUI x w) = cl_promises w"
  by (simp_all add: clearAll_def clearUI_def Let_def)

lemma poisoned_effects [simp]:
  "keeps (poisoned e) (setW (setState x f))" "keeps (poisoned e) (setW (clearAll x))"
  "keeps (poisoned e) (setW (clearUI x))" "keeps (poisoned e) getState" "keeps (poisoned e) logOutSoon"
  "keeps (poisoned e) (dispatch x q)" "keeps (poisoned e) (rethrow x d)"
  "keeps (poisoned e) (awaitW (\<lambda>w. (Inr a, w)))"
  by (simp_all add: keeps_def poisoned_def split: option.splits)

lemma poisoned_awaitRefresh: "poisoned e w \<Longrightarrow> run (awaitRefresh x f) w = (Thrown e, w)"
  by (auto simp: poisoned_def run_awaitRefresh_present split: option.splits)

lemma poisoned_keeps_awaitRefresh [simp]: "keeps (poisoned e) (awaitRefresh x f)"
  by (simp add: keeps_def poisoned_awaitRefresh)

lemma poisoned_withData: "(\<And>d. keeps (poisoned e) (k d)) \<Longrightarrow> keeps (poisoned e) (withData x v k)"
  by (auto simp: withData_def split: option.splits json.splits)

lemmas poisoned_intros = keeps_bind keeps_try keeps_catch keeps_finally poisoned_withData

lemma poisoned_interceptors:
  assumes "\<And>q. keeps (poisoned d) (f q)"
  shows "keeps (poisoned d) (requestInterceptor x f q)" "keeps (poisoned d) (responseInterceptor x f e)"
  unfolding requestInterceptor_def responseInterceptor_def handleError_def Let_def
  by (auto intro!: poisoned_intros assms split: option.splits api_value.splits)

lemma poisoned_api: "keeps (poisoned d) (api n x q)"
proof (induction n arbitrary: q)
  case (Suc n)
  then show ?case
    by (auto simp: api.simps intro!: poisoned_intros poisoned_interceptors split: sum.splits)
qed simp

lemma poisoned_apiCall [simp]: "keeps (poisoned d) (apiCall x q)"
  by (simp add: apiCall_def poisoned_api)

lemma poisoned_clientCall: "keeps (poisoned d) (clientCall x call)"
proof (cases call)
  case (SendOtp r)
  then show ?thesis
    by (auto simp: ignoreResult_def sendOtp_def startLoading_def intro!: poisoned_intros)
next
  case LogOut
  then show ?thesis by (auto simp: logOut_def intro!: poisoned_intros)
next
  case RefreshTokens
  then show ?thesis by (auto simp: client_refreshTokens_def refreshTokensWith_def intro!: poisoned_intros)
qed (auto simp: ignoreResult_def signUpWithPhone_def signInWithPhone_def signUpWithOAuth_def
    signInWithGoogle_def signInWithApple_def authenticate_def signInWithIdToken_def storeTokens_def
    startLoading_def intro!: poisoned_intros)

definition afterCalls :: "'s cext \<Rightarrow> client_call list \<Rightarrow> 's client \<Rightarrow> 's client" where
  "afterCalls x calls w = foldl (\<lambda>w call. snd (run (clientCall x call) w)) w calls"

lemma poisoned_afterCalls: "poisoned d w \<Longrightarrow> poisoned d (afterCalls x calls w)"
  unfolding afterCalls_def
proof (induction calls arbitrary: w)
  case (Cons call calls)
  from poisoned_clientCall[of d x call] Cons.prems have "poisoned d (snd (run (clientCall x call) w))"
    by (simp add: keeps_def)
  with Cons.IH show ?case by simp
qed simp

definition privateUrl :: "areq \<Rightarrow> bool" where
  "privateUrl q \<longleftrightarrow> startsWith (rq_url q) (lit ''~'')"

text \<open>A private call is due for a refresh: it has a token, in the last tenth of its life.\<close>

definition refreshDue :: "'s cext \<Rightarrow> 's client \<Rightarrow> bool" where
  "refreshDue x w \<longleftrightarrow> (case s_accessToken (cl_store w) of None \<Rightarrow> False
     | Some t \<Rightarrow> t \<noteq> [] \<and> needsTokenRefresh x t (cl_now w))"

lemma run_interceptor_due:
  assumes "privateUrl q" "refreshDue x w"
  shows "run (requestInterceptor x f q) w = (case run (awaitRefresh x f) w of
      (Done _, v) \<Rightarrow> (Done (q\<lparr>rq_url := tl (rq_url q),
         rq_authorization := Some (bearer (s_accessToken (cl_store v)))\<rparr>), v)
    | (Thrown e, v) \<Rightarrow> (Thrown e, v)
    | (Hung, v) \<Rightarrow> (Hung, v))"
proof -
  from assms(2) obtain t where "s_accessToken (cl_store w) = Some t" "t \<noteq> []" "needsTokenRefresh x t (cl_now w)"
    by (auto simp: refreshDue_def split: option.splits)
  with assms(1) show ?thesis
    by (simp add: requestInterceptor_def privateUrl_def Let_def split: outcome.splits prod.splits)
qed

lemma poisoned_call_fails:
  assumes "poisoned e w" "privateUrl q" "refreshDue x w"
  shows "run (apiCall x q) w = (Thrown e, w)"
  by (simp add: apiCall_def callDepth_def numeral_3_eq_3 run_api_Suc[of "Suc (Suc 0)"]
      run_interceptor_due[OF assms(2,3)] poisoned_awaitRefresh[OF assms(1)])

definition networkError :: thrown where
  "networkError = ThrownObj (Some (lit ''Network error. Please check your connection.''))
     (Some (lit ''Network error. Please check your connection.'')) (Some (CodeText (lit ''NETWORK_ERROR'')))"

lemma refresh_network_failure:
  assumes t: "s_refreshToken (cl_store w) = Some t" "t \<noteq> []" "cl_refreshPromise w = None"
    and "fst (cx_send x (cl_server w) (refreshRequest t)) = Inl (Some (lit ''ERR_NETWORK''))"
  shows "\<exists>v. run (awaitRefresh x (api (Suc n) x)) w = (Thrown networkError, v) \<and> poisoned networkError v
    \<and> s_accessToken (cl_store v) = s_accessToken (cl_store w) \<and> cl_now v = cl_now (afterSend x (refreshRequest t) w)"
proof -
  let ?v = "setState x (\<lambda>s. s\<lparr>s_isLoading := True, s_error := None\<rparr>) (snd (newPromise w))"
  let ?e = "\<lparr>ae_code = Some (lit ''ERR_NETWORK''), ae_response = None, ae_config = refreshRequest t\<rparr>"
  have "reply x (refreshRequest t) ?v = Inl ?e"
    using assms(4) by (simp add: reply_def newPromise_def)
  moreover have "\<not> refreshable ?e" by (simp add: refreshable_def)
  ultimately have r: "run (api (Suc n) x (refreshRequest t)) ?v =
      (bodyOutcome (axios_err ''NETWORK_ERROR''), afterSend x (refreshRequest t) ?v)"
    by (simp add: run_api_Suc run_interceptor_public refreshRequest_public run_responseInterceptor_plain
        plainBody_def plainTimers_def)
  have b: "bodyOutcome (axios_err ''NETWORK_ERROR'') = Thrown (bodyThrown (axios_err ''NETWORK_ERROR''))"
    by (simp add: bodyOutcome_def axios_err_def errorBody_def)
  have n: "ThrownObj (Some (thrownText (bodyThrown (axios_err ''NETWORK_ERROR''))))
      (Some (thrownText (bodyThrown (axios_err ''NETWORK_ERROR''))))
      (Some (thrownCode (bodyThrown (axios_err ''NETWORK_ERROR'')))) = networkError"
    by (simp add: networkError_def bodyThrown_def axios_err_def errorBody_def thrownText_def thrownCode_def)
  have s: "s_refreshToken (cl_store (snd (newPromise w))) = Some t"
    using t by (simp add: newPromise_def)
  have "\<exists>v. run (refreshTokensWith x (api (Suc n) x)) (snd (newPromise w)) = (Thrown networkError, v)
      \<and> cl_refreshPromise v = Some (length (cl_promises w)) \<and> cl_promises v = cl_promises w @ [Pending]
      \<and> s_accessToken (cl_store v) = s_accessToken (cl_store w) \<and> cl_now v = cl_now (afterSend x (refreshRequest t) w)"
    by (simp add: refreshTokensWith_def s t(2) refreshRequest_def[symmetric] r b n)
      (simp add: newPromise_def afterSend_def setState_def split: prod.splits)
  then obtain v where "run (refreshTokensWith x (api (Suc n) x)) (snd (newPromise w)) = (Thrown networkError, v)"
      "cl_refreshPromise v = Some (length (cl_promises w))" "cl_promises v = cl_promises w @ [Pending]"
      "s_accessToken (cl_store v) = s_accessToken (cl_store w)" "cl_now v = cl_now (afterSend x (refreshRequest t) w)"
    by blast
  then show ?thesis
    using t(3) by (simp add: awaitRefresh_def settlePromise_def newPromise_def poisoned_def)
qed

text \<open>
  C31. One failed refresh disables all later ones: when the refresh before a private request
  fails because the network is down for a moment, the request fails with a network error, and
  from then on, whatever calls follow (a logout and a new sign-in among them), with a server and
  a network that work again, every private request that is due for a refresh fails with that
  same old error, and sends nothing.
\<close>

theorem failed_refresh_disables_later_ones:
  assumes "privateUrl q" "refreshDue x w"
    and "s_refreshToken (cl_store w) = Some t" "t \<noteq> []" "cl_refreshPromise w = None"
    and "fst (cx_send x (cl_server w) (refreshRequest t)) = Inl (Some (lit ''ERR_NETWORK''))"
    and "v = afterCalls y calls (snd (run (apiCall x q) w))" "privateUrl p" "refreshDue y v"
  shows "fst (run (apiCall x q) w) = Thrown networkError \<and> run (apiCall y p) v = (Thrown networkError, v)"
proof -
  from refresh_network_failure[OF assms(3-6), of "Suc 0"] obtain u where
    u: "run (awaitRefresh x (api (Suc (Suc 0)) x)) w = (Thrown networkError, u)" "poisoned networkError u" by blast
  then have r: "run (apiCall x q) w = (Thrown networkError, u)"
    by (simp add: apiCall_def callDepth_def numeral_3_eq_3 run_api_Suc[of "Suc (Suc 0)"]
        run_interceptor_due[OF assms(1,2)])
  with u(2) assms(7) have "poisoned networkError v" by (simp add: poisoned_afterCalls)
  with r assms(8,9) show ?thesis by (simp add: poisoned_call_fails)
qed

section \<open>Every call returns\<close>

text \<open>
  \<open>completes P p\<close>: started where \<open>P\<close> holds, \<open>p\<close> returns or throws, and \<open>P\<close> holds again.
\<close>

definition completes :: "('w \<Rightarrow> bool) \<Rightarrow> ('w, 'e, 'a) prog \<Rightarrow> bool" where
  "completes P p \<longleftrightarrow> (\<forall>w. P w \<longrightarrow> fst (run p w) \<noteq> Hung \<and> P (snd (run p w)))"

lemma completes_simps [simp]: "completes P (Ret a)" "completes P (Throw e)" "completes P (getW g)"
  by (simp_all add: completes_def)

lemma completes_bind: "completes P p \<Longrightarrow> (\<And>a. completes P (k a)) \<Longrightarrow> completes P (bindP p k)"
  unfolding completes_def by (fastforce split: outcome.splits prod.splits)

lemma completes_try: "completes P p \<Longrightarrow> completes P (tryP p)"
  unfolding completes_def by (fastforce split: outcome.splits prod.splits)

lemma completes_catch: "completes P p \<Longrightarrow> (\<And>e. completes P (h e)) \<Longrightarrow> completes P (catchP p h)"
  unfolding catchP_def by (intro completes_bind completes_try) (auto split: sum.splits)

lemma completes_finally: "completes P p \<Longrightarrow> completes P q \<Longrightarrow> completes P (finallyP p q)"
  unfolding finallyP_def by (intro completes_bind completes_try) (auto split: sum.splits)

text \<open>A property of the two promise fields only.\<close>

definition promises_prop :: "(nat option \<Rightarrow> promise_state list \<Rightarrow> bool) \<Rightarrow> 's client \<Rightarrow> bool" where
  "promises_prop P w \<longleftrightarrow> P (cl_refreshPromise w) (cl_promises w)"

lemma completes_effects [simp]:
  "completes (promises_prop P) (setW (setState x f))" "completes (promises_prop P) (setW (clearAll x))"
  "completes (promises_prop P) (setW (clearUI x))" "completes (promises_prop P) getState"
  "completes (promises_prop P) logOutSoon" "completes (promises_prop P) (dispatch x q)"
  "completes (promises_prop P) (rethrow x d)" "completes (promises_prop P) (awaitW (\<lambda>w. (Inr a, w)))"
  by (simp_all add: completes_def promises_prop_def split: sum.splits)

lemma completes_withData:
  "(\<And>d. completes (promises_prop P) (k d)) \<Longrightarrow> completes (promises_prop P) (withData x v k)"
  by (auto simp: withData_def split: option.splits json.splits)

lemma completes_plain:
  "\<not> refreshable e \<Longrightarrow> completes (promises_prop P) (responseInterceptor x f e)"
  by (simp add: completes_def run_responseInterceptor_plain promises_prop_def)

lemmas completes_intros = completes_bind completes_try completes_catch completes_finally completes_withData

text \<open>The server does not answer a refresh with \<open>EXPIRED_TOKEN\<close>.\<close>

definition never_expired :: "'s cext \<Rightarrow> bool" where
  "never_expired x \<longleftrightarrow> (\<forall>s q r. rq_url q = lit ''/auth/token/refresh'' \<and> fst (cx_send x s q) = Inr r
     \<longrightarrow> \<not> (ar_status r = 401 \<and> responseCode (ar_data r) = JStr (lit ''EXPIRED_TOKEN'')))"

definition unblocked :: "nat option \<Rightarrow> promise_state list \<Rightarrow> bool" where
  "unblocked p ps \<longleftrightarrow> (case p of None \<Rightarrow> True | Some i \<Rightarrow> ps ! i \<noteq> Pending)"

lemma completes_refresh_request:
  assumes "never_expired x"
  shows "completes (promises_prop P) (api (Suc n) x (refreshRequest t))"
  unfolding completes_def
proof (intro allI impI)
  fix w :: "'a client" assume w: "promises_prop P w"
  have r: "run (requestInterceptor x f (refreshRequest t)) w = (Done (refreshRequest t), w)" for f
    by (simp add: run_interceptor_public refreshRequest_public)
  show "fst (run (api (Suc n) x (refreshRequest t)) w) \<noteq> Hung
      \<and> promises_prop P (snd (run (api (Suc n) x (refreshRequest t)) w))"
  proof (cases "reply x (refreshRequest t) w")
    case (Inr a)
    with w show ?thesis by (simp add: run_api_Suc r promises_prop_def)
  next
    case (Inl e)
    have "rq_url (refreshRequest t) = lit ''/auth/token/refresh''"
      by (simp add: refreshRequest_def postRequest_def)
    with assms have "\<not> (ar_status r = 401 \<and> responseCode (ar_data r) = JStr (lit ''EXPIRED_TOKEN''))"
      if "fst (cx_send x (cl_server w) (refreshRequest t)) = Inr r" for r
      using that unfolding never_expired_def by blast
    with Inl have "\<not> refreshable e"
      by (auto simp: reply_def refreshable_def split: sum.splits if_splits)
    with Inl w show ?thesis
      by (simp add: run_api_Suc r run_responseInterceptor_plain promises_prop_def)
  qed
qed

lemma completes_refreshTokensWith:
  "never_expired x \<Longrightarrow> completes (promises_prop P) (refreshTokensWith x (api (Suc n) x))"
  unfolding refreshTokensWith_def
  by (auto simp: refreshRequest_def[symmetric] intro!: completes_intros completes_refresh_request)

lemma completes_awaitRefresh:
  assumes "never_expired x"
  shows "completes (promises_prop unblocked) (awaitRefresh x (api (Suc n) x))"
  unfolding completes_def
proof (intro allI impI)
  fix w :: "'a client" assume w: "promises_prop unblocked w"
  show "fst (run (awaitRefresh x (api (Suc n) x)) w) \<noteq> Hung
      \<and> promises_prop unblocked (snd (run (awaitRefresh x (api (Suc n) x)) w))"
  proof (cases "cl_refreshPromise w")
    case (Some i)
    with w show ?thesis
      by (auto simp: run_awaitRefresh_present promises_prop_def unblocked_def split: promise_state.splits)
  next
    case None
    let ?v = "snd (newPromise w)" and ?i = "length (cl_promises w)"
    have "promises_prop (\<lambda>p ps. p = Some ?i \<and> ps = cl_promises w @ [Pending]) ?v"
      by (simp add: newPromise_def promises_prop_def)
    moreover obtain out u where r: "run (refreshTokensWith x (api (Suc n) x)) ?v = (out, u)"
      by (rule prod.exhaust)
    ultimately have "out \<noteq> Hung" "cl_refreshPromise u = Some ?i" "cl_promises u = cl_promises w @ [Pending]"
      using completes_refreshTokensWith[OF assms, of "\<lambda>p ps. p = Some ?i \<and> ps = cl_promises w @ [Pending]" n]
      unfolding completes_def promises_prop_def by (metis fst_conv snd_conv)+
    with None r show ?thesis
      by (cases out) (simp_all add: awaitRefresh_def settlePromise_def newPromise_def promises_prop_def unblocked_def)
  qed
qed

lemma completes_requestInterceptor:
  "never_expired x \<Longrightarrow> completes (promises_prop unblocked) (requestInterceptor x (api (Suc n) x) q)"
  unfolding requestInterceptor_def Let_def
  by (auto intro!: completes_intros completes_awaitRefresh)

lemma retry_kept: "run (requestInterceptor x f q) w = (Done q', w') \<Longrightarrow> rq_retry q' = rq_retry q"
  by (auto simp: requestInterceptor_def Let_def split: if_splits outcome.splits prod.splits)

lemma completes_api_Suc:
  assumes "completes (promises_prop P) (requestInterceptor x (api n x) q)"
    and "\<And>e. rq_retry (ae_config e) = rq_retry q \<Longrightarrow> completes (promises_prop P) (responseInterceptor x (api n x) e)"
  shows "completes (promises_prop P) (api (Suc n) x q)"
  unfolding completes_def
proof (intro allI impI)
  fix w :: "'a client" assume w: "promises_prop P w"
  obtain out v where r: "run (requestInterceptor x (api n x) q) w = (out, v)" by fastforce
  with assms(1) w have v: "promises_prop P v" "out \<noteq> Hung" by (auto simp: completes_def)
  show "fst (run (api (Suc n) x q) w) \<noteq> Hung \<and> promises_prop P (snd (run (api (Suc n) x q) w))"
  proof (cases out)
    case (Done q')
    have "completes (promises_prop P) (responseInterceptor x (api n x) e)" if "reply x q' v = Inl e" for e
      using reply_config[OF that] retry_kept[of x _ q w q' v] r Done by (intro assms(2)) simp
    moreover have "promises_prop P (afterSend x q' v)" using v by (simp add: promises_prop_def)
    ultimately show ?thesis
      by (simp add: run_api_Suc r Done completes_def split: sum.splits)
  qed (use r v in \<open>simp_all add: run_api_Suc\<close>)
qed

lemma completes_apiCall:
  assumes "never_expired x"
  shows "completes (promises_prop unblocked) (apiCall x q)"
proof -
  have retry: "completes (promises_prop unblocked) (api (Suc (Suc n)) x q)" if "rq_retry q" for n q
    using that
    by (intro completes_api_Suc completes_requestInterceptor[OF assms] completes_plain)
      (simp add: refreshable_def split: option.splits)
  have "completes (promises_prop unblocked) (responseInterceptor x (api (Suc (Suc n)) x) e)" for n e
    unfolding responseInterceptor_def handleError_def Let_def
    by (auto intro!: completes_intros completes_awaitRefresh[OF assms] retry split: option.splits api_value.splits)
  then show ?thesis
    unfolding apiCall_def callDepth_def numeral_3_eq_3
    by (intro completes_api_Suc completes_requestInterceptor[OF assms])
qed

lemma completes_clientCall:
  assumes "never_expired x"
  shows "completes (promises_prop unblocked) (clientCall x call)"
proof (cases call)
  case (SendOtp r)
  then show ?thesis
    by (auto simp: ignoreResult_def sendOtp_def startLoading_def intro!: completes_intros completes_apiCall assms)
next
  case LogOut
  then show ?thesis by (auto simp: logOut_def intro!: completes_intros completes_apiCall assms)
next
  case RefreshTokens
  then show ?thesis
    by (simp add: client_refreshTokens_def apiCall_def callDepth_def numeral_3_eq_3
        completes_refreshTokensWith assms)
qed (auto simp: ignoreResult_def signUpWithPhone_def signInWithPhone_def signUpWithOAuth_def
    signInWithGoogle_def signInWithApple_def authenticate_def signInWithIdToken_def storeTokens_def
    startLoading_def intro!: completes_intros completes_apiCall assms)

text \<open>
  C23. Every call of the service returns: against a server that does not answer a refresh with
  \<open>EXPIRED_TOKEN\<close>, and with no refresh pending, any sequence of calls runs to its end, whatever
  the answers and failures of the network are, and leaves no refresh pending.
\<close>

theorem client_calls_return:
  assumes "never_expired x" "unblocked (cl_refreshPromise w) (cl_promises w)"
    and "v = afterCalls x calls w"
  shows "fst (run (clientCall x call) v) \<noteq> Hung \<and> unblocked (cl_refreshPromise v) (cl_promises v)"
proof -
  have "promises_prop unblocked (afterCalls x calls w)"
    using assms(2)
  proof (induction calls arbitrary: w rule: rev_induct)
    case Nil
    then show ?case by (simp add: afterCalls_def promises_prop_def)
  next
    case (snoc c cs)
    then show ?case
      using completes_clientCall[OF assms(1), of c] by (simp add: afterCalls_def completes_def)
  qed
  then show ?thesis
    using completes_clientCall[OF assms(1), of call] assms(3) by (simp add: completes_def promises_prop_def)
qed

lemma clearAll_signs_out:
  "partialize (cl_store (clearAll x w)) = signedOut" "\<not> s_isLoading (cl_store (clearAll x w))"
  "s_error (cl_store (clearAll x w)) = None" "storedText (clearAll x w) = None"
  by (simp_all add: clearAll_def setState_def Let_def partialize_def signedOut_def storedText_def)

text \<open>
  C24. A logout that returns has signed out: whatever the server, the network and the sign-in
  libraries answer, if the call of the logout, with no other call under way, comes to an end,
  then it ends without an error, the store holds no tokens and no error and is not signed in,
  and the storage, once the issued writes are done, holds no session. And it does come to an
  end when no refresh is pending at its start and the server does not answer a refresh with
  \<open>EXPIRED_TOKEN\<close>.
\<close>

theorem logOut_clears:
  assumes "run (logOut x) w = (out, w')"
  shows "(out \<noteq> Hung \<longrightarrow> out = Done () \<and> s_accessToken (cl_store w') = None \<and> s_refreshToken (cl_store w') = None
      \<and> \<not> s_isAuthenticated (cl_store w') \<and> \<not> s_isLoading (cl_store w') \<and> s_error (cl_store w') = None
      \<and> storedText w' = None)
    \<and> (never_expired x \<and> unblocked (cl_refreshPromise w) (cl_promises w) \<longrightarrow> out \<noteq> Hung)"
proof
  have "out = Hung \<or> (\<exists>v. run (logOut x) w = (Done (), clearAll x v))"
    using assms by (auto simp: logOut_def split: outcome.splits prod.splits)
  then show "out \<noteq> Hung \<longrightarrow> out = Done () \<and> s_accessToken (cl_store w') = None \<and> s_refreshToken (cl_store w') = None
      \<and> \<not> s_isAuthenticated (cl_store w') \<and> \<not> s_isLoading (cl_store w') \<and> s_error (cl_store w') = None
      \<and> storedText w' = None"
    using assms clearAll_signs_out by (auto simp: partialize_def signedOut_def)
  show "never_expired x \<and> unblocked (cl_refreshPromise w) (cl_promises w) \<longrightarrow> out \<noteq> Hung"
  proof
    assume a: "never_expired x \<and> unblocked (cl_refreshPromise w) (cl_promises w)"
    then have "completes (promises_prop unblocked) (logOut x)"
      using completes_clientCall[of x LogOut] by simp
    with a show "out \<noteq> Hung" using assms by (auto simp: completes_def promises_prop_def)
  qed
qed

section \<open>A sample client\<close>

definition sample_device :: device where
  "sample_device = \<lparr>dv_os = lit ''ios'', dv_version = lit ''17.5'', dv_modelName = Some (lit ''iPhone''),
     dv_modelId = None, dv_brand = Some (lit ''Apple''), dv_deviceYearClass = Some 2023,
     dv_appVersion = Some (lit ''1.0''), dv_iosBuildNumber = None, dv_androidVersionCode = None\<rparr>"

text \<open>A coding of the persisted state that can be read back.\<close>

definition sampleText :: "jstring \<Rightarrow> jstring" where
  "sampleText t = concat (map (\<lambda>u. [1, u]) t) @ [0]"

fun sampleReadText :: "jstring \<Rightarrow> (jstring \<times> jstring) option" where
  "sampleReadText (c # u # r) = (if c = 0 then Some ([], u # r)
     else map_option (\<lambda>(t, r'). (u # t, r')) (sampleReadText r))"
| "sampleReadText [c] = (if c = 0 then Some ([], []) else None)"
| "sampleReadText [] = None"

fun sampleOpt :: "jstring option \<Rightarrow> jstring" where
  "sampleOpt None = [0]"
| "sampleOpt (Some t) = 1 # sampleText t"

fun sampleReadOpt :: "jstring \<Rightarrow> (jstring option \<times> jstring) option" where
  "sampleReadOpt (c # r) = (if c = 0 then Some (None, r)
     else map_option (\<lambda>(t, r'). (Some t, r')) (sampleReadText r))"
| "sampleReadOpt [] = None"

definition sampleStringify :: "persisted_auth \<Rightarrow> jstring" where
  "sampleStringify p = sampleOpt (p_accessToken p) @ sampleOpt (p_refreshToken p)
     @ [if p_isAuthenticated p then 1 else 0]"

definition sampleParse :: "jstring \<Rightarrow> persisted_auth option" where
  "sampleParse s = Option.bind (sampleReadOpt s) (\<lambda>(a, s). Option.bind (sampleReadOpt s) (\<lambda>(b, s).
     case s of [c] \<Rightarrow> Some \<lparr>p_accessToken = a, p_refreshToken = b, p_isAuthenticated = (c = 1)\<rparr> | _ \<Rightarrow> None))"

lemma sampleReadText_code: "sampleReadText (sampleText t @ r) = Some (t, r)"
proof (induction t)
  case Nil
  then show ?case by (cases r) (simp_all add: sampleText_def)
qed (simp add: sampleText_def)

lemma sampleReadOpt_code: "sampleReadOpt (sampleOpt t @ r) = Some (t, r)"
  by (cases t) (simp_all add: sampleReadText_code)

lemma sampleParse_stringify: "sampleParse (sampleStringify p) = Some p"
  by (cases p) (simp add: sampleParse_def sampleStringify_def sampleReadOpt_code)

text \<open>The server is a function of the number of requests it has served.\<close>

definition sample_cext :: "(nat \<Rightarrow> areq \<Rightarrow> jstring option + axios_response) \<Rightarrow> nat cext" where
  "sample_cext f = \<lparr>cx_send = (\<lambda>n q. (f n q, 0, Suc n)),
     cx_jwtDecode = (\<lambda>t. Some \<lparr>jwt_sub = t, jwt_iat = 0, jwt_exp = 1800\<rparr>),
     cx_stringify = sampleStringify, cx_parse = sampleParse,
     cx_typeErrorText = lit ''undefined is not an object'', cx_googleClientIds = (Some (lit ''ios''), Some (lit ''web'')),
     cx_googlePlayServices = None, cx_googleSignIn = None, cx_googleTokens = Inr (Some (lit ''idtoken'')),
     cx_appleSignIn = Inr (Some (lit ''idtoken'')), cx_device = sample_device\<rparr>"

definition sample_client :: "timestamp \<Rightarrow> auth_store \<Rightarrow> nat client" where
  "sample_client t s = \<lparr>cl_store = s, cl_items = (\<lambda>k. None), cl_writes = [], cl_faults = [],
     cl_refreshPromise = None, cl_promises = [], cl_timers = [], cl_now = t, cl_server = 0, cl_sent = [],
     cl_router = [], cl_ui = \<lparr>ui_resendTimer = 60, ui_otpError = None, ui_otpResets = 0, ui_phoneLoading = False,
       ui_googleLoading = False, ui_googleError = None, ui_appleLoading = False, ui_appleError = None\<rparr>,
     cl_upload = \<lparr>us_images = [], us_isPicking = False, us_isUploading = False, us_initialImages = [],
       us_uploadingImages = {}, us_uploadedImages = {}, us_errors = [], us_drawn = 0\<rparr>\<rparr>"

definition sample_session :: auth_store where
  "sample_session = \<lparr>s_accessToken = Some (lit ''old''), s_refreshToken = Some (lit ''r1''),
     s_isAuthenticated = True, s_isAuthLoading = False, s_isLoading = False, s_error = None\<rparr>"

definition sample_tokens :: axios_response where
  "sample_tokens = \<lparr>ar_status = 200,
     ar_data = JObj [(lit ''accessToken'', JStr (lit ''new'')), (lit ''refreshToken'', JStr (lit ''r2''))]\<rparr>"

definition sample_expired :: axios_response where
  "sample_expired = \<lparr>ar_status = 401,
     ar_data = JObj [(lit ''error'', JStr (lit ''Access token expired'')), (lit ''code'', JStr (lit ''EXPIRED_TOKEN''))]\<rparr>"

definition sample_private :: areq where
  "sample_private = \<lparr>rq_method = lit ''get'', rq_url = lit ''~/me'', rq_data = JNull,
     rq_authorization = None, rq_retry = False\<rparr>"

lemmas sample_client_defs = sample_cext_def sample_client_def sample_session_def sample_private_def

lemma sample_due [simp]:
  "refreshDue (sample_cext f) (sample_client t sample_session) \<longleftrightarrow> 1620 \<le> t div 1000"
  by (auto simp: refreshDue_def needsTokenRefresh_def sample_client_defs)

lemma sample_fields [simp]:
  "cl_store (sample_client t s) = s" "cl_refreshPromise (sample_client t s) = None"
  "cl_promises (sample_client t s) = []" "cl_server (sample_client t s) = 0" "cl_now (sample_client t s) = t"
  "s_refreshToken sample_session = Some (lit ''r1'')" "s_accessToken sample_session = Some (lit ''old'')"
  "cx_send (sample_cext f) n q = (f n q, 0, Suc n)"
  by (simp_all add: sample_client_defs)

lemma sample_answers [simp]:
  "tokenAnswer sample_tokens (lit ''new'') (lit ''r2'')" "privateUrl sample_private"
  by (simp_all add: tokenAnswer_def sample_tokens_def stringField_def privateUrl_def sample_private_def
      startsWith_def lit_def)

lemma sample_sign_in:
  fixes f assumes "\<And>n q. f n q = Inr sample_tokens"
  shows "\<exists>w. run (clientCall (sample_cext f) (SignInWithPhone [])) (sample_client t initialStore) = (Done (), w)
    \<and> partialize (cl_store w) = \<lparr>p_accessToken = Some (lit ''new''), p_refreshToken = Some (lit ''r2''), p_isAuthenticated = True\<rparr>
    \<and> cl_faults w = []"
  by (simp add: signInWithPhone_def authenticate_def startLoading_def storeTokens_def apiCall_def callDepth_def
      numeral_3_eq_3 run_api_Suc run_interceptor_public refresh_path_public reply_def assms sample_cext_def
      sample_tokens_def withData_def stringField_def clearUI_def afterSend_def setState_def sample_client_def
      partialize_def)

theorem session_survives_restart_witness:
  "\<exists>(w'::nat client). s_accessToken (cl_store (rehydrate (sample_cext (\<lambda>n q. Inr sample_tokens)) (restart (flushWrites w'))))
     = Some (lit ''new'')"
proof -
  let ?x = "sample_cext (\<lambda>n q. Inr sample_tokens)" and ?w = "sample_client 0 initialStore"
  obtain w where w: "run (clientCall ?x (SignInWithPhone [])) ?w = (Done (), w)"
    "partialize (cl_store w) = \<lparr>p_accessToken = Some (lit ''new''), p_refreshToken = Some (lit ''r2''), p_isAuthenticated = True\<rparr>"
    "cl_faults w = []"
    using sample_sign_in[of "\<lambda>n q. Inr sample_tokens" 0] by blast
  have "sys_step\<^sup>*\<^sup>* (?w, map (clientCall ?x) [SignInWithPhone []]) (w, [Ret ()])"
    using run_alone_done[of "clientCall ?x (SignInWithPhone [])" ?w] w by (simp del: clientCall.simps)
  then have "s_accessToken (cl_store (rehydrate ?x (restart (flushWrites w)))) = s_accessToken (cl_store w)"
    using session_survives_restart[of ?x ?w "[SignInWithPhone []]" w "[Ret ()]"] w(3)
    by (simp del: clientCall.simps add: sampleParse_stringify sample_cext_def sample_client_def)
  moreover have "s_accessToken (cl_store w) = Some (lit ''new'')"
    using w(2) by (simp add: partialize_def)
  ultimately show ?thesis by metis
qed

theorem expired_request_retried_once_witness:
  "map rq_authorization (cl_sent (snd (run (apiCall
       (sample_cext (\<lambda>n q. Inr (if n = 0 then sample_expired else sample_tokens))) sample_private)
     (sample_client 0 sample_session))))
   = [Some (lit ''Bearer old''), None, Some (lit ''Bearer new'')]"
proof -
  let ?x = "sample_cext (\<lambda>n q. Inr (if n = 0 then sample_expired else sample_tokens))"
  have "cl_sent (snd (run (apiCall ?x sample_private) (sample_client 0 sample_session))) =
      cl_sent (sample_client 0 sample_session) @
      [sample_private\<lparr>rq_url := lit ''/me'', rq_authorization := Some (bearer (Some (lit ''old'')))\<rparr>,
       refreshRequest (lit ''r1''),
       sample_private\<lparr>rq_url := lit ''/me'', rq_authorization := Some (bearer (Some (lit ''old''))),
         rq_retry := True, rq_authorization := Some (bearer (Some (lit ''new'')))\<rparr>]"
    using expired_request_retried_once[of sample_private "lit ''/me''" "sample_client 0 sample_session" "lit ''old''" ?x
        "lit ''r1''" sample_expired sample_tokens "lit ''new''" "lit ''r2''"]
    by (simp add: sample_client_defs needsTokenRefresh_def sample_expired_def responseCode_def afterSend_def
        startsWith_def lit_def[of "''~/me''"] lit_def[of "''~''"] lit_def[of "''/me''"])
  then show ?thesis
    by (simp add: sample_client_def bearer_def refreshRequest_def postRequest_def sample_private_def lit_append[symmetric])
qed

theorem failed_refresh_disables_later_ones_witness:
  "\<exists>v. run (apiCall (sample_cext (\<lambda>n q. Inr sample_tokens)) sample_private) (v :: nat client) = (Thrown networkError, v)"
proof -
  let ?x = "sample_cext (\<lambda>n q. Inl (Some (lit ''ERR_NETWORK'')))" and ?w = "sample_client 1700000 sample_session"
  let ?y = "sample_cext (\<lambda>n q. Inr sample_tokens)"
  let ?v = "afterCalls ?y [] (snd (run (apiCall ?x sample_private) ?w))"
  obtain u where u: "run (awaitRefresh ?x (api (Suc (Suc 0)) ?x)) ?w = (Thrown networkError, u)"
      "s_accessToken (cl_store u) = Some (lit ''old'')" "cl_now u = 1700000"
    using refresh_network_failure[of ?w "lit ''r1''" ?x "Suc 0"] by (auto simp: sample_client_defs afterSend_def)
  have "?v = u"
    using run_interceptor_due[of sample_private ?x ?w "api (Suc (Suc 0)) ?x"]
    by (simp add: afterCalls_def apiCall_def callDepth_def numeral_3_eq_3 run_api_Suc u)
  then have "refreshDue ?y ?v"
    by (simp add: refreshDue_def u needsTokenRefresh_def sample_cext_def)
  then have "run (apiCall ?y sample_private) ?v = (Thrown networkError, ?v)"
    using failed_refresh_disables_later_ones[of sample_private ?x ?w "lit ''r1''" ?v ?y "[]" sample_private]
    by simp
  then show ?thesis by blast
qed

theorem client_calls_return_witness:
  "fst (run (clientCall (sample_cext (\<lambda>n q. Inr sample_tokens)) RefreshTokens)
     (afterCalls (sample_cext (\<lambda>n q. Inr sample_tokens)) [LogOut] (sample_client 0 sample_session))) \<noteq> Hung"
  using client_calls_return[of "sample_cext (\<lambda>n q. Inr sample_tokens)" "sample_client 0 sample_session"
      _ "[LogOut]" RefreshTokens]
  by (simp add: never_expired_def sample_cext_def sample_tokens_def unblocked_def sample_client_def)

theorem logOut_clears_witness:
  "fst (run (logOut (sample_cext (\<lambda>n q. Inl None))) (sample_client 0 sample_session)) = Done ()
   \<and> s_refreshToken (cl_store (snd (run (logOut (sample_cext (\<lambda>n q. Inl None))) (sample_client 0 sample_session)))) = None"
  using logOut_clears[of "sample_cext (\<lambda>n q. Inl None)" "sample_client 0 sample_session", OF prod.collapse[symmetric]]
  by (simp add: never_expired_def sample_cext_def unblocked_def sample_client_def)

end
