(* ===== verification/ClientScreens.thy ===== *)
theory ClientScreens
  imports ClientForms ClientSession
begin

text \<open>
  The hooks of \<open>packages/auth/expo/src/hooks\<close> behind the login, signup and code screens, the code
  input of \<open>packages/ui/expo/src/components/otp-input.tsx\<close>, and the gate of the root layout
  \<open>apps/mobile/src/app/_layout.tsx\<close>. A handler is a program over the client's world; the state
  of the hooks is in \<open>cl_ui\<close>, and the calls of the router are recorded in \<open>cl_router\<close>.
\<close>

section \<open>Navigation\<close>

definition OTP_RESEND_COOLDOWN :: int where "OTP_RESEND_COOLDOWN = 60"

definition navigate :: "navigation \<Rightarrow> ('s client, thrown, unit) prog" where
  "navigate n = setW (\<lambda>w. w\<lparr>cl_router := cl_router w @ [n]\<rparr>)"

definition navigateToOAuthSignup :: "jstring \<Rightarrow> jstring \<Rightarrow> jstring option \<Rightarrow> ('s client, thrown, unit) prog" where
  "navigateToOAuthSignup prov provId mail = navigate (Push SignupScreen
     [(lit ''provider'', prov), (lit ''providerId'', provId), (lit ''email'', orElse mail [])])"

definition navigateToOtp :: "jstring \<Rightarrow> jstring \<Rightarrow> ('s client, thrown, unit) prog" where
  "navigateToOtp number purpose = navigate (Push OtpScreen [(lit ''phone'', number), (lit ''purpose'', purpose)])"

definition navigateToPhoneSignup :: "jstring \<Rightarrow> ('s client, thrown, unit) prog" where
  "navigateToPhoneSignup number = navigate (Push SignupScreen [(lit ''phone'', number)])"

definition navigateToHome :: "('s client, thrown, unit) prog" where
  "navigateToHome = navigate (Replace HomeScreen)"

definition setUi :: "(ui \<Rightarrow> ui) \<Rightarrow> ('s client, thrown, unit) prog" where
  "setUi u = setW (\<lambda>w. w\<lparr>cl_ui := u (cl_ui w)\<rparr>)"

section \<open>\<open>usePhoneSignIn\<close>\<close>

definition phoneText :: "form \<Rightarrow> jstring" where
  "phoneText f = orElse (jsonString (fm_data f (lit ''phone''))) []"

definition handleSendOtp :: "'s cext \<Rightarrow> jstring \<Rightarrow> form \<Rightarrow> ('s client, thrown, form) prog" where
  "handleSendOtp x own f = (case form_validate own otpRequestShape (Some (lit ''phone'')) f of (ok, f') \<Rightarrow>
     if \<not> ok then Ret f'
     else
       bindP (setUi (\<lambda>u. u\<lparr>ui_phoneLoading := True\<rparr>)) (\<lambda>_.
       bindP
         (finallyP
           (catchP
             (bindP (sendOtp x (formObject otpRequestShape f)) (\<lambda>userExists.
              if jsonTruthy userExists then navigateToOtp (phoneText f) (lit ''login'')
              else navigateToPhoneSignup (phoneText f)))
             (\<lambda>e. Ret ()))
           (setUi (\<lambda>u. u\<lparr>ui_phoneLoading := False\<rparr>)))
         (\<lambda>_. Ret f')))"

section \<open>\<open>useOtpFlow\<close>\<close>

record otp_params =
  op_phone :: "jstring option"
  op_purpose :: jstring
  op_name :: "jstring option"
  op_gender :: "jstring option"
  op_birthYear :: "jstring option"

text \<open>\<open>NaN\<close> is \<open>null\<close> in JSON.\<close>

definition numberJson :: "int option \<Rightarrow> json" where
  "numberJson n = (case n of None \<Rightarrow> JNull | Some i \<Rightarrow> JNum (of_int i))"

definition otpFailure :: "string \<Rightarrow> hook_error option" where
  "otpFailure message = Some \<lparr>he_type = ValidationFailure, he_code = None, he_message = lit message, he_title = None\<rparr>"

definition handleVerifyOtp :: "'s cext \<Rightarrow> otp_params \<Rightarrow> jstring \<Rightarrow> ('s client, thrown, bool) prog" where
  "handleVerifyOtp x p code =
     (if \<not> truthyOpt (op_phone p)
      then bindP (setUi (\<lambda>u. u\<lparr>ui_otpError := otpFailure ''Phone number not found''\<rparr>)) (\<lambda>_. Ret False)
      else catchP
        (bindP (setW (clearError x)) (\<lambda>_.
         bindP (setUi (\<lambda>u. u\<lparr>ui_otpError := None\<rparr>)) (\<lambda>_.
         if op_purpose p = lit ''signup'' then
           if \<not> truthyOpt (op_name p) \<or> \<not> truthyOpt (op_gender p) \<or> \<not> truthyOpt (op_birthYear p)
           then bindP (setUi (\<lambda>u. u\<lparr>ui_otpError := otpFailure ''Signup data not found. Please try again.''\<rparr>)) (\<lambda>_. Ret False)
           else
             bindP (signUpWithPhone x
               [(lit ''phone'', JStr (the (op_phone p))), (lit ''code'', JStr code), (lit ''name'', JStr (the (op_name p))),
                (lit ''gender'', JStr (the (op_gender p))), (lit ''birthYear'', numberJson (parseInt (the (op_birthYear p))))]) (\<lambda>_.
             bindP navigateToHome (\<lambda>_. Ret True))
         else
           bindP (signInWithPhone x [(lit ''phone'', JStr (the (op_phone p))), (lit ''code'', JStr code)]) (\<lambda>_.
           bindP navigateToHome (\<lambda>_. Ret True)))))
        (\<lambda>e. Ret False))"

definition handleResendOtp :: "'s cext \<Rightarrow> otp_params \<Rightarrow> ('s client, thrown, unit) prog" where
  "handleResendOtp x p =
     (if \<not> truthyOpt (op_phone p)
      then setUi (\<lambda>u. u\<lparr>ui_otpError := otpFailure ''Phone number not found''\<rparr>)
      else catchP
        (bindP (setW (clearError x)) (\<lambda>_.
         bindP (setUi (\<lambda>u. u\<lparr>ui_otpError := None\<rparr>)) (\<lambda>_.
         bindP (sendOtp x [(lit ''phone'', JStr (the (op_phone p))), (lit ''purpose'', JStr (op_purpose p))]) (\<lambda>_.
         setUi (\<lambda>u. u\<lparr>ui_resendTimer := OTP_RESEND_COOLDOWN, ui_otpResets := Suc (ui_otpResets u)\<rparr>)))))
        (\<lambda>e. Ret ()))"

text \<open>The effect of the timer: a second passes.\<close>

definition tickResendTimer :: "ui \<Rightarrow> ui" where
  "tickResendTimer u = (if 0 < ui_resendTimer u then u\<lparr>ui_resendTimer := ui_resendTimer u - 1\<rparr> else u)"

definition otp_handleBack :: "('s client, thrown, unit) prog" where
  "otp_handleBack = navigate Back"

definition shownError :: "hook_error option \<Rightarrow> auth_store \<Rightarrow> hook_error option" where
  "shownError error s = (if error \<noteq> None then error
     else if truthyOpt (s_error s)
     then Some \<lparr>he_type = ApiFailure, he_code = None, he_message = the (s_error s), he_title = None\<rparr> else None)"

section \<open>Completing a signup\<close>

text \<open>
  \<open>data.birthYear.toString()\<close>: an integer from the picker, or the empty text of a field not set;
  of \<open>undefined\<close> it is a \<open>TypeError\<close>, whose text nobody reads.
\<close>

definition yearText :: "json option \<Rightarrow> thrown + jstring" where
  "yearText v = (case v of
       Some (JNum q) \<Rightarrow> Inr (intToString \<lfloor>q\<rfloor>)
     | Some (JStr s) \<Rightarrow> Inr s
     | _ \<Rightarrow> Inl (ThrownObj None (Some (lit ''Cannot read property toString of undefined'')) None))"

definition formField :: "form \<Rightarrow> string \<Rightarrow> fields" where
  "formField f k = (case fm_data f (lit k) of None \<Rightarrow> [] | Some v \<Rightarrow> [(lit k, v)])"

definition formText :: "form \<Rightarrow> string \<Rightarrow> jstring" where
  "formText f k = orElse (jsonString (fm_data f (lit k))) []"

definition oauthSignupBody :: "signup_params \<Rightarrow> form \<Rightarrow> fields" where
  "oauthSignupBody p f =
     [(lit ''provider'', JStr (the (sp_provider p))), (lit ''providerId'', JStr (the (sp_providerId p))),
      (lit ''email'', JStr (orElse (sp_email p) []))]
     @ formField f ''name'' @ formField f ''gender'' @ formField f ''birthYear''"

definition handleCompleteSignup :: "'s cext \<Rightarrow> signup_params \<Rightarrow> form \<Rightarrow> ('s client, thrown, unit) prog" where
  "handleCompleteSignup x p f =
     (if isOAuthSignup p then
        catchP (bindP (signUpWithOAuth x (oauthSignupBody p f)) (\<lambda>_. navigateToHome)) (\<lambda>e. Ret ())
      else if \<not> truthyOpt (sp_phone p) then Ret ()
      else
        catchP
          (bindP (sendOtp x [(lit ''phone'', JStr (the (sp_phone p))), (lit ''purpose'', JStr (lit ''signup''))]) (\<lambda>_.
           case yearText (fm_data f (lit ''birthYear'')) of
             Inl e \<Rightarrow> Throw e
           | Inr year \<Rightarrow> navigate (Push OtpScreen
             [(lit ''phone'', the (sp_phone p)), (lit ''purpose'', lit ''signup''), (lit ''name'', formText f ''name''),
              (lit ''gender'', formText f ''gender''), (lit ''birthYear'', year)])))
          (\<lambda>e. Ret ()))"

section \<open>Sign-in with Google and Apple\<close>

definition thrownErrorCode :: "thrown \<Rightarrow> err_code option" where
  "thrownErrorCode e = (case e of ThrownText _ \<Rightarrow> None | ThrownObj _ _ c \<Rightarrow> c)"

definition thrownMessage :: "thrown \<Rightarrow> jstring option" where
  "thrownMessage e = (case e of ThrownText _ \<Rightarrow> None | ThrownObj _ m _ \<Rightarrow> m)"

definition thrownErrorText :: "thrown \<Rightarrow> jstring option" where
  "thrownErrorText e = (case e of ThrownText _ \<Rightarrow> None | ThrownObj t _ _ \<Rightarrow> t)"

definition codeString :: "err_code option \<Rightarrow> jstring" where
  "codeString c = (case c of None \<Rightarrow> lit ''undefined'' | Some (CodeText t) \<Rightarrow> t | Some (CodeNum n) \<Rightarrow> intToString n)"

definition conflictError :: "err_code option \<Rightarrow> thrown \<Rightarrow> hook_error" where
  "conflictError code err = \<lparr>he_type = ApiFailure, he_code = code,
     he_message = orElse (thrownErrorText err) (orElse (thrownMessage err)
       (lit ''This email is already associated with another account.'')),
     he_title = Some (lit ''Email already in use'')\<rparr>"

text \<open>The \<open>catch\<close> of \<open>handleGoogleSignIn\<close>: the new error of the hook, \<open>None\<close> leaves it as it is.\<close>

definition googleError :: "thrown \<Rightarrow> hook_error option" where
  "googleError err =
     (let errorCode = (if thrownErrorCode err \<in> {Some (CodeText (lit ''10'')), Some (CodeNum 10)}
         then Some (CodeText (lit ''DEVELOPER_ERROR'')) else thrownErrorCode err) in
      if errorCode = Some (CodeText (lit ''getTokens''))
         \<and> (case thrownMessage err of None \<Rightarrow> False | Some m \<Rightarrow> strIncludes m (lit ''requires a user to be signed in''))
      then None
      else if errorCode = Some (CodeText (lit ''IN_PROGRESS''))
      then Some \<lparr>he_type = OAuthFailure, he_code = errorCode, he_message = lit ''Sign-in in progress. Please wait for the current sign-in to complete.'',
        he_title = None\<rparr>
      else if errorCode = Some (CodeText (lit ''PLAY_SERVICES_NOT_AVAILABLE''))
      then Some \<lparr>he_type = OAuthFailure, he_code = errorCode, he_message = lit ''Google Play Services is not available. Please install it.'',
        he_title = None\<rparr>
      else if errorCode = Some (CodeText (lit ''DEVELOPER_ERROR''))
      then Some \<lparr>he_type = OAuthFailure, he_code = errorCode, he_message = lit ''Unable to sign in with Google. Please try again later or contact support if the issue persists.'',
        he_title = Some (lit ''Sign-in Error'')\<rparr>
      else if errorCode = Some (CodeText (lit ''CONFLICT'')) then Some (conflictError errorCode err)
      else Some \<lparr>he_type = OAuthFailure, he_code = errorCode, he_message = lit ''Failed to sign in with Google.'' @ [10] @ lit ''Code: '' @ codeString errorCode
          @ (if truthyOpt (thrownMessage err) then [10] @ lit ''Message: '' @ the (thrownMessage err) else []),
        he_title = None\<rparr>)"

definition sdkCall :: "thrown + 'a \<Rightarrow> ('s client, thrown, 'a) prog" where
  "sdkCall r = awaitW (\<lambda>w. (r, w))"

definition optionCall :: "thrown option \<Rightarrow> thrown + unit" where
  "optionCall e = (case e of None \<Rightarrow> Inr () | Some t \<Rightarrow> Inl t)"

text \<open>After the exchange of the ID token: the signup screen or the home screen.\<close>

definition finishOAuth :: "signup_needed option \<Rightarrow> ('s client, thrown, unit) prog" where
  "finishOAuth result = (case result of
       Some n \<Rightarrow> navigateToOAuthSignup (sn_provider n) (sn_providerId n) (sn_email n)
     | None \<Rightarrow> navigateToHome)"

definition handleGoogleSignIn :: "'s cext \<Rightarrow> ('s client, thrown, unit) prog" where
  "handleGoogleSignIn x =
     (if \<not> truthyOpt (fst (cx_googleClientIds x)) \<or> \<not> truthyOpt (snd (cx_googleClientIds x))
      then setUi (\<lambda>u. u\<lparr>ui_googleError := Some \<lparr>he_type = ConfigurationFailure, he_code = None,
        he_message = lit ''Google Sign-In is not configured. Please set EXPO_PUBLIC_GOOGLE_IOS_CLIENT_ID and EXPO_PUBLIC_GOOGLE_WEB_CLIENT_ID in your environment variables.'',
        he_title = Some (lit ''Configuration Error'')\<rparr>\<rparr>)
      else
        bindP (setUi (\<lambda>u. u\<lparr>ui_googleLoading := True, ui_googleError := None\<rparr>)) (\<lambda>_.
        finallyP
          (catchP
            (bindP (sdkCall (optionCall (cx_googlePlayServices x))) (\<lambda>_.
             bindP (sdkCall (optionCall (cx_googleSignIn x))) (\<lambda>_.
             bindP (sdkCall (cx_googleTokens x)) (\<lambda>idToken.
             if \<not> truthyOpt idToken
             then Throw (ThrownObj None (Some (lit ''No ID token received from Google'')) None)
             else bindP (signInWithGoogle x (the idToken)) finishOAuth))))
            (\<lambda>err. case googleError err of
                None \<Rightarrow> Ret ()
              | Some e \<Rightarrow> setUi (\<lambda>u. u\<lparr>ui_googleError := Some e\<rparr>)))
          (setUi (\<lambda>u. u\<lparr>ui_googleLoading := False\<rparr>))))"

definition appleError :: "thrown \<Rightarrow> hook_error option" where
  "appleError err =
     (if thrownErrorCode err = Some (CodeText (lit ''ERR_REQUEST_CANCELED'')) then None
      else if thrownErrorCode err = Some (CodeText (lit ''CONFLICT''))
      then Some (conflictError (thrownErrorCode err) err)
      else Some \<lparr>he_type = OAuthFailure, he_code = thrownErrorCode err, he_message = lit ''Failed to sign in with Apple. Please try again later or contact support if the issue persists.'',
        he_title = None\<rparr>)"

definition handleAppleSignIn :: "'s cext \<Rightarrow> ('s client, thrown, unit) prog" where
  "handleAppleSignIn x =
     bindP (setUi (\<lambda>u. u\<lparr>ui_appleLoading := True, ui_appleError := None\<rparr>)) (\<lambda>_.
     finallyP
       (catchP
         (bindP (sdkCall (cx_appleSignIn x)) (\<lambda>identityToken.
          if \<not> truthyOpt identityToken
          then Throw (ThrownObj None (Some (lit ''No identity token received from Apple'')) None)
          else bindP (signInWithApple x (the identityToken)) finishOAuth))
         (\<lambda>err. case appleError err of
             None \<Rightarrow> Ret ()
           | Some e \<Rightarrow> setUi (\<lambda>u. u\<lparr>ui_appleError := Some e\<rparr>)))
       (setUi (\<lambda>u. u\<lparr>ui_appleLoading := False\<rparr>)))"

section \<open>The root layout\<close>

datatype screen_group = AuthScreens | TabScreens

text \<open>\<open>None\<close>: nothing is rendered and the splash screen stays.\<close>

definition rootLayout :: "auth_store \<Rightarrow> screen_group option" where
  "rootLayout s = (if s_isAuthLoading s then None
     else if \<not> s_isAuthenticated s then Some AuthScreens else Some TabScreens)"

section \<open>The home screen is shown only after a sign-in\<close>

lemma aside_router: "keeps (aside (sideOf w)) p \<Longrightarrow> run p w = (out, w') \<Longrightarrow> cl_router w' = cl_router w"
  by (drule (1) aside_run) (simp add: sideOf_def)

lemmas service_router = aside_router[OF aside_service(1)] aside_router[OF aside_service(2)]
  aside_router[OF aside_service(3)]

lemma storeTokens_authenticates: "run (storeTokens x d) w = (Done (), clearUI x (setState x (\<lambda>s.
    s\<lparr>s_accessToken := stringField ''accessToken'' d, s_refreshToken := stringField ''refreshToken'' d,
      s_isAuthenticated := True\<rparr>) w))"
  by (simp add: storeTokens_def)

lemma service_authenticates:
  "run (authenticate x url req) w = (Done (), w') \<Longrightarrow> s_isAuthenticated (cl_store w')"
  "run (signInWithIdToken x url t) w = (Done None, w') \<Longrightarrow> s_isAuthenticated (cl_store w')"
  by (auto simp: authenticate_def signInWithIdToken_def startLoading_def storeTokens_authenticates withData_def
      clearUI_def split: outcome.splits prod.splits option.splits json.splits if_splits)

datatype hook_call =
    VerifyOtp otp_params jstring
  | ResendOtp otp_params
  | PhoneButton jstring form
  | CompleteSignup signup_params form
  | GoogleButton
  | AppleButton

primrec hookCall :: "'s cext \<Rightarrow> hook_call \<Rightarrow> ('s client, thrown, unit) prog" where
  "hookCall x (VerifyOtp p code) = ignoreResult (handleVerifyOtp x p code)"
| "hookCall x (ResendOtp p) = handleResendOtp x p"
| "hookCall x (PhoneButton own f) = ignoreResult (handleSendOtp x own f)"
| "hookCall x (CompleteSignup p f) = handleCompleteSignup x p f"
| "hookCall x GoogleButton = handleGoogleSignIn x"
| "hookCall x AppleButton = handleAppleSignIn x"

lemma ui_simps [simp]:
  "run (setUi u) w = (Done (), w\<lparr>cl_ui := u (cl_ui w)\<rparr>)"
  "run (navigate n) w = (Done (), w\<lparr>cl_router := cl_router w @ [n]\<rparr>)"
  "run (sdkCall r) w = (case r of Inl e \<Rightarrow> Thrown e | Inr a \<Rightarrow> Done a, w)"
  "cl_router (clearError x w) = cl_router w"
  by (auto simp: setUi_def navigate_def sdkCall_def clearError_def split: sum.splits)

lemmas navigation_defs = navigateToHome_def navigateToOtp_def navigateToPhoneSignup_def navigateToOAuthSignup_def

definition homeOk :: "'s client \<Rightarrow> 's client \<Rightarrow> bool" where
  "homeOk w w' \<longleftrightarrow> (\<exists>new. cl_router w' = cl_router w @ new
     \<and> (Replace HomeScreen \<in> set new \<longrightarrow> s_isAuthenticated (cl_store w')))"

lemma homeOk_ui [simp]: "homeOk w (v\<lparr>cl_ui := u\<rparr>) = homeOk w v" "homeOk (w\<lparr>cl_ui := u\<rparr>) v = homeOk w v"
  "homeOk (clearError x w) v = homeOk w v"
  by (simp_all add: homeOk_def)

lemma homeOk_same [simp]: "cl_router v = cl_router w \<Longrightarrow> homeOk w v"
  and homeOk_router [simp]: "homeOk w (v\<lparr>cl_router := cl_router w @ [n]\<rparr>) \<longleftrightarrow>
    (n = Replace HomeScreen \<longrightarrow> s_isAuthenticated (cl_store v))"
  by (auto simp: homeOk_def)

lemma authenticate_result:
  assumes "run (authenticate x url req) w = (out, v)"
  shows "cl_router v = cl_router w" "out = Done () \<Longrightarrow> s_isAuthenticated (cl_store v)"
  using assms service_router(1)[OF assms] by (auto dest: service_authenticates)

definition homeKept :: "('s client, thrown, 'a) prog \<Rightarrow> bool" where
  "homeKept p \<longleftrightarrow> (\<forall>w. homeOk w (snd (run p w)))"

text \<open>The errors of a hook are kept in its state, never thrown.\<close>

definition unthrown :: "('s client, thrown, 'a) prog \<Rightarrow> bool" where
  "unthrown p \<longleftrightarrow> (\<forall>w e. fst (run p w) \<noteq> Thrown e)"

lemma homeKept_run: "homeKept p \<Longrightarrow> run p w = (out, v) \<Longrightarrow> homeOk w v"
  by (metis homeKept_def snd_conv)

lemma homeKept_leaves [simp]: "homeKept (Ret a)" "homeKept (Throw e)" "homeKept (setUi u)"
  "n \<noteq> Replace HomeScreen \<Longrightarrow> homeKept (navigate n)"
  "homeKept (sendOtp x req)" "homeKept (authenticate x url req)" "homeKept (signInWithIdToken x url t)"
  by (simp_all add: homeKept_def homeOk_def)
    (metis append_Nil2 empty_iff empty_set prod.collapse service_router)+

text \<open>Code before the first navigation, and code after the last one.\<close>

lemma homeKept_before:
  assumes "\<And>w. cl_router (snd (run q w)) = cl_router w" "\<And>a. homeKept (k a)"
  shows "homeKept (bindP q k)"
  unfolding homeKept_def
proof
  fix w
  obtain out v where r: "run q w = (out, v)" by (rule prod.exhaust)
  with assms(1)[of w] have v: "cl_router v = cl_router w" by simp
  show "homeOk w (snd (run (bindP q k) w))"
  proof (cases out)
    case (Done a)
    from assms(2)[of a] have "homeOk v (snd (run (k a) v))" by (simp add: homeKept_def)
    with Done r v show ?thesis by (simp add: homeOk_def)
  qed (simp_all add: r v)
qed

lemma homeKept_after:
  assumes "homeKept p"
  shows "homeKept (finallyP p (setUi u))" "homeKept (bindP p (\<lambda>_. Ret a))"
proof -
  have "homeOk w (snd (run (finallyP p (setUi u)) w))" "homeOk w (snd (run (bindP p (\<lambda>_. Ret a)) w))" for w
  proof -
    obtain out v where r: "run p w = (out, v)" by (rule prod.exhaust)
    with assms have v: "homeOk w v" by (rule homeKept_run)
    with r show "homeOk w (snd (run (finallyP p (setUi u)) w))" "homeOk w (snd (run (bindP p (\<lambda>_. Ret a)) w))"
      by (cases out; simp)+
  qed
  then show "homeKept (finallyP p (setUi u))" "homeKept (bindP p (\<lambda>_. Ret a))"
    by (simp_all add: homeKept_def)
qed

lemma homeKept_catch:
  assumes "homeKept p"
    and "\<And>e v. cl_router (snd (run (h e) v)) = cl_router v \<and> cl_store (snd (run (h e) v)) = cl_store v"
  shows "homeKept (catchP p h)"
  unfolding homeKept_def
proof
  fix w
  obtain out v where r: "run p w = (out, v)" by (rule prod.exhaust)
  with assms(1) have v: "homeOk w v" by (rule homeKept_run)
  show "homeOk w (snd (run (catchP p h) w))"
  proof (cases out)
    case (Thrown e)
    with assms(2)[of e v] r v show ?thesis by (simp add: homeOk_def)
  qed (simp_all add: r v)
qed

lemma homeKept_authenticate: "homeKept (bindP (authenticate x url req) (\<lambda>_. navigateToHome))"
  unfolding homeKept_def
proof
  fix w :: "'a client"
  obtain out v where r: "run (authenticate x url req) w = (out, v)" by (rule prod.exhaust)
  show "homeOk w (snd (run (bindP (authenticate x url req) (\<lambda>_. navigateToHome)) w))"
    using authenticate_result[OF r] by (cases out) (simp_all add: r navigation_defs)
qed

lemma homeKept_idToken: "homeKept (bindP (signInWithIdToken x url t) finishOAuth)"
  unfolding homeKept_def
proof
  fix w :: "'a client"
  obtain out v where r: "run (signInWithIdToken x url t) w = (out, v)" by (rule prod.exhaust)
  note v = service_router(3)[OF r]
  show "homeOk w (snd (run (bindP (signInWithIdToken x url t) finishOAuth) w))"
  proof (cases out)
    case (Done a)
    then show ?thesis
      using r v service_authenticates(2)[of x url t w v]
      by (cases a) (simp_all add: finishOAuth_def navigation_defs)
  qed (simp_all add: r v)
qed

lemma router_unchanged [simp]:
  "cl_router (snd (run (setW (clearError x)) w)) = cl_router w" "cl_router (snd (run (setUi u) w)) = cl_router w"
  "cl_router (snd (run (sendOtp x req) w)) = cl_router w" "cl_router (snd (run (sdkCall r) w)) = cl_router w"
  by simp_all (metis prod.collapse service_router(2))

lemmas homeKept_intros = homeKept_before[OF router_unchanged(1)] homeKept_before[OF router_unchanged(2)]
  homeKept_before[OF router_unchanged(3)] homeKept_before[OF router_unchanged(4)]
  homeKept_after homeKept_catch homeKept_idToken

text \<open>A sign-in, then home, then a result.\<close>

lemma homeKept_sign_in: "homeKept (bindP (authenticate x url req) (\<lambda>_. bindP navigateToHome (\<lambda>_. Ret a)))"
  using homeKept_after(2)[OF homeKept_authenticate, of x url req a] by (simp add: bindP_assoc)

lemma homeKept_hooks: "homeKept (hookCall x h)"
proof (cases h)
  case (VerifyOtp p code)
  then show ?thesis
    by (auto simp: ignoreResult_def handleVerifyOtp_def signUpWithPhone_def signInWithPhone_def
        intro!: homeKept_intros homeKept_sign_in)
next
  case (ResendOtp p)
  then show ?thesis by (auto simp: handleResendOtp_def intro!: homeKept_intros)
next
  case (PhoneButton own f)
  then show ?thesis
    by (auto simp: ignoreResult_def handleSendOtp_def navigation_defs split: prod.splits intro!: homeKept_intros)
next
  case (CompleteSignup p f)
  then show ?thesis
    by (auto simp: handleCompleteSignup_def signUpWithOAuth_def intro!: homeKept_intros homeKept_authenticate
        split: sum.split)
next
  case GoogleButton
  then show ?thesis
    by (auto simp: handleGoogleSignIn_def signInWithGoogle_def split: option.splits intro!: homeKept_intros)
next
  case AppleButton
  then show ?thesis
    by (auto simp: handleAppleSignIn_def signInWithApple_def split: option.splits intro!: homeKept_intros)
qed

lemma unthrown_leaves [simp]: "unthrown (Ret a)" "unthrown (setUi u)" "unthrown (navigate n)" "unthrown (setW h)"
  by (simp_all add: unthrown_def)

lemma unthrown_bind: "unthrown p \<Longrightarrow> (\<And>a. unthrown (k a)) \<Longrightarrow> unthrown (bindP p k)"
  unfolding unthrown_def by (auto split: outcome.splits prod.splits) (metis fst_conv)

lemma unthrown_catch: "(\<And>e. unthrown (h e)) \<Longrightarrow> unthrown (catchP p h)"
  unfolding unthrown_def by (auto split: outcome.splits prod.splits)

lemma unthrown_finally: "unthrown p \<Longrightarrow> unthrown q \<Longrightarrow> unthrown (finallyP p q)"
  unfolding unthrown_def by (auto split: outcome.splits prod.splits) (metis fst_conv)+

lemmas unthrown_intros = unthrown_bind unthrown_catch unthrown_finally

lemma unthrown_hooks: "unthrown (hookCall x h)"
  by (cases h) (auto simp: ignoreResult_def handleVerifyOtp_def handleResendOtp_def handleSendOtp_def
      handleCompleteSignup_def handleGoogleSignIn_def handleAppleSignIn_def
      split: prod.splits option.splits intro!: unthrown_intros)

text \<open>
  C29. The home screen is shown only to a signed-in user: no handler of the authentication
  screens throws, whatever the server and the sign-in libraries do, and a handler that replaces
  the screen by the home screen leaves the store signed in.
\<close>

theorem home_only_when_signed_in:
  "fst (run (hookCall x h) w) \<noteq> Thrown e
   \<and> (\<exists>new. cl_router (snd (run (hookCall x h) w)) = cl_router w @ new
        \<and> (Replace HomeScreen \<in> set new \<longrightarrow> s_isAuthenticated (cl_store (snd (run (hookCall x h) w)))))"
  using homeKept_hooks[of x h] unthrown_hooks[of x h]
  by (simp add: homeKept_def homeOk_def unthrown_def)

theorem home_only_when_signed_in_witness:
  "s_isAuthenticated (cl_store (snd (run (hookCall (sample_cext (\<lambda>n q. Inr sample_tokens)) GoogleButton)
     (sample_client 0 initialStore))))"
proof -
  let ?x = "sample_cext (\<lambda>n q. Inr sample_tokens)" and ?w = "sample_client 0 initialStore"
  have "cl_router (snd (run (hookCall ?x GoogleButton) ?w)) = [Replace HomeScreen]"
    by (simp add: handleGoogleSignIn_def signInWithGoogle_def signInWithIdToken_def startLoading_def storeTokens_def
        optionCall_def finishOAuth_def navigation_defs apiCall_def callDepth_def numeral_3_eq_3 run_api_Suc
        run_interceptor_public refresh_path_public reply_def sample_cext_def sample_tokens_def withData_def
        stringField_def clearUI_def afterSend_def setState_def sample_client_def)
  with home_only_when_signed_in[of ?x GoogleButton ?w "ThrownText []"] show ?thesis
    by (simp add: sample_client_def)
qed

section \<open>Storage that cannot be read\<close>

text \<open>
  A start of the application after its last run: the writes that run issued have reached the
  storage, the memory is new, and the stored text is read.
\<close>

definition startAgain :: "'s cext \<Rightarrow> 's client \<Rightarrow> 's client" where
  "startAgain x w = rehydrate x (restart (flushWrites w))"

lemma unreadable_start:
  assumes "cl_items w (lit ''auth'') = Some t" "cx_parse x t = None" "cl_faults w = []" "cl_writes w = []"
  shows "startAgain x w = restart w"
  using assms by (simp add: startAgain_def rehydrate_def storage_getItem_def faulty_def afterCall_def restart_def
      onRehydrateStorage_def flushWrites_def)

text \<open>
  C37. Unreadable storage blocks the application for ever: when the stored text cannot be parsed,
  the first start and every later one, however many, leave the state still loading, so that the
  root layout renders nothing, and leave the unreadable text in the storage with no write on
  the way that would replace it.
\<close>

theorem unreadable_storage_blocks_start:
  assumes "cl_items w (lit ''auth'') = Some t" "cx_parse x t = None" "cl_faults w = []" "cl_writes w = []"
    and "v = (startAgain x ^^ Suc n) w"
  shows "s_isAuthLoading (cl_store v) \<and> rootLayout (cl_store v) = None
    \<and> cl_items v = cl_items w \<and> cl_writes v = []"
proof -
  have "restart (restart w) = restart w" by (simp add: restart_def)
  moreover have "cl_items (restart w) = cl_items w" "cl_faults (restart w) = cl_faults w" "cl_writes (restart w) = []"
    by (simp_all add: restart_def)
  ultimately have "startAgain x (restart w) = restart w"
    using unreadable_start[of "restart w" t x] assms(1-4) by simp
  then have "(startAgain x ^^ k) (restart w) = restart w" for k
    by (induction k) simp_all
  then have "v = restart w"
    using unreadable_start[OF assms(1-4)] unfolding assms(5) funpow_Suc_right by simp
  then show ?thesis by (simp add: restart_def rootLayout_def initialStore_def)
qed

theorem unreadable_storage_blocks_start_witness:
  "rootLayout (cl_store ((startAgain (sample_cext (\<lambda>n q. Inr sample_tokens)) ^^ 5)
     ((sample_client 0 initialStore)\<lparr>cl_items := [lit ''auth'' \<mapsto> lit ''{'']\<rparr>))) = None"
  using unreadable_storage_blocks_start[of "(sample_client 0 initialStore)\<lparr>cl_items := [lit ''auth'' \<mapsto> lit ''{'']\<rparr>"
      "lit ''{''" "sample_cext (\<lambda>n q. Inr sample_tokens)" _ 4]
  by (simp add: sample_client_def sample_cext_def sampleParse_def lit_def)

end
