(* ===== verification/System.thy ===== *)
theory System
  imports Server ClientScreens
begin

text \<open>
  The whole system: the client of \<open>packages/auth/expo\<close> against the server of \<open>apps/api\<close>. The
  network of the client is instantiated with the application itself: a request is written as JSON,
  routed, validated and handled on the server's state, and the client gets the response. The
  parameters left are the text format of JSON and the time a request takes.
\<close>

section \<open>The server as the network of the client\<close>

text \<open>
  What axios sends for a request of the client: the method in capitals, the body as JSON text
  with its content type. The deployment serves the API at the root of its base URL.
\<close>

definition serverRequest :: "(json \<Rightarrow> jstring) \<Rightarrow> areq \<Rightarrow> request" where
  "serverRequest stringify q = \<lparr>q_method = asciiUpper (rq_method q), q_path = rq_url q,
     q_contentType = Some (lit ''application/json''), q_authorization = rq_authorization q,
     q_text = stringify (rq_data q), q_bytes = utf8 (stringify (rq_data q)), q_query = []\<rparr>"

definition clientResponse :: "response \<Rightarrow> axios_response" where
  "clientResponse r = \<lparr>ar_status = r_status r, ar_data = (case r_body r of None \<Rightarrow> JStr [] | Some b \<Rightarrow> b)\<rparr>"

text \<open>
  A request takes \<open>elapsed\<close> milliseconds; axios gives up after five seconds, whatever the server
  did meanwhile.
\<close>

definition network :: "ctx \<Rightarrow> (json \<Rightarrow> jstring) \<Rightarrow> nat \<Rightarrow> world \<Rightarrow> areq
    \<Rightarrow> (jstring option + axios_response) \<times> nat \<times> world" where
  "network c stringify elapsed w q = (case run (app c (serverRequest stringify q)) w of (out, w') \<Rightarrow>
     (case out of
        Done r \<Rightarrow> if 5000 < elapsed then Inl (Some (lit ''ECONNABORTED'')) else Inr (clientResponse r)
      | _ \<Rightarrow> Inl (Some (lit ''ERR_NETWORK'')),
      elapsed, w'\<lparr>w_now := w_now w' + int elapsed\<rparr>))"

text \<open>The body of a request arrives: its text is read back as what it was, and is not too long.\<close>

definition transmits :: "ctx \<Rightarrow> (json \<Rightarrow> jstring) \<Rightarrow> json \<Rightarrow> bool" where
  "transmits c stringify j \<longleftrightarrow> x_jsonParse (c_ext c) (stringify j) = Some j
     \<and> trim (stringify j) \<noteq> [] \<and> length (stringify j) \<le> MAX_BODY_SIZE
     \<and> x_isJsonContent (c_ext c) (lit ''application/json'')
     \<and> x_toLowerCase (c_ext c) (lit ''application/json'') = lit ''application/json''"

lemma truthy_trim: "trim s \<noteq> [] \<Longrightarrow> truthy s"
  by (cases s) (auto simp: trim_def)

lemma run_withOnError_Done: "run p w = (Done r, w') \<Longrightarrow> run (withOnError c p) w = (Done r, w')"
  by (simp add: withOnError_def)

lemma run_app_transmitted:
  assumes "transmits c st (rq_data q)" "run (route c (serverRequest st q)) w = (Done r, w')"
  shows "run (app c (serverRequest st q)) w = (Done r, w')"
proof -
  have "run (json c (serverRequest st q) p) w = run p w" for p
    using assms(1) truthy_trim
    by (simp add: json_def serverRequest_def transmits_def strIncludes_iff exI[of _ "[]"])
  then show ?thesis
    by (simp add: app_def run_withOnError_Done assms(2))
qed

lemma network_answer:
  assumes "transmits c st (rq_data q)" "run (route c (serverRequest st q)) w = (Done r, w')" "d \<le> 5000"
  shows "network c st d w q = (Inr (clientResponse r), d, w'\<lparr>w_now := w_now w' + int d\<rparr>)"
  using run_app_transmitted[OF assms(1,2)] assms(3) by (simp add: network_def)

lemma requestJson_transmitted:
  "transmits c st (rq_data q) \<Longrightarrow> requestJson c (serverRequest st q) = Inr (rq_data q)"
  by (simp add: requestJson_def serverRequest_def transmits_def)

lemma upper_post [simp]: "asciiUpper (lit ''post'') = lit ''POST''"
  by (simp add: asciiUpper_def lit_def isLowerAlpha_def)

lemma run_validate_transmitted:
  assumes "transmits c st (rq_data q)" "schema (Some (rq_data q)) = Inr v"
  shows "run (validate c schema (serverRequest st q) k) w = run (k v) w"
  by (simp add: validate_def requestJson_transmitted[OF assms(1)] validated_def assms(2))

section \<open>Signing in\<close>

definition signInFields :: "jstring \<Rightarrow> jstring \<Rightarrow> fields" where
  "signInFields p k = [(lit ''phone'', JStr p), (lit ''code'', JStr k)]"

lemma signInFields_accepted:
  assumes "phone (Some (JStr p)) = Inr ph" "otp (Some (JStr k)) = Inr code" "knownOs (dv_os (cx_device x))"
  shows "\<exists>di. phoneSignInSchema (Some (JObj (injectDeviceInfo x (signInFields p k))))
     = Inr \<lparr>pi_phone = ph, pi_code = code, pi_deviceInfo = Some di\<rparr>"
proof -
  obtain i where "deviceInfo (Some (JObj (getDeviceInfo (cx_device x)))) = Inr i"
    using getDeviceInfo_valid[OF assms(3)] by blast
  with assms(1,2) show ?thesis
    by (simp add: phoneSignInSchema_def injectDeviceInfo_def signInFields_def objectFields_def Let_def
        zOptional_def andThen_def)
qed

lemma route_login:
  assumes "rq_method q = lit ''post''" "rq_url q = lit ''/auth/phone/login''" "transmits c st (rq_data q)"
    and "phoneSignInSchema (Some (rq_data q)) = Inr r" "run (phoneSignIn c r) w = (Done resp, w')"
  shows "run (route c (serverRequest st q)) w = (Done resp, w')"
proof -
  have "run (route c (serverRequest st q)) w = run (authRoute c (serverRequest st q) phoneSignInSchema PhoneLogin) w"
    using assms(1,2) by (simp add: route_def serverRequest_def authRoutes_def)
  then show ?thesis
    using assms(3-5)
    by (simp add: authRoute_def run_validate_transmitted run_withOnError_Done)
qed

text \<open>A call of the client that is answered with tokens stores them.\<close>

lemma run_authenticate:
  assumes "fst (cx_send x (cl_server v) q) = Inr r" "tokenAnswer r a b"
    and "q = postRequest (CHR ''/'' # url) (JObj (injectDeviceInfo x fs))"
  shows "\<exists>v'. run (authenticate x (CHR ''/'' # url) fs) v = (Done (), v')
    \<and> cl_store v' = (cl_store v)\<lparr>s_accessToken := Some a, s_refreshToken := Some b,
         s_isAuthenticated := True, s_isLoading := False, s_error := None\<rparr>
    \<and> cl_server v' = snd (snd (cx_send x (cl_server v) q)) \<and> cl_router v' = cl_router v"
proof -
  let ?v = "setState x (\<lambda>s. s\<lparr>s_isLoading := True, s_error := None\<rparr>) v"
  have "reply x q ?v = Inr r"
    using assms(1,2) by (simp add: reply_def tokenAnswer_def)
  then have "run (apiCall x q) ?v = (Done (Resp r), afterSend x q ?v)"
    using assms(3) by (simp add: apiCall_def callDepth_def numeral_3_eq_3 run_api_Suc run_interceptor_public
        refresh_path_public)
  moreover have "stringField ''accessToken'' (ar_data r) = Some a" "stringField ''refreshToken'' (ar_data r) = Some b"
    using assms(2) by (simp_all add: tokenAnswer_def)
  ultimately show ?thesis
    unfolding authenticate_def assms(3)[symmetric]
    by (simp add: startLoading_def storeTokens_def withData_tokens[OF assms(2)] clearUI_def afterSend_def
        split: prod.splits)
qed

lemma tokenAnswer_ok: "tokenAnswer (clientResponse (res_ok (tokenFields (a, b)) noOptions)) a b"
  by (simp add: tokenAnswer_def clientResponse_def res_ok_def noOptions_def tokenFields_def stringField_def
      spread_def)

lemma accessToken_authorises:
  assumes "jwt_laws (c_ext c)" "q_authorization req = Some (lit ''Bearer '' @ accessTokenAt c i t)"
    and "t \<le> w_now w" "w_now w div 1000 < t div 1000 + 1800" "selectUser i (w_db w) \<noteq> None"
  shows "authorised c req w"
proof -
  have "bearerToken req = Some (accessTokenAt c i t)"
    using assms(1,2) by (intro bearerToken_issued) (auto simp: jwt_laws_def accessTokenAt_def)
  moreover have "x_verify (c_ext c) (accessTokenAt c i t) (JWT_SECRET (getEnv c)) (w_now w)
      = Inr \<lparr>jwt_sub = i, jwt_iat = t div 1000, jwt_exp = t div 1000 + 1800\<rparr>"
    using assms(1,3,4) zdiv_mono1[of t "w_now w" 1000] by (simp add: jwt_laws_def accessTokenAt_def)
  ultimately show ?thesis using assms(5) by (simp add: authorised_def)
qed

lemma selectToken_appended:
  assumes "sessionFresh i w"
  shows "selectToken (nextRefreshToken w) (d\<lparr>tokens := tokens (w_db w) @ [newSession j di w]\<rparr>)
     = Some (newSession j di w)"
proof -
  have "find (\<lambda>r. t_token r = nextRefreshToken w) (tokens (w_db w)) = None"
    using assms select_None_iff(1)[of "nextRefreshToken w" "w_db w"] by (simp add: sessionFresh_def selectToken_def)
  then show ?thesis by (simp add: selectToken_def find_append_None newSession_def)
qed

section \<open>Using a session\<close>

definition presignedRequest :: "jstring \<Rightarrow> areq" where
  "presignedRequest f = postRequest ''~/upload/presigned-url''
     (JObj [(lit ''contentType'', JStr (lit ''image/jpeg'')), (lit ''fileName'', JStr f)])"

definition presignedAnswer :: "jstring \<Rightarrow> response" where
  "presignedAnswer f = res_ok [(lit ''imageId'', JStr (imageIdOf f)),
     (lit ''fields'', JObj [(lit ''key'', JStr f), (lit ''contentType'', JStr (lit ''image/jpeg''))])] noOptions"

lemma presignedAnswer_status: "ar_status (clientResponse (presignedAnswer f)) = 200"
  by (simp add: clientResponse_def presignedAnswer_def res_ok_def noOptions_def)

lemma presigned_accepted:
  assumes "f \<noteq> []" "length f \<le> 100"
  shows "presignedUrlSchema (Some (rq_data (presignedRequest f))) = Inr \<lparr>pr_contentType = lit ''image/jpeg'', pr_fileName = f\<rparr>"
  using assms by (simp add: presignedUrlSchema_def presignedRequest_def postRequest_def objectFields_def Let_def
      zString_def andThen_def refineAll_def isImageType_def)

lemma route_presigned:
  assumes "serving c w" "rq_method q = lit ''post''" "rq_url q = lit ''/upload/presigned-url''"
    and "rq_data q = rq_data (presignedRequest f)" "transmits c st (rq_data q)" "f \<noteq> []" "length f \<le> 100"
    and "authorised c (serverRequest st q) w"
  shows "run (route c (serverRequest st q)) w = (Done (presignedAnswer f), w)"
proof -
  have "run (route c (serverRequest st q)) w = run (requireAuth c (serverRequest st q) (\<lambda>user. withOnError c
      (validate c presignedUrlSchema (serverRequest st q) (\<lambda>v. withOnError c (generatePresignedUrl v))))) w"
    using assms(2,3) by (simp add: route_def serverRequest_def authRoutes_def uploadRoutes_def)
  moreover have "run (validate c presignedUrlSchema (serverRequest st q) (\<lambda>v. withOnError c (generatePresignedUrl v))) w
      = (Done (presignedAnswer f), w)"
    using assms(4-7) presigned_accepted[of f]
    by (simp add: run_validate_transmitted[OF assms(5)] run_withOnError_Done generatePresignedUrl_def presignedAnswer_def)
  ultimately show ?thesis
    using assms(8) by (auto simp: run_requireAuth[OF assms(1)] authorised_def run_withOnError_Done)
qed

lemma route_refresh:
  assumes "isRefreshTokenText tok" "transmits c st (rq_data (refreshRequest tok))"
    and "run (refreshTokens c \<lparr>rr_refreshToken = tok\<rparr>) w = (Done resp, w')"
  shows "run (route c (serverRequest st (refreshRequest tok))) w = (Done resp, w')"
proof -
  let ?q = "refreshRequest tok"
  have "run (route c (serverRequest st ?q)) w = run (authRoute c (serverRequest st ?q) refreshTokensSchema TokenRefresh) w"
    by (simp add: route_def serverRequest_def authRoutes_def refreshRequest_def postRequest_def)
  moreover have "refreshToken (Some (JStr tok)) = Inr tok"
    using trim_refreshTokenText[OF assms(1)] assms(1) by (simp add: refreshToken_eq_Inr)
  then have "refreshTokensSchema (Some (rq_data ?q)) = Inr \<lparr>rr_refreshToken = tok\<rparr>"
    by (simp add: refreshTokensSchema_def refreshRequest_def postRequest_def objectFields_def)
  ultimately show ?thesis
    using assms(2,3) by (simp add: authRoute_def run_validate_transmitted run_withOnError_Done)
qed

text \<open>A private call that is due for a refresh, when the server renews the tokens.\<close>

lemma run_due_call:
  assumes "privateUrl q" "refreshDue x v" "s_refreshToken (cl_store v) = Some tok" "tok \<noteq> []" "cl_refreshPromise v = None"
    and "fst (cx_send x (cl_server v) (refreshRequest tok)) = Inr r" "tokenAnswer r a b"
    and "q1 = q\<lparr>rq_url := tl (rq_url q), rq_authorization := Some (bearer (Some a))\<rparr>"
    and "cx_send x (snd (snd (cx_send x (cl_server v) (refreshRequest tok)))) q1 = (Inr resp, d, w')"
    and "200 \<le> ar_status resp" "ar_status resp \<le> 299"
  shows "\<exists>v'. run (apiCall x q) v = (Done (Resp resp), v')
    \<and> cl_store v' = refreshedStore a b (cl_store v) \<and> cl_server v' = w'
    \<and> cl_sent v' = cl_sent v @ [refreshRequest tok, q1] \<and> cl_timers v' = cl_timers v"
proof -
  obtain u where u: "run (awaitRefresh x (api (Suc (Suc 0)) x)) v = (Done (), u)"
    "cl_store u = refreshedStore a b (cl_store v)" "cl_sent u = cl_sent v @ [refreshRequest tok]"
    "cl_timers u = cl_timers v" "cl_server u = cl_server (afterSend x (refreshRequest tok) v)"
    using run_awaitRefresh_ok[OF assms(3-7)] by blast
  then have "cl_server u = snd (snd (cx_send x (cl_server v) (refreshRequest tok)))"
    by (simp add: afterSend_def split: prod.splits)
  with assms(9-11) have "reply x q1 u = Inr resp" "cl_server (afterSend x q1 u) = w'"
    by (simp_all add: reply_def afterSend_def)
  then show ?thesis
    using u assms(8) by (simp add: apiCall_def callDepth_def numeral_3_eq_3 run_api_Suc[of "Suc (Suc 0)"]
        run_interceptor_due[OF assms(1,2)] refreshedStore_def)
qed

section \<open>A concrete system\<close>

text \<open>JSON texts are stood for by their numbers in a list of the bodies that are sent.\<close>

definition sampleJsonText :: "json list \<Rightarrow> json \<Rightarrow> jstring" where
  "sampleJsonText bodies j = replicate (Suc (length (takeWhile (\<lambda>b. b \<noteq> j) bodies))) 120"

definition system_ctx :: "json list \<Rightarrow> ctx" where
  "system_ctx bodies = unary_ctx\<lparr>c_ext := (c_ext unary_ctx)\<lparr>x_jsonParse := (\<lambda>s.
     if length s - 1 < length bodies then Some (bodies ! (length s - 1)) else None)\<rparr>\<rparr>"

definition system_cext :: "json list \<Rightarrow> world cext" where
  "system_cext bodies = \<lparr>cx_send = network (system_ctx bodies) (sampleJsonText bodies) 40,
     cx_jwtDecode = (\<lambda>t. Some \<lparr>jwt_sub = t, jwt_iat = 0, jwt_exp = 900\<rparr>),
     cx_stringify = sampleStringify, cx_parse = sampleParse,
     cx_typeErrorText = lit ''undefined is not an object'', cx_googleClientIds = (None, None),
     cx_googlePlayServices = None, cx_googleSignIn = None, cx_googleTokens = Inr None,
     cx_appleSignIn = Inr None, cx_device = sample_device\<rparr>"

definition system_client :: "world \<Rightarrow> auth_store \<Rightarrow> world client" where
  "system_client w s = \<lparr>cl_store = s, cl_items = (\<lambda>k. None), cl_writes = [], cl_faults = [],
     cl_refreshPromise = None, cl_promises = [], cl_timers = [], cl_now = w_now w, cl_server = w, cl_sent = [],
     cl_router = [], cl_ui = cl_ui (sample_client 0 s), cl_upload = cl_upload (sample_client 0 s)\<rparr>"

lemma sampleJsonText_transmits:
  assumes "j \<in> set bodies" "length bodies < 10"
  shows "transmits (system_ctx bodies) (sampleJsonText bodies) j"
proof -
  obtain xs ys where b: "bodies = xs @ j # ys" "j \<notin> set xs"
    using split_list_first[OF assms(1)] by blast
  then have "takeWhile (\<lambda>b. b \<noteq> j) bodies = xs"
    by (auto simp: takeWhile_tail)
  moreover have "trim (replicate (Suc n) 120) = replicate (Suc n) 120" for n
    by (rule trim_no_space) (simp add: list_all_iff isSpace_def)
  ultimately show ?thesis
    using assms(2) b by (simp add: transmits_def sampleJsonText_def system_ctx_def unary_ctx_def sample_ctx_def
        sample_ext_def MAX_BODY_SIZE_def nth_append)
qed

lemma system_serving: "serving (system_ctx bodies) (sample_world d)"
  by (simp add: serving_def quiet_def connected_def system_ctx_def unary_ctx_def sample_ctx_def sample_env_def)

lemma system_laws: "jwt_laws (c_ext (system_ctx bodies))"
  using unary_laws by (simp add: jwt_laws_def system_ctx_def)

lemma system_known: "knownOs (dv_os (cx_device (system_cext bodies)))"
  by (simp add: system_cext_def sample_device_def knownOs_def)

definition sample_login_body :: json where
  "sample_login_body = JObj (AList.update (lit ''deviceInfo'') (JObj (getDeviceInfo sample_device))
     (signInFields sample_phone (lit ''123456'')))"

definition sample_stale_token :: jstring where
  "sample_stale_token = replicate 24 97"

definition sample_stale_bodies :: "json list" where
  "sample_stale_bodies = [rq_data (refreshRequest sample_stale_token), rq_data (presignedRequest (lit ''a.jpg''))]"

definition sample_stale_world :: world where
  "sample_stale_world = (sample_world (sample_db\<lparr>tokens := [sample_token\<lparr>t_token := sample_stale_token\<rparr>]\<rparr>))\<lparr>w_rand := (\<lambda>i. 0)\<rparr>"

definition sample_stale_client :: "world client" where
  "sample_stale_client = system_client sample_stale_world
     (sample_session\<lparr>s_refreshToken := Some sample_stale_token\<rparr>)"

lemma sample_stale_next: "nextRefreshToken sample_stale_world = replicate 24 48"
  by (simp add: nextRefreshToken_def sample_stale_world_def encodeRefreshToken_def bytesToNat_def upt_rec
      natToString_def radixDigits.simps digitUnit_def js_simps eval_nat_numeral)

end
