(* ===== verification/Journey.thy ===== *)
theory Journey
  imports System
begin

text \<open>
  The journey of a returning user through the client and the server: the phone is typed on the
  first screen (\<open>usePhoneSignIn\<close>), the server texts a code, and the code is typed on the next one
  (\<open>useOtpFlow\<close>). The lemmas give the outcome of each call of the client that the server answers.
\<close>

section \<open>Asking for a code\<close>

definition phoneSignInForm :: form where
  "phoneSignInForm = useForm otpRequestShape [lit ''purpose'' \<mapsto> JStr (lit ''login'')]"

definition otpFields :: "jstring \<Rightarrow> fields" where
  "otpFields p = [(lit ''phone'', JStr p), (lit ''purpose'', JStr (lit ''login''))]"

abbreviation typedPhone :: "jstring \<Rightarrow> form" where
  "typedPhone p \<equiv> form_set (lit ''phone'') (JStr p) phoneSignInForm"

lemma purpose_login: "otpRequestPurpose (Some (JStr (lit ''login''))) = Inr LoginPurpose"
  by (simp add: otpRequestPurpose_def zEnum_def)

lemma typedPhone_object: "formObject otpRequestShape (typedPhone p) = otpFields p"
  by (simp add: formObject_def otpRequestShape_def form_set_def phoneSignInForm_def useForm_def otpFields_def
      map_filter_simps)

lemma typedPhone_text: "p \<noteq> [] \<Longrightarrow> phoneText (typedPhone p) = p"
  by (simp add: phoneText_def form_set_def orElse_def)

lemma typedPhone_valid:
  assumes "phone (Some (JStr p)) = Inr ph"
  shows "fst (form_validate own otpRequestShape (Some (lit ''phone'')) (typedPhone p))"
  using assms by (simp add: form_validate_field fieldOk_def otpRequestShape_def form_set_def)

lemma otpFields_accepted:
  "phone (Some (JStr p)) = Inr ph \<Longrightarrow>
   otpRequestSchema (Some (JObj (otpFields p))) = Inr \<lparr>or_phone = ph, or_purpose = LoginPurpose\<rparr>"
  using purpose_login by (simp add: otpRequestSchema_def objectFields_def andThen_def Let_def otpFields_def)

lemma route_otp:
  assumes "rq_method q = lit ''post''" "rq_url q = lit ''/auth/phone/otp''" "transmits c st (rq_data q)"
    and "otpRequestSchema (Some (rq_data q)) = Inr r" "run (requestOTP c r) w = (Done resp, w')"
  shows "run (route c (serverRequest st q)) w = (Done resp, w')"
proof -
  have "run (route c (serverRequest st q)) w = run (authRoute c (serverRequest st q) otpRequestSchema PhoneOtp) w"
    using assms(1,2) by (simp add: route_def serverRequest_def authRoutes_def)
  then show ?thesis
    using assms(3-5) by (simp add: authRoute_def run_validate_transmitted run_withOnError_Done)
qed

text \<open>A request of a code that the server answers with an object.\<close>

lemma run_sendOtp:
  assumes "cx_send x (cl_server v) (postRequest ''/auth/phone/otp'' (JObj fs)) = (Inr r, e, w')"
    and "200 \<le> ar_status r" "ar_status r \<le> 299" "ar_data r \<noteq> JNull"
  shows "\<exists>v'. run (sendOtp x fs) v = (Done (jsonField (lit ''userExists'') (ar_data r)), v')
    \<and> cl_server v' = w' \<and> cl_router v' = cl_router v \<and> cl_ui v' = cl_ui v
    \<and> cl_store v' = (cl_store v)\<lparr>s_isLoading := False, s_error := None\<rparr>"
proof -
  let ?q = "postRequest ''/auth/phone/otp'' (JObj fs)"
  let ?v = "setState x (\<lambda>s. s\<lparr>s_isLoading := True, s_error := None\<rparr>) v"
  have "reply x ?q ?v = Inr r" using assms(1-3) by (simp add: reply_def)
  then have "run (apiCall x ?q) ?v = (Done (Resp r), afterSend x ?q ?v)"
    by (simp add: apiCall_def callDepth_def numeral_3_eq_3 run_api_Suc run_interceptor_public refresh_path_public)
  moreover have "withData x (Resp r) k = k (ar_data r)" for k :: "json \<Rightarrow> ('a client, thrown, json option) prog"
    using assms(4) by (simp add: withData_def split: json.splits)
  ultimately show ?thesis
    using assms(1) by (simp add: sendOtp_def startLoading_def afterSend_def setState_def)
qed

text \<open>The first screen: the user is sent to the code screen when the phone is known.\<close>

lemma run_handleSendOtp:
  assumes "phone (Some (JStr p)) = Inr ph"
    and "cx_send x (cl_server v) (postRequest ''/auth/phone/otp'' (JObj (otpFields p)))
      = (Inr (clientResponse (otpBody True)), e, w')"
  shows "\<exists>v'. run (handleSendOtp x own (typedPhone p)) v
      = (Done (snd (form_validate own otpRequestShape (Some (lit ''phone'')) (typedPhone p))), v')
    \<and> cl_server v' = w'
    \<and> cl_router v' = cl_router v @ [Push OtpScreen [(lit ''phone'', p), (lit ''purpose'', lit ''login'')]]"
proof -
  let ?v = "v\<lparr>cl_ui := (cl_ui v)\<lparr>ui_phoneLoading := True\<rparr>\<rparr>"
  have b: "ar_data (clientResponse (otpBody True)) = JObj [(lit ''userExists'', JBool True)]"
    "ar_status (clientResponse (otpBody True)) = 200"
    by (simp_all add: clientResponse_def otpBody_def res_ok_def noOptions_def spread_def)
  obtain u where "run (sendOtp x (otpFields p)) ?v = (Done (Some (JBool True)), u)"
    "cl_server u = w'" "cl_router u = cl_router v"
    using run_sendOtp[of x ?v "otpFields p"] assms(2) b by auto
  moreover have "p \<noteq> []" using assms(1) by (auto simp: phone_eq_Inr)
  moreover obtain f where "form_validate own otpRequestShape (Some (lit ''phone'')) (typedPhone p) = (True, f)"
    using typedPhone_valid[OF assms(1), of own] by (cases "form_validate own otpRequestShape (Some (lit ''phone'')) (typedPhone p)") auto
  ultimately show ?thesis
    by (simp add: handleSendOtp_def setUi_def typedPhone_object typedPhone_text navigateToOtp_def navigate_def)
qed

text \<open>The world after a code was requested: the code is stored and a text message is due.\<close>

definition codeSent :: "jstring \<Rightarrow> jstring \<Rightarrow> nat \<Rightarrow> world \<Rightarrow> world" where
  "codeSent ph s j w = w\<lparr>w_randPos := j, w_db := upsertOtp ph (freshOtp s (w_now w)) (w_db w),
     w_tasks := w_tasks w @ [SendOtpTask ph s]\<rparr>"

lemma journey_codeSent:
  assumes server: "serving c (cl_server v)" "live (w_rand (cl_server v))" "cx_send x = network c st d" "d \<le> 5000"
    and typed: "phone (Some (JStr p)) = Inr ph" "transmits c st (JObj (otpFields p))"
    and account: "\<not> cooling ph (cl_server v)" "phoneUser ph (w_db (cl_server v))"
  obtains f v1 s j where "run (handleSendOtp x own (typedPhone p)) v = (Done f, v1)" "isOtp s"
    and "cl_server v1 = (codeSent ph s j (cl_server v))\<lparr>w_now := w_now (cl_server v) + int d\<rparr>"
    and "cl_router v1 = cl_router v @ [Push OtpScreen [(lit ''phone'', p), (lit ''purpose'', lit ''login'')]]"
proof -
  let ?w = "cl_server v" and ?q = "postRequest ''/auth/phone/otp'' (JObj (otpFields p))"
  obtain s j where code: "otpLoop (w_rand ?w) 6 [] (w_randPos ?w) = Some (s, j)" "isOtp s"
    using run_generateOTP[OF server(2)] by blast
  have run: "run (requestOTP c \<lparr>or_phone = ph, or_purpose = LoginPurpose\<rparr>) ?w = (Done (otpBody True), codeSent ph s j ?w)"
    using run_requestOTP[OF server(1) code(1), of "\<lparr>or_phone = ph, or_purpose = LoginPurpose\<rparr>"] account
    by (simp add: codeSent_def)
  have q: "transmits c st (rq_data ?q)" using typed(2) by (simp add: postRequest_def)
  have "run (route c (serverRequest st ?q)) ?w = (Done (otpBody True), codeSent ph s j ?w)"
    using otpFields_accepted[OF typed(1)]
    by (intro route_otp[OF _ _ q _ run]) (simp_all add: postRequest_def)
  then have "cx_send x ?w ?q = (Inr (clientResponse (otpBody True)), d,
      (codeSent ph s j ?w)\<lparr>w_now := w_now (codeSent ph s j ?w) + int d\<rparr>)"
    using network_answer[OF q _ server(4)] by (simp add: server(3))
  from run_handleSendOtp[OF typed(1) this, of own] code(2) that show thesis
    by (auto simp: codeSent_def)
qed

section \<open>Typing the code\<close>

text \<open>What the route hands to the code screen.\<close>

definition loginParams :: "jstring \<Rightarrow> otp_params" where
  "loginParams p = \<lparr>op_phone = Some p, op_purpose = lit ''login'', op_name = None, op_gender = None, op_birthYear = None\<rparr>"

text \<open>A code that is valid for the phone of a complete account.\<close>

lemma run_signIn:
  assumes "serving c (cl_server v)" "cx_send x = network c st d" "d \<le> 5000"
    and "phone (Some (JStr p)) = Inr ph" "otp (Some (JStr k)) = Inr code"
    and "knownOs (dv_os (cx_device x))" "transmits c st (JObj (injectDeviceInfo x (signInFields p k)))"
    and "verdict ph code (cl_server v) = OtpSuccess"
    and "selectAuth Phone ph (w_db (cl_server v)) = Some a" "selectUser (a_id a) (w_db (cl_server v)) \<noteq> None"
      "sessionFresh (a_id a) (cl_server v)"
  shows "\<exists>v' di e. run (signInWithPhone x (signInFields p k)) v = (Done (), v')
    \<and> cl_store v' = (cl_store v)\<lparr>s_accessToken := Some (accessTokenAt c (a_id a) (w_now (cl_server v))),
         s_refreshToken := Some (nextRefreshToken (cl_server v)), s_isAuthenticated := True,
         s_isLoading := False, s_error := None\<rparr>
    \<and> cl_router v' = cl_router v \<and> otp_change ph None (w_db (cl_server v)) e
    \<and> cl_server v' = (cl_server v)\<lparr>w_randPos := w_randPos (cl_server v) + 16, w_idPos := Suc (w_idPos (cl_server v)),
         w_db := e\<lparr>tokens := tokens (w_db (cl_server v)) @ [newSession (a_id a) (Some di) (cl_server v)]\<rparr>,
         w_now := w_now (cl_server v) + int d\<rparr>"
proof -
  let ?w = "cl_server v" and ?q = "postRequest ''/auth/phone/login'' (JObj (injectDeviceInfo x (signInFields p k)))"
  let ?a = "accessTokenAt c (a_id a) (w_now ?w)" and ?b = "nextRefreshToken ?w"
  obtain di where schema: "phoneSignInSchema (Some (rq_data ?q)) = Inr \<lparr>pi_phone = ph, pi_code = code, pi_deviceInfo = Some di\<rparr>"
    using signInFields_accepted[OF assms(4-6)] by (auto simp: postRequest_def)
  obtain e where ch: "otp_change ph None (w_db ?w) e"
    and run: "run (phoneSignIn c \<lparr>pi_phone = ph, pi_code = code, pi_deviceInfo = Some di\<rparr>) ?w =
      (Done (res_ok (tokenFields (?a, ?b)) noOptions),
       ?w\<lparr>w_randPos := w_randPos ?w + 16, w_idPos := Suc (w_idPos ?w),
         w_db := e\<lparr>tokens := tokens (w_db ?w) @ [newSession (a_id a) (Some di) ?w]\<rparr>\<rparr>)" (is "_ = (_, ?w')")
    using run_phoneSignIn[OF assms(1), of "\<lparr>pi_phone = ph, pi_code = code, pi_deviceInfo = Some di\<rparr>"] assms(8-11) by auto
  have sent: "cx_send x ?w ?q = (Inr (clientResponse (res_ok (tokenFields (?a, ?b)) noOptions)), d,
      ?w'\<lparr>w_now := w_now ?w' + int d\<rparr>)"
    using network_answer[OF _ route_login[OF _ _ _ schema run], of st d] assms(2,3,7)
    by (simp add: postRequest_def)
  from run_authenticate[OF _ tokenAnswer_ok[of ?a ?b] refl, of x v "''auth/phone/login''" "signInFields p k"] sent
  obtain v' where "run (signInWithPhone x (signInFields p k)) v = (Done (), v')"
    "cl_store v' = (cl_store v)\<lparr>s_accessToken := Some ?a, s_refreshToken := Some ?b, s_isAuthenticated := True,
         s_isLoading := False, s_error := None\<rparr>"
    "cl_router v' = cl_router v" "cl_server v' = ?w'\<lparr>w_now := w_now ?w' + int d\<rparr>"
    by (auto simp: signInWithPhone_def)
  with ch show ?thesis by (intro exI[of _ v'] exI[of _ di] exI[of _ e]) simp
qed

lemma run_handleVerifyOtp:
  assumes "serving c (cl_server v)" "cx_send x = network c st d" "d \<le> 5000"
    and "phone (Some (JStr p)) = Inr ph" "otp (Some (JStr k)) = Inr code"
    and "knownOs (dv_os (cx_device x))" "transmits c st (JObj (injectDeviceInfo x (signInFields p k)))"
    and "verdict ph code (cl_server v) = OtpSuccess"
    and "selectAuth Phone ph (w_db (cl_server v)) = Some a" "selectUser (a_id a) (w_db (cl_server v)) \<noteq> None"
      "sessionFresh (a_id a) (cl_server v)"
  shows "\<exists>v' di e. run (handleVerifyOtp x (loginParams p) k) v = (Done True, v')
    \<and> s_accessToken (cl_store v') = Some (accessTokenAt c (a_id a) (w_now (cl_server v)))
    \<and> s_refreshToken (cl_store v') = Some (nextRefreshToken (cl_server v)) \<and> s_isAuthenticated (cl_store v')
    \<and> cl_router v' = cl_router v @ [Replace HomeScreen] \<and> otp_change ph None (w_db (cl_server v)) e
    \<and> cl_server v' = (cl_server v)\<lparr>w_randPos := w_randPos (cl_server v) + 16, w_idPos := Suc (w_idPos (cl_server v)),
         w_db := e\<lparr>tokens := tokens (w_db (cl_server v)) @ [newSession (a_id a) (Some di) (cl_server v)]\<rparr>,
         w_now := w_now (cl_server v) + int d\<rparr>"
proof -
  define u where "u = (clearError x v)\<lparr>cl_ui := (cl_ui v)\<lparr>ui_otpError := None\<rparr>\<rparr>"
  have [simp]: "cl_server u = cl_server v" "cl_router u = cl_router v" "cl_ui (clearError x v) = cl_ui v"
    by (simp_all add: u_def clearError_def setState_def)
  have "p \<noteq> []" using assms(4) by (auto simp: phone_eq_Inr)
  moreover have "run (handleVerifyOtp x (loginParams p) k) v =
      (case run (signInWithPhone x (signInFields p k)) u of
         (Done _, u') \<Rightarrow> (Done True, u'\<lparr>cl_router := cl_router u' @ [Replace HomeScreen]\<rparr>)
       | (Thrown e, u') \<Rightarrow> (Done False, u') | (Hung, u') \<Rightarrow> (Hung, u'))"
    using \<open>p \<noteq> []\<close> by (auto simp: handleVerifyOtp_def loginParams_def setUi_def navigateToHome_def navigate_def
        signInFields_def u_def lit_def split: outcome.splits prod.splits)
  moreover obtain u' di e where "run (signInWithPhone x (signInFields p k)) u = (Done (), u')"
    "cl_store u' = (cl_store u)\<lparr>s_accessToken := Some (accessTokenAt c (a_id a) (w_now (cl_server v))),
         s_refreshToken := Some (nextRefreshToken (cl_server v)), s_isAuthenticated := True,
         s_isLoading := False, s_error := None\<rparr>"
    "cl_router u' = cl_router v" "otp_change ph None (w_db (cl_server v)) e"
    "cl_server u' = (cl_server v)\<lparr>w_randPos := w_randPos (cl_server v) + 16, w_idPos := Suc (w_idPos (cl_server v)),
         w_db := e\<lparr>tokens := tokens (w_db (cl_server v)) @ [newSession (a_id a) (Some di) (cl_server v)]\<rparr>,
         w_now := w_now (cl_server v) + int d\<rparr>"
    using run_signIn[of c u x st d p ph k code a] assms by auto
  ultimately show ?thesis
    by (intro exI[of _ "u'\<lparr>cl_router := cl_router u' @ [Replace HomeScreen]\<rparr>"] exI[of _ di] exI[of _ e]) simp
qed

text \<open>The time at which the code is typed, on the clock of the server.\<close>

definition serverAt :: "timestamp \<Rightarrow> world client \<Rightarrow> world client" where
  "serverAt t v = v\<lparr>cl_server := (cl_server v)\<lparr>w_now := t\<rparr>\<rparr>"

section \<open>A concrete journey\<close>

text \<open>The text of a body is its code, if it has one.\<close>

definition journeyText :: "json \<Rightarrow> jstring" where
  "journeyText j = (case jsonField (lit ''code'') j of Some (JStr k) \<Rightarrow> k | _ \<Rightarrow> [120])"

definition journeyBody :: "jstring \<Rightarrow> json" where
  "journeyBody k = JObj (AList.update (lit ''deviceInfo'') (JObj (getDeviceInfo sample_device))
     (signInFields sample_phone k))"

definition journey_ctx :: ctx where
  "journey_ctx = unary_ctx\<lparr>c_ext := (c_ext unary_ctx)\<lparr>x_jsonParse := (\<lambda>s.
     Some (if s = [120] then JObj (otpFields sample_phone) else journeyBody s))\<rparr>\<rparr>"

definition journey_cext :: "world cext" where
  "journey_cext = (system_cext [])\<lparr>cx_send := network journey_ctx journeyText 40\<rparr>"

lemma journeyText_body [simp]: "journeyText (journeyBody k) = k"
  by (simp add: journeyText_def journeyBody_def signInFields_def lit_def)

lemma journeyText_otp [simp]: "journeyText (JObj (otpFields p)) = [120]"
  by (simp add: journeyText_def otpFields_def lit_def)

lemma journey_transmits:
  "isOtp s \<Longrightarrow> transmits journey_ctx journeyText (JObj (injectDeviceInfo journey_cext (signInFields sample_phone s)))"
  "transmits journey_ctx journeyText (JObj (otpFields sample_phone))"
proof -
  have ext: "x_isJsonContent (c_ext journey_ctx) (lit ''application/json'')"
    "x_toLowerCase (c_ext journey_ctx) (lit ''application/json'') = lit ''application/json''"
    by (simp_all add: journey_ctx_def unary_ctx_def sample_ctx_def sample_ext_def)
  have "JObj (injectDeviceInfo journey_cext (signInFields sample_phone s)) = journeyBody s" for s
    by (simp add: injectDeviceInfo_def journeyBody_def journey_cext_def system_cext_def)
  moreover have "transmits journey_ctx journeyText (journeyBody s)" if "isOtp s" for s
    using that isOtp_not_space[of s] ext
    by (auto simp: transmits_def journey_ctx_def isOtp_def MAX_BODY_SIZE_def)
  ultimately show "isOtp s \<Longrightarrow> transmits journey_ctx journeyText (JObj (injectDeviceInfo journey_cext (signInFields sample_phone s)))"
    by simp
  have "trim [120] = [120]"
    by (rule trim_no_space) (simp add: isSpace_def)
  then show "transmits journey_ctx journeyText (JObj (otpFields sample_phone))"
    using ext by (simp add: transmits_def journey_ctx_def MAX_BODY_SIZE_def)
qed

lemma journey_serving: "serving journey_ctx (sample_world d)"
  by (simp add: serving_def quiet_def connected_def journey_ctx_def unary_ctx_def sample_ctx_def sample_env_def)

lemma journey_laws: "jwt_laws (c_ext journey_ctx)"
  using unary_laws by (simp add: jwt_laws_def journey_ctx_def)

end
