(* ===== verification/Interleaving.thy ===== *)
theory Interleaving
  imports Runtime
begin

text \<open>
  Invariants of functions that run together, proved one function at a time.

  \<open>guar\<close> of \<open>Runtime\<close> looks at one effect at a time. Here the unit is the turn: the synchronous
  code between two awaits is not interrupted, so a test of a variable and the assignment after
  it belong together. What one function knows about the shared world while it awaits is a number
  of credits: a world \<open>w\<close> has \<open>pot w\<close> credits, every awaiting function holds some, and together
  they hold at most the credits there are. A turn of one function must keep the credits of the
  others. The bound \<open>B\<close> limits the executions that are looked at, for instance to those that
  end before a certain time.
\<close>

section \<open>Weakest preconditions of a turn\<close>

text \<open>
  \<open>owns I B pot Q E p w d\<close>: the code \<open>p\<close> goes on in the world \<open>w\<close>, with \<open>d + pot w\<close> credits. Where
  it awaits, the invariant holds and it keeps a number of credits it can afford; it resumes in
  any world that satisfies the invariant and has these credits. \<open>Q\<close> and \<open>E\<close> are reached
  where it returns or throws.
\<close>

primrec owns :: "('w \<Rightarrow> bool) \<Rightarrow> ('w \<Rightarrow> bool) \<Rightarrow> ('w \<Rightarrow> nat) \<Rightarrow> ('a \<Rightarrow> 'w \<Rightarrow> int \<Rightarrow> bool) \<Rightarrow>
    ('e \<Rightarrow> 'w \<Rightarrow> int \<Rightarrow> bool) \<Rightarrow> ('w, 'e, 'a) prog \<Rightarrow> 'w \<Rightarrow> int \<Rightarrow> bool" where
  "owns I B pot Q E (Ret a) = Q a"
| "owns I B pot Q E (Throw e) = E e"
| "owns I B pot Q E Hang = (\<lambda>w d. B w \<longrightarrow> I w \<and> 0 \<le> d + int (pot w))"
| "owns I B pot Q E (Sync f) = (\<lambda>w d. fst (map_prod (owns I B pot Q E) id (f w)) (snd (f w)) d)"
| "owns I B pot Q E (Await f) = (\<lambda>w d. B w \<longrightarrow> (\<exists>c. I w \<and> int c \<le> d + int (pot w) \<and>
     (\<forall>v. I v \<longrightarrow> B v \<longrightarrow> c \<le> pot v \<longrightarrow>
        fst (map_prod (owns I B pot Q E) id (f v)) (snd (f v)) (int c - int (pot v)))))"
| "owns I B pot Q E (Wait f) = (\<lambda>w d. B w \<longrightarrow> (\<exists>c. I w \<and> int c \<le> d + int (pot w) \<and>
     (\<forall>v. I v \<longrightarrow> B v \<longrightarrow> c \<le> pot v \<longrightarrow>
        (case map_option (owns I B pot Q E) (f v) of
           None \<Rightarrow> True | Some g \<Rightarrow> g v (int c - int (pot v))))))"

lemma owns_bindP [simp]:
  "owns I B pot Q E (bindP p k) = owns I B pot (\<lambda>a. owns I B pot Q E (k a)) E p"
  by (induction p rule: prog_induct) (auto simp: fun_eq_iff option.map_comp split: option.splits)

lemma owns_tryP [simp]:
  "owns I B pot Q E (tryP p) = owns I B pot (\<lambda>a. Q (Inr a)) (\<lambda>e. Q (Inl e)) p"
  by (induction p rule: prog_induct) (auto simp: fun_eq_iff option.map_comp split: option.splits)

lemma owns_catchP [simp]:
  "owns I B pot Q E (catchP p h) = owns I B pot Q (\<lambda>e. owns I B pot Q E (h e)) p"
  by (simp add: catchP_def)

lemma owns_getW [simp]: "owns I B pot Q E (getW g) w = Q (g w) w"
  by (simp add: getW_def)

lemma owns_setW [simp]: "owns I B pot Q E (setW h) w = Q () (h w)"
  by (simp add: setW_def)

lemma owns_syncW [simp]: "owns I B pot Q E (syncW f) w = Q (fst (f w)) (snd (f w))"
  by (simp add: syncW_def)

lemma owns_awaitW:
  "owns I B pot Q E (awaitW f) w d \<longleftrightarrow> (B w \<longrightarrow> (\<exists>c. I w \<and> int c \<le> d + int (pot w) \<and>
     (\<forall>v. I v \<longrightarrow> B v \<longrightarrow> c \<le> pot v \<longrightarrow>
        (case fst (f v) of Inl e \<Rightarrow> E e | Inr a \<Rightarrow> Q a) (snd (f v)) (int c - int (pot v)))))"
  by (auto simp: awaitW_def split: sum.splits)

lemma owns_waitW:
  "owns I B pot Q E (waitW g) w d \<longleftrightarrow> (B w \<longrightarrow> (\<exists>c. I w \<and> int c \<le> d + int (pot w) \<and>
     (\<forall>v. I v \<longrightarrow> B v \<longrightarrow> c \<le> pot v \<longrightarrow>
        (case g v of None \<Rightarrow> True
         | Some (Inl e) \<Rightarrow> E e v (int c - int (pot v))
         | Some (Inr a) \<Rightarrow> Q a v (int c - int (pot v))))))"
proof -
  have "(case map_option (owns I B pot Q E) (case g v of None \<Rightarrow> None
        | Some (Inl e) \<Rightarrow> Some (Throw e) | Some (Inr a) \<Rightarrow> Some (Ret a)) of
          None \<Rightarrow> True | Some h \<Rightarrow> h v (int c - int (pot v)))
      \<longleftrightarrow> (case g v of None \<Rightarrow> True
         | Some (Inl e) \<Rightarrow> E e v (int c - int (pot v))
         | Some (Inr a) \<Rightarrow> Q a v (int c - int (pot v)))" for c v
    by (auto split: option.splits sum.splits)
  then show ?thesis by (simp only: waitW_def owns.simps)
qed

lemma owns_mono:
  assumes "owns I B pot Q E p w d"
    and "\<And>a w d. Q a w d \<Longrightarrow> Q' a w d" "\<And>e w d. E e w d \<Longrightarrow> E' e w d"
  shows "owns I B pot Q' E' p w d"
  using assms(1)
proof (induction p arbitrary: w d rule: prog_induct)
  case (Await f)
  then show ?case by (simp, blast)
next
  case (Wait f)
  show ?case
    unfolding owns.simps
  proof (intro impI)
    assume "B w"
    with Wait.prems obtain c where c: "I w" "int c \<le> d + int (pot w)"
      and k: "\<And>v g. I v \<Longrightarrow> B v \<Longrightarrow> c \<le> pot v \<Longrightarrow> f v = Some g \<Longrightarrow> owns I B pot Q E g v (int c - int (pot v))"
      by (auto split: option.splits)
    show "\<exists>c. I w \<and> int c \<le> d + int (pot w) \<and> (\<forall>v. I v \<longrightarrow> B v \<longrightarrow> c \<le> pot v \<longrightarrow>
        (case map_option (owns I B pot Q' E') (f v) of
           None \<Rightarrow> True | Some g \<Rightarrow> g v (int c - int (pot v))))"
      using c by (intro exI[of _ c]) (auto split: option.splits intro: Wait.IH k)
  qed
qed (use assms(2,3) in auto)

section \<open>The functions of a system\<close>

text \<open>What an awaiting function needs for its next turn, with \<open>c\<close> credits in its hands.\<close>

definition settledWell :: "('w \<Rightarrow> bool) \<Rightarrow> ('w \<Rightarrow> bool) \<Rightarrow> ('w \<Rightarrow> nat) \<Rightarrow> 'a \<Rightarrow> 'w \<Rightarrow> int \<Rightarrow> bool" where
  "settledWell I B pot a w d \<longleftrightarrow> (B w \<longrightarrow> I w \<and> 0 \<le> d + int (pot w))"

abbreviation safe :: "('w \<Rightarrow> bool) \<Rightarrow> ('w \<Rightarrow> bool) \<Rightarrow> ('w \<Rightarrow> nat) \<Rightarrow> ('w, 'e, 'a) prog \<Rightarrow> 'w \<Rightarrow> int \<Rightarrow> bool" where
  "safe I B pot \<equiv> owns I B pot (settledWell I B pot) (settledWell I B pot)"

definition ready :: "('w \<Rightarrow> bool) \<Rightarrow> ('w \<Rightarrow> bool) \<Rightarrow> ('w \<Rightarrow> nat) \<Rightarrow> nat \<Rightarrow> ('w, 'e, 'a) prog \<Rightarrow> bool" where
  "ready I B pot c p \<longleftrightarrow> (\<forall>v. I v \<longrightarrow> B v \<longrightarrow> c \<le> pot v \<longrightarrow>
     (case p of
        Await f \<Rightarrow> safe I B pot (fst (f v)) (snd (f v)) (int c - int (pot v))
      | Wait f \<Rightarrow> (case f v of None \<Rightarrow> True | Some g \<Rightarrow> safe I B pot g v (int c - int (pot v)))
      | _ \<Rightarrow> safe I B pot p v (int c - int (pot v))))"

lemma settle_ready:
  "safe I B pot p w d \<Longrightarrow> B (snd (settle p w)) \<Longrightarrow>
   \<exists>c. I (snd (settle p w)) \<and> int c \<le> d + int (pot (snd (settle p w)))
     \<and> ready I B pot c (fst (settle p w))"
proof (induction p arbitrary: w d rule: prog_induct)
  case (Wait f)
  then obtain c where "I w" "int c \<le> d + int (pot w)"
    and "\<And>v g. I v \<Longrightarrow> B v \<Longrightarrow> c \<le> pot v \<Longrightarrow> f v = Some g \<Longrightarrow> safe I B pot g v (int c - int (pot v))"
    by (auto split: option.splits)
  then show ?case by (auto simp: ready_def split: option.splits)
next
  case (Await f)
  then show ?case by (auto simp: ready_def)
qed (auto simp: ready_def settledWell_def intro!: exI[of _ 0])

lemma turn_ready:
  assumes "ready I B pot c p" "I v" "B v" "c \<le> pot v" "turn p v = Some (p', w')" "B w'"
  shows "\<exists>c'. I w' \<and> c' + pot v \<le> c + pot w' \<and> ready I B pot c' p'"
proof -
  obtain q u where s: "(p', w') = settle q u" "safe I B pot q u (int c - int (pot v))"
    using assms(5)
  proof (cases rule: turn_cases)
    case (Sync f)
    then show ?thesis using assms(1-4) by (intro that[of p v]) (auto simp: ready_def)
  next
    case (Await f)
    then show ?thesis using assms(1-4) by (intro that[of "fst (f v)" "snd (f v)"]) (auto simp: ready_def)
  next
    case (Wait f g)
    then show ?thesis using assms(1-4) by (intro that[of g v]) (auto simp: ready_def)
  qed
  with settle_ready[of I B pot q u] assms(6) obtain c' where
    "I w'" "int c' \<le> int c - int (pot v) + int (pot w')" "ready I B pot c' p'"
    by (metis fst_conv snd_conv)
  then show ?thesis by (intro exI[of _ c']) linarith
qed

lemma safe_ready:
  assumes "\<And>w. I w \<Longrightarrow> B w \<Longrightarrow> safe I B pot p w (- int (pot w))"
  shows "ready I B pot 0 p"
  unfolding ready_def
proof (intro allI impI)
  fix v
  assume v: "I v" "B v"
  with assms[of v] show "case p of
      Await f \<Rightarrow> safe I B pot (fst (f v)) (snd (f v)) (int 0 - int (pot v))
    | Wait f \<Rightarrow> (case f v of None \<Rightarrow> True | Some g \<Rightarrow> safe I B pot g v (int 0 - int (pot v)))
    | _ \<Rightarrow> safe I B pot p v (int 0 - int (pot v))"
    by (cases p) (auto split: option.splits)
qed

text \<open>
  The invariant of a system: it holds in every state that is reached within the bound. The bound
  is one that cannot be entered again once it is left: it is downward closed under the relation
  that every function guarantees.
\<close>

locale shared_budget = world_guarantee J R
  for J :: "'w \<Rightarrow> bool" and R :: "'w \<Rightarrow> 'w \<Rightarrow> bool" +
  fixes I :: "'w \<Rightarrow> bool"
    and B :: "'w \<Rightarrow> bool"
    and pot :: "'w \<Rightarrow> nat"
  assumes bound: "R v w \<Longrightarrow> B w \<Longrightarrow> B v"
begin

definition balanced :: "('w, 'e, 'a) sys \<Rightarrow> bool" where
  "balanced s \<longleftrightarrow> I (fst s) \<and>
     (\<exists>cs. list_all2 (ready I B pot) cs (snd s) \<and> sum_list cs \<le> pot (fst s))"

lemma turn_balanced:
  assumes "balanced (v, ps)" "B v" "i < length ps" "turn (ps ! i) v = Some (p', w')" "B w'"
  shows "balanced (w', ps[i := p'])"
proof -
  from assms(1) obtain cs where "I v" and cs: "list_all2 (ready I B pot) cs ps" "sum_list cs \<le> pot v"
    by (auto simp: balanced_def)
  from cs assms(3) have len: "i < length cs" and "ready I B pot (cs ! i) (ps ! i)"
    by (auto simp: list_all2_conv_all_nth)
  moreover have "cs ! i \<le> pot v"
    using cs(2) len member_le_sum_list[of "cs ! i" cs] by simp
  ultimately obtain c' where c': "I w'" "c' + pot v \<le> cs ! i + pot w'" "ready I B pot c' p'"
    using turn_ready[where I = I and B = B and pot = pot] assms(2,4,5) \<open>I v\<close> by blast
  have "sum_list (cs[i := c']) + cs ! i = sum_list cs + c'"
    using len sum_list_update[of i cs c'] elem_le_sum_list[of i cs] by simp
  with c' cs(2) have "sum_list (cs[i := c']) \<le> pot w'" by simp
  moreover have "list_all2 (ready I B pot) (cs[i := c']) (ps[i := p'])"
    using cs(1) c'(3) by (rule list_all2_update_cong)
  ultimately show ?thesis using c'(1) by (auto simp: balanced_def)
qed

theorem reachable_balanced:
  assumes "sys_step\<^sup>*\<^sup>* (w, ps) (w', ps')" and "list_all (guar J R) ps" "J w"
    and "balanced (w, ps)" and "B w'"
  shows "balanced (w', ps')"
  using assms
proof (induction "(w', ps')" arbitrary: w' ps' rule: rtranclp_induct)
  case base
  then show ?case by simp
next
  case (step s)
  obtain v qs where s: "s = (v, qs)" by (cases s)
  from step.hyps(2)[unfolded s] obtain i p' where t: "i < length qs"
    "turn (qs ! i) v = Some (p', w')" "ps' = qs[i := p']"
    by (auto elim: sys_stepE)
  from system_keeps[OF step.hyps(1)[unfolded s] step.prems(1,2)]
  have "J v" "guar J R (qs ! i)" using t(1) by (auto simp: list_all_length)
  with t(2) have "R v w'" using turn_keeps by blast
  with step.prems(4) have "B v" by (blast intro: bound)
  with step.hyps(3)[OF s] step.prems have "balanced (v, qs)" by simp
  from turn_balanced[OF this \<open>B v\<close> t(1,2) step.prems(4)] t(3) show ?case by simp
qed

text \<open>Nothing has to be shown outside of the bound.\<close>

lemma outside:
  assumes "guar J R p" "J w" "\<not> B w"
    and "\<And>a w d. \<not> B w \<Longrightarrow> Q a w d" "\<And>e w d. \<not> B w \<Longrightarrow> E e w d"
  shows "owns I B pot Q E p w d"
  using assms(1-3)
proof (induction p arbitrary: w rule: prog_induct)
  case (Sync f)
  then have "J (snd (f w))" "R w (snd (f w))" "guar J R (fst (f w))" by simp_all
  with Sync.IH Sync.prems bound show ?case by simp blast
qed (simp_all add: assms(4,5))

text \<open>Functions that start without credits.\<close>

lemma reachable_inv:
  assumes "sys_step\<^sup>*\<^sup>* (w, ps) (w', ps')" and "list_all (guar J R) ps" "J w"
    and "list_all (ready I B pot 0) ps" "I w" and "B w'"
  shows "I w'"
proof -
  have "balanced (w, ps)"
    using assms(4,5)
    by (auto simp: balanced_def list_all2_conv_all_nth list_all_length sum_list_replicate
        intro!: exI[of _ "replicate (length ps) 0"])
  from reachable_balanced[OF assms(1-3) this assms(6)] show ?thesis by (simp add: balanced_def)
qed

end

end
