(* ===== verification/ClientRefresh.thy ===== *)
theory ClientRefresh
  imports ClientSession Interleaving
begin

text \<open>
  Requests of the application that run together and need the tokens refreshed
  (\<open>packages/auth/expo/src/api.ts\<close>): the module variable \<open>refreshPromise\<close> makes them share one
  refresh. The proof gives the request that starts the refresh two credits: one says that the
  refresh is pending, the other that its request is still to be sent.
\<close>

section \<open>The state of the shared refresh\<close>

definition refreshesSent :: "'s client \<Rightarrow> nat" where
  "refreshesSent w = length (filter (\<lambda>q. rq_url q = lit ''/auth/token/refresh'') (cl_sent w))"

text \<open>An access token that is not due for a refresh before the time \<open>T\<close> is over.\<close>

definition tokenLasts :: "'s cext \<Rightarrow> timestamp \<Rightarrow> jstring option \<Rightarrow> bool" where
  "tokenLasts x T t \<longleftrightarrow> (truthyOpt t \<longrightarrow> \<not> needsTokenRefresh x (the t) T)"

lemma tokenLasts_before:
  "tokenLasts x T t \<Longrightarrow> truthyOpt t \<Longrightarrow> time \<le> T \<Longrightarrow> \<not> needsTokenRefresh x (the t) time"
  using zdiv_mono1[of time T 1000]
  by (auto simp: tokenLasts_def needsTokenRefresh_def split: option.splits)

text \<open>
  The state of a client with \<open>L\<close> earlier promises that has sent \<open>N\<close> refresh requests: no refresh
  was started, or one was. While it is pending, and for ever when it has failed, it is the one
  that is shared; when it has succeeded, the token in the store lasts.
\<close>

definition oneRefresh :: "'s cext \<Rightarrow> timestamp \<Rightarrow> nat \<Rightarrow> nat \<Rightarrow> 's client \<Rightarrow> bool" where
  "oneRefresh x T L N w \<longleftrightarrow>
     (if length (cl_promises w) = L then cl_refreshPromise w = None \<and> refreshesSent w = N
      else length (cl_promises w) = Suc L \<and> refreshesSent w \<in> {N, Suc N}
        \<and> cl_refreshPromise w \<in> {None, Some L}
        \<and> (if cl_promises w ! L = Resolved then tokenLasts x T (s_accessToken (cl_store w))
           else cl_refreshPromise w = Some L))"

definition refreshCredits :: "nat \<Rightarrow> nat \<Rightarrow> 's client \<Rightarrow> nat" where
  "refreshCredits L N w =
     (if length (cl_promises w) = Suc L \<and> cl_promises w ! L = Pending
      then (if refreshesSent w = N then 2 else 1) else 0)"

definition clockMoves :: "'s client \<Rightarrow> 's client \<Rightarrow> bool" where
  "clockMoves v w \<longleftrightarrow> cl_now v \<le> cl_now w"

definition anyWorld :: "'s client \<Rightarrow> bool" where
  "anyWorld w \<longleftrightarrow> True"

definition until :: "timestamp \<Rightarrow> 's client \<Rightarrow> bool" where
  "until T w \<longleftrightarrow> cl_now w \<le> T"

interpretation clock: service_guarantee anyWorld clockMoves x
  for x
  by unfold_locales (auto simp: clockMoves_def anyWorld_def setState_def clearAll_def Let_def)

interpretation refresh: shared_budget anyWorld clockMoves "oneRefresh x T L N" "until T" "refreshCredits L N"
  for x T L N
  by unfold_locales (auto simp: clockMoves_def until_def)

text \<open>
  A server that answers no request with \<open>EXPIRED_TOKEN\<close>, and every refresh, sign-in and sign-up
  with a token that lasts, if it carries one.
\<close>

definition issuesTokens :: "areq \<Rightarrow> bool" where
  "issuesTokens q \<longleftrightarrow> rq_url q \<in> set (map lit [''/auth/token/refresh'', ''/auth/phone/signup'', ''/auth/phone/login'',
     ''/auth/oauth/signup'', ''/auth/google'', ''/auth/apple''])"

definition lastingTokens :: "'s cext \<Rightarrow> timestamp \<Rightarrow> bool" where
  "lastingTokens x T \<longleftrightarrow> (\<forall>s q r. fst (cx_send x s q) = Inr r \<longrightarrow>
     \<not> (ar_status r = 401 \<and> responseCode (ar_data r) = JStr (lit ''EXPIRED_TOKEN''))
     \<and> (issuesTokens q \<longrightarrow>
        tokenLasts x T (stringField ''accessToken'' (ar_data r))
        \<and> (\<forall>d. jsonField (lit ''data'') (ar_data r) = Some d \<longrightarrow> tokenLasts x T (stringField ''accessToken'' d))))"

section \<open>The credits of a turn\<close>

text \<open>
  What holds between any two effects of a turn: a guest has no credits, the owner of the pending
  refresh has all there are: two until its request is sent, then one.
\<close>

definition guest :: "'s cext \<Rightarrow> timestamp \<Rightarrow> nat \<Rightarrow> nat \<Rightarrow> 's client \<Rightarrow> int \<Rightarrow> bool" where
  "guest x T L N w d \<longleftrightarrow> (until T w \<longrightarrow>
     oneRefresh x T L N w \<and> d \<le> 0 \<and> 0 \<le> d + int (refreshCredits L N w))"

definition owner :: "'s cext \<Rightarrow> timestamp \<Rightarrow> nat \<Rightarrow> nat \<Rightarrow> nat \<Rightarrow> 's client \<Rightarrow> int \<Rightarrow> bool" where
  "owner x T L N k w d \<longleftrightarrow> (until T w \<longrightarrow>
     oneRefresh x T L N w \<and> d = 0 \<and> k \<le> refreshCredits L N w \<and> 0 < refreshCredits L N w)"

abbreviation sharing :: "'s cext \<Rightarrow> timestamp \<Rightarrow> nat \<Rightarrow> nat \<Rightarrow> ('a \<Rightarrow> 's client \<Rightarrow> int \<Rightarrow> bool) \<Rightarrow>
    ('e \<Rightarrow> 's client \<Rightarrow> int \<Rightarrow> bool) \<Rightarrow> ('s client, 'e, 'a) prog \<Rightarrow> 's client \<Rightarrow> int \<Rightarrow> bool" where
  "sharing x T L N \<equiv> owns (oneRefresh x T L N) (until T) (refreshCredits L N)"

lemma guest_settled: "guest x T L N w d \<Longrightarrow>
    settledWell (oneRefresh x T L N) (until T) (refreshCredits L N) a w d"
  by (auto simp: guest_def settledWell_def)

lemma owner_any: "owner x T L N k w d \<Longrightarrow> owner x T L N 0 w d"
  by (auto simp: owner_def)

lemma state_eqs [simp]:
  "until T (setState x f w) = until T w" "refreshesSent (setState x f w) = refreshesSent w"
  "refreshCredits L N (setState x f w) = refreshCredits L N w"
  "guest x T L N (w\<lparr>cl_timers := ts\<rparr>) d = guest x T L N w d"
  "owner x T L N k (w\<lparr>cl_timers := ts\<rparr>) d = owner x T L N k w d"
  by (simp_all add: until_def refreshesSent_def refreshCredits_def oneRefresh_def guest_def owner_def)

lemma guest_setState [simp]:
  "s_accessToken (f (cl_store w)) = s_accessToken (cl_store w) \<Longrightarrow>
   guest x T L N (setState x f w) d = guest x T L N w d"
  by (simp add: guest_def oneRefresh_def)

lemma guest_stores:
  "guest x T L N w d \<Longrightarrow> tokenLasts x T (s_accessToken (f (cl_store w))) \<Longrightarrow> guest x T L N (setState x f w) d"
  by (auto simp: guest_def oneRefresh_def)

lemma guest_clearAll: "guest x T L N w d \<Longrightarrow> guest x T L N (clearAll x w) d"
  by (auto simp: guest_def oneRefresh_def refreshCredits_def clearAll_def Let_def tokenLasts_def
      until_def refreshesSent_def)

text \<open>The owner may store any tokens.\<close>

lemma owner_setState [simp]: "owner x T L N k (setState x f w) d = owner x T L N k w d"
  by (auto simp: owner_def oneRefresh_def refreshCredits_def refreshesSent_def until_def split: if_splits)

lemma newPromise_owner:
  assumes "guest x T L N w d"
    and "until T w \<Longrightarrow> cl_refreshPromise w = None \<and> length (cl_promises w) = L"
  shows "owner x T L N 2 (snd (newPromise w)) d \<and> (until T w \<longrightarrow> fst (newPromise w) = L)"
  using assms by (auto simp: guest_def owner_def oneRefresh_def refreshCredits_def newPromise_def until_def refreshesSent_def)

lemma settlePromise_guest:
  assumes "owner x T L N 0 w d" and "until T w \<Longrightarrow> i = L"
    and "until T w \<Longrightarrow> r = Inr () \<Longrightarrow> tokenLasts x T (s_accessToken (cl_store w))"
  shows "guest x T L N (settlePromise i r w) d"
  using assms
  by (cases r) (auto simp: guest_def owner_def oneRefresh_def refreshCredits_def settlePromise_def
      until_def refreshesSent_def split: if_splits)

section \<open>Requests\<close>

definition isRefresh :: "areq \<Rightarrow> bool" where
  "isRefresh q \<longleftrightarrow> rq_url q = lit ''/auth/token/refresh''"

lemma owns_dispatch: "owns I B pot Q E (dispatch x q) w d \<longleftrightarrow> (B w \<longrightarrow> (\<exists>c. I w \<and> int c \<le> d + int (pot w) \<and>
     (\<forall>v. I v \<longrightarrow> B v \<longrightarrow> c \<le> pot v \<longrightarrow>
        (case reply x q v of Inl e \<Rightarrow> E e | Inr a \<Rightarrow> Q a) (afterSend x q v) (int c - int (pot v)))))"
  by (auto simp: dispatch_def owns_awaitW reply_def afterSend_def split: prod.splits sum.splits cong: conj_cong)

lemma afterSend_other:
  assumes "\<not> isRefresh q"
  shows "until T (afterSend x q v) \<Longrightarrow> until T v"
    and "oneRefresh x T L N v \<Longrightarrow> oneRefresh x T L N (afterSend x q v)"
    and "refreshCredits L N (afterSend x q v) = refreshCredits L N v"
  using assms
  by (auto simp: oneRefresh_def refreshCredits_def refreshesSent_def isRefresh_def until_def afterSend_def
      split: prod.splits)

lemma dispatch_guest:
  assumes "\<not> isRefresh q" "guest x T L N w d"
    and "\<And>v d. guest x T L N (afterSend x q v) d \<Longrightarrow>
      (case reply x q v of Inl e \<Rightarrow> E e | Inr r \<Rightarrow> Q r) (afterSend x q v) d"
  shows "sharing x T L N Q E (dispatch x q) w d"
  unfolding owns_dispatch
proof (intro impI exI[of _ 0] conjI allI assms(3))
  fix v
  assume "oneRefresh x T L N v"
  then show "guest x T L N (afterSend x q v) (int 0 - int (refreshCredits L N v))"
    by (auto simp: guest_def afterSend_other[OF assms(1)])
qed (use assms(2) in \<open>auto simp: guest_def\<close>)

lemma dispatch_owner:
  assumes "isRefresh q" "owner x T L N 2 w d"
    and "\<And>v. owner x T L N 0 (afterSend x q v) 0 \<Longrightarrow>
      (case reply x q v of Inl e \<Rightarrow> E e | Inr r \<Rightarrow> Q r) (afterSend x q v) 0"
  shows "sharing x T L N Q E (dispatch x q) w d"
  unfolding owns_dispatch
proof (intro impI exI[of _ 2] conjI allI)
  fix v
  assume v: "oneRefresh x T L N v" "2 \<le> refreshCredits L N v"
  then have "owner x T L N 0 (afterSend x q v) 0"
    using assms(1) by (auto simp: owner_def oneRefresh_def refreshCredits_def refreshesSent_def isRefresh_def
        split: if_splits)
  moreover from v(2) have "int 2 - int (refreshCredits L N v) = 0"
    by (auto simp: refreshCredits_def split: if_splits)
  ultimately show "(case reply x q v of Inl e \<Rightarrow> E e | Inr r \<Rightarrow> Q r) (afterSend x q v)
      (int 2 - int (refreshCredits L N v))"
    using assms(3) by simp
qed (use assms(2) in \<open>auto simp: owner_def\<close>)

text \<open>What the server is assumed to promise, at the answer to one request.\<close>

lemma lasting_reply:
  assumes "lastingTokens x T"
  shows "reply x q v = Inl e \<Longrightarrow> ae_response e = Some r \<Longrightarrow>
      \<not> (ar_status r = 401 \<and> responseCode (ar_data r) = JStr (lit ''EXPIRED_TOKEN''))"
    and "reply x q v = Inr r \<Longrightarrow> issuesTokens q \<Longrightarrow> tokenLasts x T (stringField ''accessToken'' (ar_data r))"
    and "reply x q v = Inl e \<Longrightarrow> ae_response e = Some r \<Longrightarrow> issuesTokens q \<Longrightarrow>
      jsonField (lit ''data'') (ar_data r) = Some c \<Longrightarrow> tokenLasts x T (stringField ''accessToken'' c)"
  using assms
  by (auto simp: lastingTokens_def reply_def split: sum.splits if_splits)

text \<open>The handling of an error that is not an expired token sends nothing.\<close>

lemma handleError_quiet:
  assumes "\<And>r. ae_response e = Some r \<Longrightarrow>
      \<not> (ar_status r = 401 \<and> responseCode (ar_data r) = JStr (lit ''EXPIRED_TOKEN''))"
    and "\<And>ts. G (w\<lparr>cl_timers := ts\<rparr>)" and "G w"
    and "\<And>b w. G w \<Longrightarrow> (case ae_response e of
        None \<Rightarrow> jsonField (lit ''data'') b = None
      | Some r \<Rightarrow> b = ar_data r \<or> jsonField (lit ''data'') b = None) \<Longrightarrow> Q (Body b) w d"
  shows "owns I B pot Q E (handleError x f e) w d"
  using assms
  by (auto simp: handleError_def Let_def logOutSoon_def UNKNOWN_ERROR_def axios_err_def errorBody_def
      split: option.splits)

lemma owns_getState [simp]: "owns I B pot Q E getState w = Q (cl_store w) w"
  by (simp add: getState_def)

lemma owns_logOutSoon [simp]: "owns I B pot Q E logOutSoon w = Q () (w\<lparr>cl_timers := cl_timers w @ [LogOutTimer]\<rparr>)"
  by (simp add: logOutSoon_def)

lemma owns_rethrow [simp]: "owns I B pot Q E (rethrow x e) w =
    E (ThrownObj (Some (thrownText e)) (Some (thrownText e)) (Some (thrownCode e)))
      (setState x (\<lambda>s. s\<lparr>s_error := Some (thrownText e), s_isLoading := False\<rparr>) w)"
  by (simp add: rethrow_def setErrorState_def)

lemma owns_withData:
  assumes "\<And>e. E e w d" and "\<And>c. dataOf v = Some c \<Longrightarrow> owns I B pot Q E (k c) w d"
  shows "owns I B pot Q E (withData x v k) w d"
  using assms by (auto simp: withData_def split: option.splits json.splits)

lemma interceptor_public:
  "\<not> startsWith (rq_url q) (lit ''~'') \<Longrightarrow> owns I B pot Q E (requestInterceptor x f q) w = Q q w"
  by (simp add: requestInterceptor_def)

section \<open>The refresh\<close>

lemma refresh_public: "isRefresh q \<Longrightarrow> \<not> startsWith (rq_url q) (lit ''~'')"
  by (simp add: isRefresh_def startsWith_def lit_def)

lemma refresh_issues: "isRefresh q \<Longrightarrow> issuesTokens q"
  by (simp add: isRefresh_def issuesTokens_def)

text \<open>The answer of a refresh, in the hands of its owner.\<close>

definition refreshed :: "'s cext \<Rightarrow> timestamp \<Rightarrow> nat \<Rightarrow> nat \<Rightarrow> api_value \<Rightarrow> 's client \<Rightarrow> int \<Rightarrow> bool" where
  "refreshed x T L N v w d \<longleftrightarrow> owner x T L N 0 w d
     \<and> (\<forall>c. dataOf v = Some c \<longrightarrow> tokenLasts x T (stringField ''accessToken'' c))"

lemma refresh_api:
  assumes "lastingTokens x T" "isRefresh q" "owner x T L N 2 w d"
  shows "sharing x T L N (refreshed x T L N) (\<lambda>e. owner x T L N 0) (api n x q) w d"
proof (cases n)
  case 0
  with assms(3) show ?thesis by (simp add: owner_def)
next
  case (Suc m)
  have answer: "sharing x T L N (refreshed x T L N) (\<lambda>e. owner x T L N 0)
      (case reply x q v of Inl e \<Rightarrow> responseInterceptor x (api m x) e | Inr r \<Rightarrow> Ret (Resp r))
      (afterSend x q v) 0" if o: "owner x T L N 0 (afterSend x q v) 0" for v
  proof (cases "reply x q v")
    case (Inr r)
    with o lasting_reply(2)[OF assms(1) Inr refresh_issues[OF assms(2)]] show ?thesis by (simp add: refreshed_def)
  next
    case (Inl e)
    show ?thesis
      unfolding Inl sum.case responseInterceptor_def owns_bindP
      by (rule handleError_quiet[where G = "\<lambda>w. owner x T L N 0 w 0"])
        (use o lasting_reply(1,3)[OF assms(1) Inl] refresh_issues[OF assms(2)] in \<open>auto simp: refreshed_def split: option.splits\<close>)
  qed
  show ?thesis
    unfolding Suc api.simps owns_bindP owns_tryP interceptor_public[OF refresh_public[OF assms(2)]]
    by (rule dispatch_owner[OF assms(2,3)], drule answer) (auto split: sum.splits)
qed

lemma refresh_owner:
  assumes "lastingTokens x T" "owner x T L N 2 w d"
  shows "sharing x T L N
    (\<lambda>_ w d. owner x T L N 0 w d \<and> tokenLasts x T (s_accessToken (cl_store w)))
    (\<lambda>e. owner x T L N 0) (refreshTokensWith x (api n x)) w d"
proof -
  have "isRefresh (postRequest ''/auth/token/refresh'' b)" for b
    by (simp add: isRefresh_def postRequest_def)
  from refresh_api[OF assms(1) this, of L N]
  have call: "sharing x T L N Q E (api n x (postRequest ''/auth/token/refresh'' b)) w d"
    if "owner x T L N 2 w d" "\<And>v w d. refreshed x T L N v w d \<Longrightarrow> Q v w d"
      "\<And>e w d. owner x T L N 0 w d \<Longrightarrow> E e w d" for Q E b w d
    using that by (blast intro: owns_mono)
  show ?thesis
    unfolding refreshTokensWith_def owns_bindP owns_getState owns_catchP
    using assms(2)
    by (auto simp: refreshed_def intro!: call owns_withData dest: owner_any)
qed

text \<open>The start of the refresh, or the wait for the one that is there.\<close>

lemma awaitPromise_guest:
  assumes "guest x T L N w d" and "until T w \<Longrightarrow> i = L"
    and "\<And>r v d. guest x T L N v d \<Longrightarrow> E r v d"
    and "\<And>v d. guest x T L N v d \<Longrightarrow> guest x T L N (v\<lparr>cl_refreshPromise := None\<rparr>) d \<Longrightarrow> Q () v d"
  shows "sharing x T L N Q E (awaitPromise i) w d"
  unfolding awaitPromise_def owns_waitW
proof (intro impI exI[of _ 0] conjI allI)
  fix v
  assume "until T w" and v: "oneRefresh x T L N v" "until T v"
  then have i: "i = L" using assms(2) by blast
  have g: "guest x T L N v (- int (refreshCredits L N v))" using v by (simp add: guest_def)
  moreover have "guest x T L N (v\<lparr>cl_refreshPromise := None\<rparr>) (- int (refreshCredits L N v))"
    if "cl_promises v ! i = Resolved"
    using v that i by (auto simp: guest_def oneRefresh_def refreshCredits_def refreshesSent_def until_def)
  ultimately show "case (case cl_promises v ! i of Pending \<Rightarrow> None | Resolved \<Rightarrow> Some (Inr ())
      | RejectedWith e \<Rightarrow> Some (Inl e)) of None \<Rightarrow> True
    | Some (Inl e) \<Rightarrow> E e v (int 0 - int (refreshCredits L N v))
    | Some (Inr a) \<Rightarrow> Q a v (int 0 - int (refreshCredits L N v))"
    by (auto intro: assms(3,4) split: promise_state.splits)
qed (use assms(1) in \<open>auto simp: guest_def\<close>)

lemma refresh_shared:
  assumes "lastingTokens x T" "owner x T L N 2 w d" and i: "until T w \<Longrightarrow> i = L"
  shows "sharing x T L N (\<lambda>_. guest x T L N) (\<lambda>_. guest x T L N)
    (bindP (tryP (refreshTokensWith x (api n x))) (\<lambda>r.
     bindP (setW (settlePromise i r)) (\<lambda>_.
     bindP (awaitPromise i) (\<lambda>_. setW (\<lambda>w. w\<lparr>cl_refreshPromise := None\<rparr>))))) w d"
proof (cases "until T w")
  case True
  with i have [simp]: "i = L" by blast
  show ?thesis
    unfolding owns_bindP owns_tryP
    by (rule owns_mono[OF refresh_owner[OF assms(1,2)]])
      (auto intro!: awaitPromise_guest settlePromise_guest)
next
  case False
  show ?thesis
    by (rule refresh.outside[OF _ _ False])
      (auto simp: anyWorld_def guest_def intro!: clock.keeps_intros clock.refresh_keeps clock.api_keeps)
qed

lemma awaitRefresh_guest:
  assumes "lastingTokens x T" "guest x T L N w d"
    and "until T w \<Longrightarrow> cl_refreshPromise w = None \<Longrightarrow> length (cl_promises w) = L"
  shows "sharing x T L N (\<lambda>_. guest x T L N) (\<lambda>_. guest x T L N) (awaitRefresh x (api n x)) w d"
proof (cases "cl_refreshPromise w")
  case (Some i)
  with assms(2) have "until T w \<Longrightarrow> i = L" by (auto simp: guest_def oneRefresh_def split: if_splits)
  with Some assms(2) show ?thesis
    by (auto simp: awaitRefresh_def intro!: awaitPromise_guest)
next
  case None
  let ?v = "snd (newPromise w)"
  have "owner x T L N 2 ?v d" "until T ?v \<Longrightarrow> fst (newPromise w) = L"
    using newPromise_owner[of x T L N w d] assms(2,3) None by (auto simp: newPromise_def until_def)
  from refresh_shared[OF assms(1) this] None show ?thesis
    by (simp add: awaitRefresh_def)
qed

section \<open>The requests that share it\<close>

lemma interceptor_guest:
  assumes "lastingTokens x T" "guest x T L N w d"
    and "\<And>q' w d. guest x T L N w d \<Longrightarrow> rq_url q' = rq_url q \<or> rq_url q' = tl (rq_url q) \<Longrightarrow> Q q' w d"
    and "\<And>e w d. guest x T L N w d \<Longrightarrow> E e w d"
  shows "sharing x T L N Q E (requestInterceptor x (api n x) q) w d"
proof -
  let ?a = "s_accessToken (cl_store w)"
  have due: "length (cl_promises w) = L"
    if "truthyOpt ?a" "needsTokenRefresh x (the ?a) (cl_now w)" "until T w" "cl_refreshPromise w = None"
    using that assms(2) tokenLasts_before[of x T ?a "cl_now w"]
    by (auto simp: guest_def oneRefresh_def until_def split: if_splits)
  have wait: "sharing x T L N Q' E (awaitRefresh x (api n x)) w d"
    if "truthyOpt ?a" "needsTokenRefresh x (the ?a) (cl_now w)"
      "\<And>w d. guest x T L N w d \<Longrightarrow> Q' () w d" for Q'
    by (rule owns_mono[OF awaitRefresh_guest[OF assms(1,2) due[OF that(1,2)]]])
      (use that(3) assms(4) in auto)
  show ?thesis
    using assms(2) by (auto simp: requestInterceptor_def Let_def intro!: wait assms(3))
qed

lemma api_guest:
  assumes "lastingTokens x T" "guest x T L N w d"
    and "\<not> isRefresh q" "tl (rq_url q) \<noteq> lit ''/auth/token/refresh''"
  shows "sharing x T L N (\<lambda>_. guest x T L N) (\<lambda>_. guest x T L N) (api n x q) w d"
proof (cases n)
  case 0
  with assms(2) show ?thesis by (simp add: guest_def)
next
  case (Suc m)
  have answer: "sharing x T L N (\<lambda>_. guest x T L N) (\<lambda>_. guest x T L N)
      (case reply x q' v of Inl e \<Rightarrow> responseInterceptor x (api m x) e | Inr r \<Rightarrow> Ret (Resp r))
      (afterSend x q' v) d" if g: "guest x T L N (afterSend x q' v) d" for q' v d
  proof (cases "reply x q' v")
    case (Inr r)
    with g show ?thesis by simp
  next
    case (Inl e)
    show ?thesis
      unfolding Inl sum.case responseInterceptor_def owns_bindP
      by (rule handleError_quiet[where G = "\<lambda>w. guest x T L N w d"])
        (use g lasting_reply(1)[OF assms(1) Inl] in auto)
  qed
  show ?thesis
    unfolding Suc api.simps owns_bindP owns_tryP
  proof (rule interceptor_guest[OF assms(1,2)])
    fix q' :: areq and w :: "'a client" and d :: int
    assume g: "guest x T L N w d" and "rq_url q' = rq_url q \<or> rq_url q' = tl (rq_url q)"
    with assms(3,4) have q: "\<not> isRefresh q'" by (auto simp: isRefresh_def)
    show "sharing x T L N
        (\<lambda>a. sharing x T L N (\<lambda>_. guest x T L N) (\<lambda>_. guest x T L N)
           (case Inr a of Inl error \<Rightarrow> responseInterceptor x (api m x) error | Inr response \<Rightarrow> Ret (Resp response)))
        (\<lambda>e. sharing x T L N (\<lambda>_. guest x T L N) (\<lambda>_. guest x T L N)
           (case Inl e of Inl error \<Rightarrow> responseInterceptor x (api m x) error | Inr response \<Rightarrow> Ret (Resp response)))
        (dispatch x q') w d"
      by (rule dispatch_guest[OF q g], drule answer) (auto split: sum.splits)
  qed auto
qed

text \<open>A sign-in or sign-up is public, and the tokens of its answer last.\<close>

lemma issue_api:
  assumes "lastingTokens x T" "guest x T L N w d"
    and "issuesTokens q" "\<not> isRefresh q" "\<not> startsWith (rq_url q) (lit ''~'')"
  shows "sharing x T L N (\<lambda>v w d. guest x T L N w d \<and> (\<forall>c. dataOf v = Some c \<longrightarrow> tokenLasts x T (stringField ''accessToken'' c)))
    (\<lambda>_. guest x T L N) (api n x q) w d"
proof (cases n)
  case 0
  with assms(2) show ?thesis by (simp add: guest_def)
next
  case (Suc m)
  have answer: "sharing x T L N (\<lambda>v w d. guest x T L N w d \<and> (\<forall>c. dataOf v = Some c \<longrightarrow> tokenLasts x T (stringField ''accessToken'' c)))
      (\<lambda>_. guest x T L N) (case reply x q v of Inl e \<Rightarrow> responseInterceptor x (api m x) e | Inr r \<Rightarrow> Ret (Resp r))
      (afterSend x q v) d" if g: "guest x T L N (afterSend x q v) d" for v d
  proof (cases "reply x q v")
    case (Inr r)
    with g lasting_reply(2)[OF assms(1) Inr assms(3)] show ?thesis by simp
  next
    case (Inl e)
    show ?thesis
      unfolding Inl sum.case responseInterceptor_def owns_bindP
      by (rule handleError_quiet[where G = "\<lambda>w. guest x T L N w d"])
        (use g lasting_reply(1,3)[OF assms(1) Inl] assms(3) in \<open>auto split: option.splits\<close>)
  qed
  show ?thesis
    unfolding Suc api.simps owns_bindP owns_tryP interceptor_public[OF assms(5)]
    by (rule dispatch_guest[OF assms(4,2)], drule answer) (auto split: sum.splits)
qed

text \<open>
  The calls that do not start a refresh of their own: every function of the service but the
  explicit refresh, and every request but one to the route of the refresh.
\<close>

fun sharesRefresh :: "client_call \<Rightarrow> bool" where
  "sharesRefresh (ApiRequest q) \<longleftrightarrow> \<not> isRefresh q \<and> tl (rq_url q) \<noteq> lit ''/auth/token/refresh''"
| "sharesRefresh RefreshTokens \<longleftrightarrow> False"
| "sharesRefresh _ \<longleftrightarrow> True"

lemma apiCall_guest:
  assumes "lastingTokens x T" "guest x T L N w d"
    and "\<not> isRefresh q" "tl (rq_url q) \<noteq> lit ''/auth/token/refresh''"
    and "\<And>v w d. guest x T L N w d \<Longrightarrow> Q v w d" "\<And>e w d. guest x T L N w d \<Longrightarrow> E e w d"
  shows "sharing x T L N Q E (apiCall x q) w d"
  unfolding apiCall_def by (rule owns_mono[OF api_guest[OF assms(1-4)]]) (use assms(5,6) in auto)

lemma posts_no_refresh:
  "\<not> isRefresh (postRequest ''/auth/phone/otp'' b)" "\<not> isRefresh (postRequest ''/auth/logout'' b)"
  "tl (rq_url (postRequest ''/auth/phone/otp'' b)) \<noteq> lit ''/auth/token/refresh''"
  "tl (rq_url (postRequest ''/auth/logout'' b)) \<noteq> lit ''/auth/token/refresh''"
  by (simp_all add: isRefresh_def postRequest_def lit_def)

lemma posts_issue:
  assumes "url \<in> {''/auth/phone/signup'', ''/auth/phone/login'', ''/auth/oauth/signup'', ''/auth/google'', ''/auth/apple''}"
  shows "issuesTokens (postRequest url b)" "\<not> isRefresh (postRequest url b)"
    "\<not> startsWith (rq_url (postRequest url b)) (lit ''~'')"
  using assms by (auto simp: issuesTokens_def isRefresh_def postRequest_def lit_def startsWith_def)

lemma issueCall_guest:
  assumes "lastingTokens x T" "guest x T L N w d"
    and "url \<in> {''/auth/phone/signup'', ''/auth/phone/login'', ''/auth/oauth/signup'', ''/auth/google'', ''/auth/apple''}"
    and "\<And>v w d. guest x T L N w d \<Longrightarrow> (\<And>c. dataOf v = Some c \<Longrightarrow> tokenLasts x T (stringField ''accessToken'' c)) \<Longrightarrow> Q v w d"
    and "\<And>e w d. guest x T L N w d \<Longrightarrow> E e w d"
  shows "sharing x T L N Q E (apiCall x (postRequest url b)) w d"
  unfolding apiCall_def
  by (rule owns_mono[OF issue_api[OF assms(1,2) posts_issue[OF assms(3)]]]) (use assms(4,5) in auto)

lemma storeTokens_guest:
  assumes "guest x T L N w d" "tokenLasts x T (stringField ''accessToken'' c)"
    and "\<And>w d. guest x T L N w d \<Longrightarrow> Q () w d"
  shows "sharing x T L N Q E (storeTokens x c) w d"
  using assms by (auto simp: storeTokens_def clearUI_def intro!: assms(3) guest_stores)

lemma authenticate_guest:
  assumes "lastingTokens x T" "guest x T L N w d"
    and "url \<in> {''/auth/phone/signup'', ''/auth/phone/login'', ''/auth/oauth/signup'', ''/auth/google'', ''/auth/apple''}"
  shows "sharing x T L N (\<lambda>_. guest x T L N) (\<lambda>_. guest x T L N) (authenticate x url r) w d"
  using assms(2)
  by (auto simp: authenticate_def startLoading_def
      intro!: issueCall_guest[OF assms(1) _ assms(3)] owns_withData storeTokens_guest)

lemma signInWithIdToken_guest:
  assumes "lastingTokens x T" "guest x T L N w d"
    and "url \<in> {''/auth/phone/signup'', ''/auth/phone/login'', ''/auth/oauth/signup'', ''/auth/google'', ''/auth/apple''}"
  shows "sharing x T L N (\<lambda>_. guest x T L N) (\<lambda>_. guest x T L N) (signInWithIdToken x url t) w d"
  using assms(2)
  by (auto simp: signInWithIdToken_def startLoading_def
      intro!: issueCall_guest[OF assms(1) _ assms(3)] owns_withData storeTokens_guest)

lemma awaitNothing_guest:
  "guest x T L N w d \<Longrightarrow> (\<And>v d. guest x T L N v d \<Longrightarrow> Q a v d) \<Longrightarrow>
   sharing x T L N Q E (awaitW (\<lambda>w. (Inr a, w))) w d"
  unfolding owns_awaitW by (auto simp: guest_def intro!: exI[of _ 0])

lemma clientCall_guest:
  assumes "lastingTokens x T" "guest x T L N w d" "sharesRefresh call"
  shows "sharing x T L N (\<lambda>_. guest x T L N) (\<lambda>_. guest x T L N) (clientCall x call) w d"
  using assms(3)
proof (cases call)
  case (ApiRequest q)
  then show ?thesis using assms by (auto simp: ignoreResult_def intro: apiCall_guest)
next
  case (SendOtp r)
  then show ?thesis using assms(1,2)
    by (auto simp: ignoreResult_def sendOtp_def startLoading_def
        intro!: apiCall_guest owns_withData posts_no_refresh)
next
  case LogOut
  then show ?thesis using assms(1,2)
    by (auto simp: logOut_def finallyP_def intro!: apiCall_guest posts_no_refresh guest_clearAll
        awaitNothing_guest split: sum.splits)
next
  case RefreshTokens
  then show ?thesis using assms(3) by simp
qed (use assms(1,2) in \<open>auto simp: ignoreResult_def signUpWithPhone_def signInWithPhone_def signUpWithOAuth_def
    signInWithGoogle_def signInWithApple_def intro!: authenticate_guest signInWithIdToken_guest\<close>)

lemma clientCall_ready:
  assumes "lastingTokens x T" "sharesRefresh call"
  shows "ready (oneRefresh x T L N) (until T) (refreshCredits L N) 0 (clientCall x call)"
proof (rule safe_ready)
  fix w
  assume "oneRefresh x T L N w"
  then have "guest x T L N w (- int (refreshCredits L N w))" by (simp add: guest_def)
  from clientCall_guest[OF assms(1) this assms(2)]
  show "sharing x T L N (settledWell (oneRefresh x T L N) (until T) (refreshCredits L N))
      (settledWell (oneRefresh x T L N) (until T) (refreshCredits L N)) (clientCall x call)
      w (- int (refreshCredits L N w))"
    by (rule owns_mono) (auto intro: guest_settled)
qed

text \<open>
  C7. Calls that run together share one refresh. Take any number of calls of the service, that is
  requests of the application, requests of a code, sign-ins, sign-ups and sign-outs, everything
  but the explicit refresh, started while no refresh is pending and interleaved in any way: the
  application sends at most one refresh request until the time \<open>T\<close>; those that find the access
  token due share it, and a failed one is not repeated. The server is assumed to answer nothing
  with \<open>EXPIRED_TOKEN\<close> and to issue only access tokens that are not due before \<open>T\<close>. So this is
  about the refresh ahead of a request; the refresh after an answer \<open>EXPIRED_TOKEN\<close> is not
  shared in this way, as the last section shows.
\<close>

theorem concurrent_calls_share_refresh:
  assumes "sys_step\<^sup>*\<^sup>* (w, map (clientCall x) calls) (w', ps)"
    and "list_all sharesRefresh calls" and "cl_refreshPromise w = None"
    and "lastingTokens x T" and "cl_now w' \<le> T"
  shows "refreshesSent w' \<le> Suc (refreshesSent w)"
proof -
  let ?L = "length (cl_promises w)" and ?N = "refreshesSent w"
  have "oneRefresh x T ?L ?N w'"
  proof (rule refresh.reachable_inv[OF assms(1)])
    show "list_all (ready (oneRefresh x T ?L ?N) (until T) (refreshCredits ?L ?N) 0) (map (clientCall x) calls)"
      using assms(2,4) by (simp add: list_all_iff clientCall_ready)
    show "oneRefresh x T ?L ?N w" using assms(3) by (simp add: oneRefresh_def)
  qed (use assms(5) in \<open>simp_all add: list_all_iff clock.clientCall_keeps anyWorld_def until_def\<close>)
  then show ?thesis by (auto simp: oneRefresh_def split: if_splits)
qed

section \<open>Two requests with one token that is due\<close>

definition sample_sharing_cext :: "nat cext" where
  "sample_sharing_cext = (sample_cext (\<lambda>n q. Inr (if rq_url q = lit ''/auth/token/refresh'' then sample_tokens
       else \<lparr>ar_status = 200, ar_data = JObj []\<rparr>)))
     \<lparr>cx_jwtDecode := (\<lambda>t. Some (if t = lit ''new'' then \<lparr>jwt_sub = t, jwt_iat = 1700, jwt_exp = 3500\<rparr>
       else \<lparr>jwt_sub = t, jwt_iat = 0, jwt_exp = 1800\<rparr>)), cx_stringify := (\<lambda>p. [])\<rparr>"

definition sample_two_requests :: "(nat client, thrown, unit) sys" where
  "sample_two_requests = schedule [0, 1, 1, 0, 1, 0, 0, 1]
     (sample_client 1700000 sample_session,
      map (clientCall sample_sharing_cext) [ApiRequest sample_private, ApiRequest sample_private])"

lemma sample_lasting: "lastingTokens sample_sharing_cext 1800000"
  by (auto simp: lastingTokens_def sample_sharing_cext_def sample_cext_def sample_tokens_def responseCode_def
      tokenLasts_def needsTokenRefresh_def stringField_def)

lemma sample_sent: "map (\<lambda>q. (rq_url q, rq_authorization q)) (cl_sent (fst sample_two_requests)) =
    [(lit ''/auth/token/refresh'', None), (lit ''/me'', Some (lit ''Bearer new'')), (lit ''/me'', Some (lit ''Bearer new''))]
    \<and> cl_now (fst sample_two_requests) = 1700000"
  by code_simp

lemma sample_unsent: "cl_sent (sample_client t s) = []"
  by (simp add: sample_client_def)

theorem concurrent_calls_share_refresh_witness:
  "refreshesSent (fst sample_two_requests) \<le> 1"
proof -
  have "cl_now (fst sample_two_requests) \<le> 1800000" using sample_sent by simp
  moreover have "sharesRefresh (ApiRequest sample_private)"
    by (simp add: isRefresh_def sample_private_def lit_def)
  moreover have "sys_step\<^sup>*\<^sup>* (sample_client 1700000 sample_session,
      map (clientCall sample_sharing_cext) [ApiRequest sample_private, ApiRequest sample_private])
      (fst sample_two_requests, snd sample_two_requests)"
    using schedule_reachable by (simp only: sample_two_requests_def prod.collapse)
  ultimately show ?thesis
    using concurrent_calls_share_refresh[OF _ _ _ sample_lasting, of "sample_client 1700000 sample_session"
        "[ApiRequest sample_private, ApiRequest sample_private]" "fst sample_two_requests" "snd sample_two_requests"]
    by (simp add: refreshesSent_def sample_unsent)
qed

text \<open>
  The assumption on expired tokens is needed. Two requests leave with a token that the server
  holds to be expired and the clock of the device does not; the second answer comes after the
  refresh that the first has caused. It starts a second refresh, which the server refuses
  because there was one in the last five minutes, and the refused promise stays.
\<close>

definition sample_skewed_cext :: "nat cext" where
  "sample_skewed_cext = (sample_cext (\<lambda>n q. Inr (
     if rq_url q = lit ''/auth/token/refresh'' then (if n = 1 then sample_tokens else \<lparr>ar_status = 429,
       ar_data = JObj [(lit ''error'', JStr (lit ''Please wait'')), (lit ''code'', JStr (lit ''RATE_LIMITED''))]\<rparr>)
     else if rq_authorization q = Some (lit ''Bearer new'') then \<lparr>ar_status = 200, ar_data = JObj []\<rparr>
     else sample_expired)))\<lparr>cx_stringify := (\<lambda>p. [])\<rparr>"

definition sample_late_answer :: "(nat client, thrown, unit) sys" where
  "sample_late_answer = schedule [0, 1, 0, 0, 0, 0, 1, 1]
     (sample_client 0 sample_session,
      map (clientCall sample_skewed_cext) [ApiRequest sample_private, ApiRequest sample_private])"

text \<open>Which of the requests were refreshes, the variable, and which promises were refused.\<close>

definition refreshLog :: "'s client \<Rightarrow> bool list \<times> nat option \<times> bool list" where
  "refreshLog w = (map (\<lambda>q. rq_url q = lit ''/auth/token/refresh'') (cl_sent w), cl_refreshPromise w,
     map (\<lambda>p. case p of RejectedWith e \<Rightarrow> True | _ \<Rightarrow> False) (cl_promises w))"

lemma late_answer_refreshes_again:
  "refreshLog (fst sample_late_answer) = ([False, True, False, False, True], Some 1, [False, True])"
  by code_simp

text \<open>
  A sign-out while a refresh is on its way: the store is cleared, and then the answer of the
  refresh puts tokens into it, with nobody signed in.
\<close>

definition sample_logout_race :: "(nat client, thrown, unit) sys" where
  "sample_logout_race = schedule [0, 1, 1, 1, 0]
     (sample_client 1700000 sample_session,
      map (clientCall sample_sharing_cext) [ApiRequest sample_private, LogOut])"

definition signedInWith :: "'s client \<Rightarrow> bool \<times> jstring option" where
  "signedInWith w = (s_isAuthenticated (cl_store w), s_refreshToken (cl_store w))"

lemma logout_race_keeps_tokens:
  "signedInWith (fst sample_logout_race) = (False, Some (lit ''r2''))"
  by code_simp

end
