(* ===== verification/SessionHistory.thy ===== *)
theory SessionHistory
  imports AuthAccounts
begin

text \<open>
  The contract of the sessions: a table from refresh tokens to sessions with four operations, and
  the handlers of \<open>modules/auth/handlers.ts\<close> as its refinement, over whole histories of requests.
\<close>

section \<open>The abstract table\<close>

record session =
  ss_account :: jstring
  ss_expires :: timestamp
  ss_lastUsed :: timestamp
  ss_active :: bool

type_synonym session_table = "jstring \<rightharpoonup> session"

datatype session_op = OpenSession jstring "device_info option" | RenewSession jstring | CloseSession jstring

datatype session_answer = Issued jstring jstring | NotRenewed | TooSoon | Closed | NotClosed

text \<open>
  One operation at the time \<open>t\<close>; \<open>supply n\<close> is the next new token. A token is replaced when it is
  used: the session moves to the new one.
\<close>

fun sessionSpec :: "(nat \<Rightarrow> jstring) \<Rightarrow> timestamp \<Rightarrow> session_op \<Rightarrow> nat \<times> session_table
    \<Rightarrow> session_answer \<times> nat \<times> session_table" where
  "sessionSpec supply t (OpenSession i di) (n, \<sigma>) = (Issued i (supply n), Suc n,
     \<sigma>(supply n \<mapsto> \<lparr>ss_account = i, ss_expires = t + thirtyDays, ss_lastUsed = t, ss_active = True\<rparr>))"
| "sessionSpec supply t (RenewSession tok) (n, \<sigma>) = (case \<sigma> tok of
       None \<Rightarrow> (NotRenewed, n, \<sigma>)
     | Some s \<Rightarrow>
         if \<not> ss_active s \<or> ss_expires s < t then (NotRenewed, n, \<sigma>)
         else if t - ss_lastUsed s < 300000 then (TooSoon, n, \<sigma>)
         else (Issued (ss_account s) (supply n), Suc n,
           (\<sigma>(tok := None))(supply n \<mapsto> s\<lparr>ss_expires := t + thirtyDays, ss_lastUsed := t\<rparr>)))"
| "sessionSpec supply t (CloseSession tok) (n, \<sigma>) = (case \<sigma> tok of
       None \<Rightarrow> (NotClosed, n, \<sigma>)
     | Some s \<Rightarrow> if ss_active s then (Closed, n, \<sigma>(tok \<mapsto> s\<lparr>ss_active := False\<rparr>)) else (NotClosed, n, \<sigma>))"

fun specAll :: "(nat \<Rightarrow> jstring) \<Rightarrow> (timestamp \<times> session_op) list \<Rightarrow> nat \<times> session_table
    \<Rightarrow> session_answer list \<times> nat \<times> session_table" where
  "specAll supply [] s = ([], s)"
| "specAll supply ((t, op) # h) s =
     (case sessionSpec supply t op s of (a, s') \<Rightarrow>
      case specAll supply h s' of (as, s'') \<Rightarrow> (a # as, s''))"

section \<open>The handlers\<close>

definition toSession :: "token_row \<Rightarrow> session" where
  "toSession r = \<lparr>ss_account = t_authId r, ss_expires = t_expiresAt r, ss_lastUsed = t_lastUsedAt r,
     ss_active = (t_revokedAt r = None)\<rparr>"

definition sessionsOf :: "db \<Rightarrow> session_table" where
  "sessionsOf d tok = map_option toSession (selectToken tok d)"

text \<open>What the handlers do for an operation; a session is opened at the end of every sign-in and signup.\<close>

fun perform :: "ctx \<Rightarrow> session_op \<Rightarrow> (world, exn, response) prog" where
  "perform c (OpenSession i di) = bindP (issueTokens c i di) (\<lambda>tokens. Ret (res_ok (tokenFields tokens) noOptions))"
| "perform c (RenewSession tok) = refreshTokens c \<lparr>rr_refreshToken = tok\<rparr>"
| "perform c (CloseSession tok) = logout c \<lparr>rr_refreshToken = tok\<rparr>"

fun answerResponse :: "ctx \<Rightarrow> timestamp \<Rightarrow> session_answer \<Rightarrow> response" where
  "answerResponse c t (Issued i new) = res_ok (tokenFields (accessTokenAt c i t, new)) noOptions"
| "answerResponse c t NotRenewed = res_invalidRefreshToken None"
| "answerResponse c t TooSoon = res_rateLimited None"
| "answerResponse c t Closed = res_ok [(lit ''message'', JStr (lit ''Logged out''))] noOptions"
| "answerResponse c t NotClosed = res_unauthorized (Some (lit ''Invalid refresh token''))"

text \<open>The requests of a history, one after the other, each at its time.\<close>

fun serveAll :: "ctx \<Rightarrow> (timestamp \<times> session_op) list \<Rightarrow> world \<Rightarrow> (exn, response) outcome list \<times> world" where
  "serveAll c [] w = ([], w)"
| "serveAll c ((t, op) # h) w =
     (case run (perform c op) (w\<lparr>w_now := t\<rparr>) of (out, w') \<Rightarrow>
      case serveAll c h w' of (outs, w'') \<Rightarrow> (out # outs, w''))"

definition tokenSupply :: "world \<Rightarrow> nat \<Rightarrow> jstring" where
  "tokenSupply w n = nextRefreshToken (w\<lparr>w_randPos := w_randPos w + 16 * n\<rparr>)"

text \<open>The next \<open>n\<close> random tokens and identifiers are new and differ.\<close>

definition freshSupply :: "nat \<Rightarrow> world \<Rightarrow> bool" where
  "freshSupply n w \<longleftrightarrow> inj_on (tokenSupply w) {..<n} \<and> inj_on (\<lambda>m. w_ids w (w_idPos w + m)) {..<n}
     \<and> (\<forall>m < n. tokenSupply w m \<notin> t_token ` set (tokens (w_db w))
          \<and> w_ids w (w_idPos w + m) \<notin> t_id ` set (tokens (w_db w)))"

definition accountsExist :: "db \<Rightarrow> (timestamp \<times> session_op) list \<Rightarrow> bool" where
  "accountsExist d h \<longleftrightarrow> (\<forall>(t, op) \<in> set h. case op of OpenSession i di \<Rightarrow> selectAuthById i d \<noteq> None | _ \<Rightarrow> True)"

definition ready :: "ctx \<Rightarrow> nat \<Rightarrow> world \<Rightarrow> bool" where
  "ready c n w \<longleftrightarrow> serving c w \<and> db_ok (w_db w) \<and> freshSupply n w"

section \<open>One request\<close>

lemma toSession_simps [simp]:
  "ss_account (toSession r) = t_authId r" "ss_expires (toSession r) = t_expiresAt r"
  "ss_lastUsed (toSession r) = t_lastUsedAt r" "ss_active (toSession r) \<longleftrightarrow> t_revokedAt r = None"
  by (simp_all add: toSession_def)

lemma tokenSupply_simps [simp]:
  "tokenSupply w 0 = nextRefreshToken w"
  "tokenSupply (w\<lparr>w_now := t\<rparr>) = tokenSupply w" "tokenSupply (w\<lparr>w_db := d\<rparr>) = tokenSupply w"
  "tokenSupply (w\<lparr>w_idPos := i\<rparr>) = tokenSupply w"
  "tokenSupply (w\<lparr>w_randPos := w_randPos w + 16\<rparr>) m = tokenSupply w (Suc m)"
  "nextRefreshToken (w\<lparr>w_now := t\<rparr>) = nextRefreshToken w"
  by (auto simp: tokenSupply_def nextRefreshToken_def fun_eq_iff ac_simps)

lemma freshSupply_now [simp]: "freshSupply n (w\<lparr>w_now := t\<rparr>) = freshSupply n w"
  by (simp add: freshSupply_def)

lemma ready_now [simp]: "ready c n (w\<lparr>w_now := t\<rparr>) = ready c n w"
  by (simp add: ready_def)

lemma inj_on_Suc_shift: "inj_on f {..<Suc n} \<Longrightarrow> inj_on (\<lambda>m. f (Suc m)) {..<n}"
  by (auto simp: inj_on_def)

lemma find_append: "find P (xs @ ys) = (case find P xs of None \<Rightarrow> find P ys | r \<Rightarrow> r)"
  by (induction xs) simp_all

lemma sessionsOf_opened:
  assumes "t_token r \<notin> t_token ` set (tokens d)"
  shows "sessionsOf (d\<lparr>tokens := tokens d @ [r]\<rparr>) = (sessionsOf d)(t_token r \<mapsto> toSession r)"
proof -
  from assms have "find (\<lambda>x. t_token x = t_token r) (tokens d) = None"
    using select_None_iff(1)[of "t_token r" d] by (simp add: selectToken_def)
  then show ?thesis
    by (auto simp: fun_eq_iff sessionsOf_def selectToken_def find_append split: option.splits)
qed

lemma sessionsOf_renewed:
  assumes "db_ok d" "rotateToken tok new ex us d = Inr d'" "selectToken tok d = Some r" "new \<noteq> tok"
  shows "sessionsOf d' = ((sessionsOf d)(tok := None))(new \<mapsto> (toSession r)\<lparr>ss_expires := ex, ss_lastUsed := us\<rparr>)"
  using selectToken_rotateToken[OF assms(1-3)] selectToken_other_rotate[OF assms(2)] assms(4)
  by (auto simp: fun_eq_iff sessionsOf_def toSession_def)

lemma sessionsOf_closed:
  assumes "selectToken tok d = Some r"
  shows "sessionsOf (revokeToken tok t d) = (sessionsOf d)(tok \<mapsto> (toSession r)\<lparr>ss_active := False\<rparr>)"
  using assms by (auto simp: fun_eq_iff sessionsOf_def toSession_def selectToken_revokeToken)

text \<open>What is left of the supply after one token and at most one identifier are used.\<close>

lemma freshSupply_used:
  assumes "freshSupply (Suc n) w" "w_ids w' = w_ids w" "w_rand w' = w_rand w" "w_randPos w' = w_randPos w + 16"
    and "w_idPos w' \<in> {w_idPos w, Suc (w_idPos w)}"
    and "t_token ` set (tokens (w_db w')) \<subseteq> insert (nextRefreshToken w) (t_token ` set (tokens (w_db w)))"
    and "t_id ` set (tokens (w_db w')) \<subseteq> (if w_idPos w' = w_idPos w then {} else {w_ids w (w_idPos w)}) \<union> t_id ` set (tokens (w_db w))"
  shows "freshSupply n w'"
proof -
  have t: "tokenSupply w' m = tokenSupply w (Suc m)" for m
    using assms(3,4) by (simp add: tokenSupply_def nextRefreshToken_def ac_simps)
  note f = assms(1)[unfolded freshSupply_def]
  have new: "tokenSupply w m \<notin> t_token ` set (tokens (w_db w))" "w_ids w (w_idPos w + m) \<notin> t_id ` set (tokens (w_db w))"
    if "m < Suc n" for m
    using f that by blast+
  have "tokenSupply w (Suc m) \<notin> t_token ` set (tokens (w_db w'))" if "m < n" for m
  proof -
    have "tokenSupply w (Suc m) \<noteq> nextRefreshToken w"
      using f that inj_onD[of "tokenSupply w" "{..<Suc n}" "Suc m" 0] by auto
    with new(1)[of "Suc m"] that assms(6) show ?thesis by blast
  qed
  moreover have "w_ids w (w_idPos w' + m) \<notin> t_id ` set (tokens (w_db w'))" if "m < n" for m
  proof (cases "w_idPos w' = w_idPos w")
    case True
    with new(2)[of m] that assms(7) show ?thesis by auto
  next
    case False
    have "w_ids w (w_idPos w + Suc m) \<noteq> w_ids w (w_idPos w)"
      using f that inj_onD[of "\<lambda>m. w_ids w (w_idPos w + m)" "{..<Suc n}" "Suc m" 0] by auto
    moreover have "w_idPos w' + m = w_idPos w + Suc m" using False assms(5) by simp
    ultimately show ?thesis
      using new(2)[of "Suc m"] that assms(7) False by (auto simp only: if_False Un_iff subset_iff insert_iff empty_iff simp_thms Suc_less_eq)
  qed
  moreover have "inj_on (\<lambda>m. w_ids w (w_idPos w' + m)) {..<n}"
  proof (cases "w_idPos w' = w_idPos w")
    case True
    with f show ?thesis by (auto simp: inj_on_def)
  next
    case False
    with f assms(5) inj_on_Suc_shift[of "\<lambda>m. w_ids w (w_idPos w + m)" n] show ?thesis by simp
  qed
  moreover have "inj_on (tokenSupply w') {..<n}"
    using f inj_on_Suc_shift[of "tokenSupply w" n] by (simp add: t[abs_def])
  ultimately show ?thesis unfolding freshSupply_def t assms(2) by blast
qed

lemma freshSupply_less: "freshSupply (Suc n) w \<Longrightarrow> freshSupply n w"
  by (auto simp: freshSupply_def inj_on_def)

text \<open>Alone, every operation answers as the table does and leaves the table's sessions.\<close>

lemma perform_refines:
  assumes "ready c (Suc n) w" "accountsExist (w_db w) [(t, op)]" "\<And>m. tokenSupply w m = supply (k + m)"
  shows "\<exists>a k' \<sigma> w'. sessionSpec supply t op (k, sessionsOf (w_db w)) = (a, k', \<sigma>)
    \<and> run (perform c op) (w\<lparr>w_now := t\<rparr>) = (Done (answerResponse c t a), w')
    \<and> sessionsOf (w_db w') = \<sigma> \<and> ready c n w' \<and> auth (w_db w') = auth (w_db w)
    \<and> (\<forall>m. tokenSupply w' m = supply (k' + m))"
proof -
  let ?w = "w\<lparr>w_now := t\<rparr>"
  have sv: "serving c ?w" and ok: "db_ok (w_db ?w)" and fr: "freshSupply (Suc n) ?w"
    using assms(1) by (simp_all add: ready_def)
  have stay: "ready c n ?w" using assms(1) freshSupply_less by (auto simp: ready_def)
  have next0: "nextRefreshToken w = supply k" "nextRefreshToken w \<notin> t_token ` set (tokens (w_db w))"
    using assms(3)[of 0] fr by (auto simp: freshSupply_def)
  show ?thesis
  proof (cases op)
    case (OpenSession i di)
    have "sessionFresh i ?w"
      using fr assms(2) OpenSession by (auto simp: sessionFresh_def freshSupply_def accountsExist_def select_None_iff)
    from run_issueTokens_fresh[OF sv this]
    have r: "run (issueTokens c i di) ?w = (Done (accessTokenAt c i t, supply k),
        ?w\<lparr>w_randPos := w_randPos w + 16, w_idPos := Suc (w_idPos w),
          w_db := (w_db w)\<lparr>tokens := tokens (w_db w) @ [newSession i di ?w]\<rparr>\<rparr>)" (is "_ = (_, ?w')")
      by (simp add: next0)
    have "insertToken (newSession i di ?w) (w_db w) = Inr (w_db ?w')"
      using \<open>sessionFresh i ?w\<close> by (simp add: insertToken_def sessionFresh_def newSession_def)
    from db_ok_insertToken[OF ok[simplified] this] have "db_ok (w_db ?w')" .
    moreover have "freshSupply n ?w'" by (rule freshSupply_used[OF fr]) (auto simp: newSession_def)
    ultimately have "ready c n ?w'" using sv by (simp add: ready_def)
    moreover have "tokenSupply ?w' m = supply (Suc k + m)" for m
      using assms(3)[of "Suc m"] by (simp add: tokenSupply_def nextRefreshToken_def ac_simps)
    moreover have "sessionsOf (w_db ?w') = (sessionsOf (w_db w))(supply k \<mapsto> toSession (newSession i di ?w))"
      using sessionsOf_opened[of "newSession i di ?w" "w_db w"] next0 by (simp add: newSession_def)
    ultimately show ?thesis
      using r OpenSession by (simp add: newSession_def toSession_def next0)
  next
    case (RenewSession tok)
    show ?thesis
    proof (cases "\<exists>r. selectToken tok (w_db ?w) = Some r \<and> t_revokedAt r = None \<and> w_now ?w \<le> t_expiresAt r
               \<and> 300000 \<le> w_now ?w - t_lastUsedAt r")
      case True
      then obtain r where r: "selectToken tok (w_db ?w) = Some r" "t_revokedAt r = None" "w_now ?w \<le> t_expiresAt r"
        "300000 \<le> w_now ?w - t_lastUsedAt r" by blast
      have none: "selectToken (nextRefreshToken ?w) (w_db ?w) = None" using next0 by (simp add: select_None_iff)
      then have ne: "nextRefreshToken w \<noteq> tok" using r(1) by auto
      from run_refreshTokens_rotates[OF sv ok r none] obtain d
        where d: "rotateToken tok (supply k) (t + thirtyDays) t (w_db w) = Inr d"
          "run (refreshTokens c \<lparr>rr_refreshToken = tok\<rparr>) ?w = (Done (answerResponse c t (Issued (t_authId r) (supply k))),
             ?w\<lparr>w_randPos := w_randPos w + 16, w_db := d\<rparr>)" (is "_ = (_, ?w')")
        by (auto simp: next0)
      have "tokens d = map (\<lambda>r. if t_token r = tok then r\<lparr>t_token := supply k, t_expiresAt := t + thirtyDays,
          t_lastUsedAt := t\<rparr> else r) (tokens (w_db w))" and au: "auth d = auth (w_db w)"
        using d(1) by (auto simp: rotateToken_def split: if_splits)
      then have "t_token ` set (tokens d) \<subseteq> insert (supply k) (t_token ` set (tokens (w_db w)))"
        "t_id ` set (tokens d) \<subseteq> t_id ` set (tokens (w_db w))" by auto
      then have "freshSupply n ?w'" by (intro freshSupply_used[OF fr]) (auto simp: next0)
      then have "ready c n ?w'"
        using sv db_ok_rotateToken[OF ok[simplified] d(1)] by (simp add: ready_def)
      moreover have "tokenSupply ?w' m = supply (Suc k + m)" for m
        using assms(3)[of "Suc m"] by (simp add: tokenSupply_def nextRefreshToken_def ac_simps)
      ultimately show ?thesis
        using sessionsOf_renewed[OF ok[simplified] d(1) r(1)[simplified]] ne next0 d(2) r au RenewSession
        by (simp add: sessionsOf_def)
    next
      case False
      from refreshTokens_refuses[OF sv ok False] False show ?thesis
        using RenewSession stay assms(3)
        by (cases "selectToken tok (w_db w)") (auto simp: sessionsOf_def)
    qed
  next
    case (CloseSession tok)
    let ?w' = "?w\<lparr>w_db := revokeToken tok t (w_db w)\<rparr>"
    have "ready c n ?w'"
      using stay db_ok_revokeToken[of "w_db w" tok t] by (auto simp: ready_def freshSupply_def revokeToken_def image_image)
    moreover have "auth (revokeToken tok t (w_db w)) = auth (w_db w)" by (simp add: revokeToken_def)
    ultimately show ?thesis
      using stay assms(3) run_logout[OF sv, of tok] CloseSession sessionsOf_closed[of tok "w_db w" _ t]
      by (cases "selectToken tok (w_db w)") (auto simp: sessionsOf_def)
  qed
qed

section \<open>Histories\<close>

lemma accountsExist_Cons:
  "accountsExist d (p # h) \<longleftrightarrow> accountsExist d [p] \<and> accountsExist d h"
  by (simp add: accountsExist_def del: not_None_eq)

lemma accountsExist_auth: "auth d' = auth d \<Longrightarrow> accountsExist d' h = accountsExist d h"
  by (simp add: accountsExist_def selectAuthById_def cong: session_op.case_cong)

lemma serveAll_refines:
  assumes "ready c (length h) w" "accountsExist (w_db w) h" "\<And>m. tokenSupply w m = supply (k + m)"
  shows "\<exists>answers n \<sigma> w'. specAll supply h (k, sessionsOf (w_db w)) = (answers, n, \<sigma>)
    \<and> serveAll c h w = (map2 (\<lambda>(t, op) a. Done (answerResponse c t a)) h answers, w')
    \<and> length answers = length h \<and> sessionsOf (w_db w') = \<sigma> \<and> db_ok (w_db w')"
  using assms
proof (induction h arbitrary: w k)
  case Nil
  then show ?case by (simp add: ready_def)
next
  case (Cons p h)
  obtain t op where p: "p = (t, op)" by fastforce
  have "ready c (Suc (length h)) w" "accountsExist (w_db w) [(t, op)]" "accountsExist (w_db w) h"
    using Cons.prems(1,2) accountsExist_Cons[of "w_db w" p h] by (simp_all add: p)
  from perform_refines[OF this(1,2) Cons.prems(3)] obtain a k' \<sigma> w'
    where one: "sessionSpec supply t op (k, sessionsOf (w_db w)) = (a, k', \<sigma>)"
      "run (perform c op) (w\<lparr>w_now := t\<rparr>) = (Done (answerResponse c t a), w')" "sessionsOf (w_db w') = \<sigma>"
      "ready c (length h) w'" "auth (w_db w') = auth (w_db w)" "\<And>m. tokenSupply w' m = supply (k' + m)" by blast
  have "accountsExist (w_db w') h"
    using \<open>accountsExist (w_db w) h\<close> accountsExist_auth[OF one(5)] by blast
  from Cons.IH[OF one(4) this one(6)] one(1-3) show ?case by (auto simp: p)
qed

text \<open>
  C4. The sessions refine their contract: the handlers, serving any history of sign-ins, refreshes
  and logouts one after the other, each at its time, answer every request exactly as the table of
  sessions does, and leave exactly its sessions in the database. In the contract a refresh replaces
  a token that is active, in time and not used in the last five minutes by the next new one, and
  refuses any other without a change; a logout ends an active session. (The random tokens of the
  history are new and differ, and the accounts that sign in exist.)
\<close>

theorem session_history_refines:
  assumes "ready c (length h) w" "accountsExist (w_db w) h"
  shows "\<exists>answers n \<sigma> w'. specAll (tokenSupply w) h (0, sessionsOf (w_db w)) = (answers, n, \<sigma>)
    \<and> serveAll c h w = (map2 (\<lambda>(t, op) a. Done (answerResponse c t a)) h answers, w')
    \<and> length answers = length h \<and> sessionsOf (w_db w') = \<sigma> \<and> db_ok (w_db w')"
  using serveAll_refines[OF assms, of "tokenSupply w" 0] by simp

section \<open>A refresh token is good once\<close>

text \<open>The tokens to come are not in the table and differ.\<close>

definition tokensToCome :: "(nat \<Rightarrow> jstring) \<Rightarrow> nat \<Rightarrow> nat \<Rightarrow> session_table \<Rightarrow> bool" where
  "tokensToCome supply n k \<sigma> \<longleftrightarrow> inj_on supply {n..<n + k} \<and> (\<forall>m \<in> {n..<n + k}. \<sigma> (supply m) = None)"

lemma sessionSpec_step:
  assumes "sessionSpec supply t op (n, \<sigma>) = (a, n', \<sigma>')" "tokensToCome supply n (Suc k) \<sigma>"
  shows "n' \<in> {n, Suc n}" "tokensToCome supply n' k \<sigma>'"
    and "\<sigma> tok = None \<Longrightarrow> supply n \<noteq> tok \<Longrightarrow> \<sigma>' tok = None"
    and "op = RenewSession tok \<Longrightarrow> a = Issued i new \<Longrightarrow> \<sigma> tok \<noteq> None \<and> \<sigma>' tok = None"
    and "op = RenewSession tok \<Longrightarrow> \<sigma> tok = None \<Longrightarrow> a = NotRenewed"
proof -
  have free: "\<sigma> (supply m) = None" "m \<noteq> n \<Longrightarrow> supply m \<noteq> supply n" if "n \<le> m" "m \<le> n + k" for m
    using assms(2) that by (auto simp: tokensToCome_def inj_on_def)
  have inj: "inj_on supply {n..<n + k}" "inj_on supply {Suc n..<Suc n + k}"
    using assms(2) by (auto simp: tokensToCome_def inj_on_def)
  have all: "(n' = n \<and> (\<sigma>' = \<sigma> \<or> (\<exists>u s. \<sigma> u \<noteq> None \<and> \<sigma>' = \<sigma>(u \<mapsto> s))))
      \<or> (n' = Suc n \<and> (\<exists>u s. \<sigma>' = \<sigma>(u := None, supply n \<mapsto> s) \<or> \<sigma>' = \<sigma>(supply n \<mapsto> s)))"
    using assms(1) by (cases op) (auto split: option.splits if_splits)
  then show "n' \<in> {n, Suc n}" by auto
  from all show "tokensToCome supply n' k \<sigma>'"
    using free inj by (auto simp: tokensToCome_def)
  show "\<sigma> tok = None \<Longrightarrow> supply n \<noteq> tok \<Longrightarrow> \<sigma>' tok = None" using all by auto
  show "op = RenewSession tok \<Longrightarrow> a = Issued i new \<Longrightarrow> \<sigma> tok \<noteq> None \<and> \<sigma>' tok = None"
    using assms(1) free(1)[of n] by (auto split: option.splits if_splits)
  show "op = RenewSession tok \<Longrightarrow> \<sigma> tok = None \<Longrightarrow> a = NotRenewed"
    using assms(1) by simp
qed

lemma spec_gone:
  assumes "\<sigma> tok = None" "\<forall>m \<in> {n..<n + length h}. supply m \<noteq> tok" "tokensToCome supply n (length h) \<sigma>"
    and "j < length h" "snd (h ! j) = RenewSession tok"
  shows "fst (specAll supply h (n, \<sigma>)) ! j = NotRenewed"
  using assms
proof (induction h arbitrary: n \<sigma> j)
  case (Cons p h)
  obtain t op where p: "p = (t, op)" by fastforce
  obtain a n' \<sigma>' where one: "sessionSpec supply t op (n, \<sigma>) = (a, n', \<sigma>')" by (metis prod.exhaust)
  note step = sessionSpec_step[OF one, of "length h"]
  have come: "tokensToCome supply n (Suc (length h)) \<sigma>" using Cons.prems(3) by simp
  have "\<sigma>' tok = None" using step(3)[OF come] Cons.prems(1,2) by simp
  moreover have "\<forall>m \<in> {n'..<n' + length h}. supply m \<noteq> tok" using step(1)[OF come] Cons.prems(2) by auto
  ultimately have "fst (specAll supply h (n', \<sigma>')) ! i = NotRenewed"
    if "i < length h" "snd (h ! i) = RenewSession tok" for i
    using Cons.IH step(2)[OF come] that by blast
  moreover have "a = NotRenewed" if "op = RenewSession tok" using step(5)[OF come] that Cons.prems(1) by blast
  moreover have "fst (specAll supply (p # h) (n, \<sigma>)) = a # fst (specAll supply h (n', \<sigma>'))"
    by (simp add: p one split: prod.splits)
  ultimately show ?case using Cons.prems(4,5) by (cases j) (simp_all add: p)
qed simp

lemma spec_single_use:
  assumes "tokensToCome supply n (length h) \<sigma>" "i < j" "j < length h"
    and "snd (h ! i) = RenewSession tok" "snd (h ! j) = RenewSession tok"
    and "fst (specAll supply h (n, \<sigma>)) ! i = Issued u new"
  shows "fst (specAll supply h (n, \<sigma>)) ! j = NotRenewed"
  using assms
proof (induction h arbitrary: n \<sigma> i j)
  case (Cons p h)
  obtain t op where p: "p = (t, op)" by fastforce
  obtain a n' \<sigma>' where one: "sessionSpec supply t op (n, \<sigma>) = (a, n', \<sigma>')" by (metis prod.exhaust)
  note step = sessionSpec_step[OF one, of "length h"]
  have come: "tokensToCome supply n (Suc (length h)) \<sigma>" using Cons.prems(1) by simp
  have rest: "fst (specAll supply (p # h) (n, \<sigma>)) = a # fst (specAll supply h (n', \<sigma>'))"
    by (simp add: p one split: prod.splits)
  obtain j' where j: "j = Suc j'" using Cons.prems(2) by (cases j) auto
  show ?case
  proof (cases i)
    case 0
    then have "op = RenewSession tok" "a = Issued u new" using Cons.prems(4,6) rest by (simp_all add: p)
    from step(4)[OF come this] have gone: "\<sigma> tok \<noteq> None" "\<sigma>' tok = None" by auto
    then have "\<forall>m \<in> {n'..<n' + length h}. supply m \<noteq> tok"
      using come step(1)[OF come] by (auto simp: tokensToCome_def)
    from spec_gone[where h = h, OF gone(2) this step(2)[OF come], of j'] Cons.prems(3,5) show ?thesis by (simp add: rest j)
  next
    case (Suc i')
    with Cons.IH[OF step(2)[OF come], of i' j'] Cons.prems show ?thesis by (simp add: rest j)
  qed
qed simp

lemma spec_renewal:
  assumes "k < length h" "snd (h ! k) = RenewSession tok"
  shows "fst (specAll supply h s) ! k \<in> range (\<lambda>(u, new). Issued u new) \<union> {NotRenewed, TooSoon}"
  using assms
proof (induction h arbitrary: s k)
  case (Cons p h)
  obtain t op where p: "p = (t, op)" by fastforce
  obtain a s' where one: "sessionSpec supply t op s = (a, s')" by (metis prod.exhaust)
  have "a \<in> range (\<lambda>(u, new). Issued u new) \<union> {NotRenewed, TooSoon}" if "op = RenewSession tok"
    using one that by (cases s) (auto split: option.splits if_splits)
  moreover have "fst (specAll supply (p # h) s) = a # fst (specAll supply h s')"
    by (simp add: p one split: prod.splits)
  ultimately show ?case using Cons by (cases k) (simp_all add: p)
qed simp

text \<open>
  C9. A refresh token is good once: in any history of requests served one after the other, when a
  refresh with a token has been answered with success, every later refresh with the same token, at
  whatever time and whatever happened in between, is refused as invalid.
\<close>

theorem refresh_token_single_use:
  assumes "ready c (length h) w" "accountsExist (w_db w) h" "i < j" "j < length h"
    and "snd (h ! i) = RenewSession tok" "snd (h ! j) = RenewSession tok"
    and "fst (serveAll c h w) ! i = Done r" "r_status r = 200"
  shows "fst (serveAll c h w) ! j = Done (res_invalidRefreshToken None)"
proof -
  let ?s = "(0, sessionsOf (w_db w))"
  obtain answers w' where a: "fst (specAll (tokenSupply w) h ?s) = answers" "length answers = length h"
    "serveAll c h w = (map2 (\<lambda>(t, op) a. Done (answerResponse c t a)) h answers, w')"
    using serveAll_refines[OF assms(1,2), of "tokenSupply w" 0] by auto
  have nth: "fst (serveAll c h w) ! k = Done (answerResponse c (fst (h ! k)) (answers ! k))" if "k < length h" for k
    using that a(2,3) by (simp add: case_prod_unfold)
  have "answers ! i \<in> range (\<lambda>(u, new). Issued u new) \<union> {NotRenewed, TooSoon}"
    using spec_renewal[of i h tok "tokenSupply w" ?s] assms(3-5) a(1) by simp
  moreover have "answerResponse c (fst (h ! i)) (answers ! i) = r" using nth[of i] assms(3,4,7) by simp
  ultimately obtain u new where "answers ! i = Issued u new"
    using assms(8) by (auto simp: res_defs)
  moreover have "tokensToCome (tokenSupply w) 0 (length h) (sessionsOf (w_db w))"
    using assms(1) by (auto simp: ready_def freshSupply_def tokensToCome_def sessionsOf_def select_None_iff
        lessThan_atLeast0)
  ultimately have "answers ! j = NotRenewed"
    using spec_single_use[of "tokenSupply w" 0 h, OF _ assms(3-6)] a(1) by blast
  with nth[OF assms(4)] show ?thesis by simp
qed

section \<open>A concrete history\<close>

definition sample_history :: "(timestamp \<times> session_op) list" where
  "sample_history = [(1000000, RenewSession (lit ''tok'')), (1900000, RenewSession (lit ''tok''))]"

lemma sample_ready: "ready sample_ctx (length sample_history) (sample_world sample_db)"
proof -
  have less: "m = 0 \<or> m = 1" if "m < 2" for m :: nat using that by auto
  have second: "tokenSupply w 1 = nextRefreshToken (w\<lparr>w_randPos := w_randPos w + 16\<rparr>)" for w
    by (simp add: tokenSupply_def)
  have "inj_on (tokenSupply (sample_world sample_db)) {..<2}"
    using sample_two_tokens[of sample_db] by (auto simp: inj_on_def second[simplified] dest!: less)
  moreover have "tokenSupply (sample_world sample_db) m \<noteq> lit ''tok''" for m
    by (simp add: tokenSupply_def)
  moreover have "replicate (Suc m) 105 \<noteq> lit ''t1''" for m by (cases m) (simp_all add: lit_def)
  moreover have "w_ids (sample_world sample_db) m = replicate (Suc m) 105" for m by (simp add: sample_world_def)
  moreover have "t_token ` set (tokens sample_db) = {lit ''tok''}" "t_id ` set (tokens sample_db) = {lit ''t1''}"
    by (simp_all add: sample_db_def sample_token_def)
  moreover have "inj_on (\<lambda>m. replicate (Suc m) (105 :: code_unit)) A" for A
    by (auto simp: inj_on_def dest: arg_cong[where f = length])
  ultimately show ?thesis
    by (simp add: ready_def freshSupply_def sample_history_def sample_db_ok numeral_2_eq_2 del: replicate_Suc)
qed

lemma sample_exist: "accountsExist (w_db (sample_world sample_db)) sample_history"
  by (simp add: accountsExist_def sample_history_def)

lemma sample_history_answers:
  "fst (specAll (tokenSupply (sample_world sample_db)) sample_history (0, sessionsOf (w_db (sample_world sample_db))))
     = [Issued (lit ''u1'') (nextRefreshToken (sample_world sample_db)), NotRenewed]"
proof -
  have "sessionsOf sample_db (lit ''tok'') = Some \<lparr>ss_account = lit ''u1'', ss_expires = 2000000, ss_lastUsed = 0, ss_active = True\<rparr>"
    by (simp add: sessionsOf_def toSession_def selectToken_def sample_db_def sample_token_def)
  then show ?thesis
    using sample_token_differs[of "sample_world sample_db"] by (simp add: sample_history_def thirtyDays_def eq_commute)
qed

theorem session_history_refines_witness:
  "\<exists>new w'. serveAll sample_ctx sample_history (sample_world sample_db)
      = ([Done (res_ok (tokenFields (lit ''u1'', new)) noOptions), Done (res_invalidRefreshToken None)], w')
    \<and> db_ok (w_db w')"
  using session_history_refines[OF sample_ready sample_exist] sample_history_answers
  by (auto simp: sample_history_def simp del: serveAll.simps specAll.simps)

theorem refresh_token_single_use_witness:
  "fst (serveAll sample_ctx sample_history (sample_world sample_db)) ! 1 = Done (res_invalidRefreshToken None)"
proof -
  let ?o = "fst (serveAll sample_ctx sample_history (sample_world sample_db))"
  have "\<exists>new. ?o ! 0 = Done (res_ok (tokenFields (lit ''u1'', new)) noOptions)"
    using serveAll_refines[OF sample_ready sample_exist, of "tokenSupply (sample_world sample_db)" 0] sample_history_answers
    by (auto simp: sample_history_def simp del: serveAll.simps specAll.simps)
  moreover have "r_status (res_ok fs noOptions) = 200" for fs by (simp add: res_ok_def noOptions_def)
  ultimately show ?thesis
    using refresh_token_single_use[OF sample_ready sample_exist, of 0 1 "lit ''tok''"]
    by (auto simp: sample_history_def simp del: serveAll.simps)
qed

end
