(* ===== verification/ClientImages.thy ===== *)
theory ClientImages
  imports ClientSession "HOL-Library.Multiset"
begin

text \<open>
  Images in the mobile application: the URLs of \<open>packages/utils/expo/src/utils/image-url.ts\<close>, the
  upload hook \<open>packages/utils/expo/src/hooks/use-image-upload.ts\<close> and the grid
  \<open>apps/mobile/src/components/ImageGrid.tsx\<close>.
\<close>

section \<open>Image URLs\<close>

datatype image_size = Thumbnail | Medium | Large | Original

fun sizeSuffix :: "image_size \<Rightarrow> jstring" where
  "sizeSuffix Thumbnail = lit ''_t''"
| "sizeSuffix Medium = lit ''_m''"
| "sizeSuffix Large = lit ''_l''"
| "sizeSuffix Original = []"

text \<open>\<open>mediaUrl\<close> is the environment variable; a missing base URL throws.\<close>

definition getImageUrl :: "jstring option \<Rightarrow> jstring \<Rightarrow> image_size option \<Rightarrow> jstring option \<Rightarrow> jstring + jstring" where
  "getImageUrl mediaUrl imageId sizeOption baseUrl =
     (let sz = (case sizeOption of None \<Rightarrow> Large | Some s \<Rightarrow> s);
          mediaBaseUrl = (if truthyOpt baseUrl then baseUrl else mediaUrl)
      in if \<not> truthyOpt mediaBaseUrl then Inl (lit ''EXPO_PUBLIC_MEDIA_URL is not configured'')
         else Inr (the mediaBaseUrl @ lit ''/'' @ imageId @ sizeSuffix sz @ lit ''.jpg''))"

definition getImageUrls :: "jstring option \<Rightarrow> jstring \<Rightarrow> image_size list \<Rightarrow> jstring option
    \<Rightarrow> jstring + (image_size \<times> jstring) list" where
  "getImageUrls mediaUrl imageId sizes baseUrl =
     foldl (\<lambda>acc sz. case acc of
         Inl e \<Rightarrow> Inl e
       | Inr urls \<Rightarrow> (case getImageUrl mediaUrl imageId (Some sz) baseUrl of
            Inl e \<Rightarrow> Inl e
          | Inr u \<Rightarrow> Inr (AList.update sz u urls))) (Inr []) sizes"

text \<open>
  \<open>/\/([^_]+)(?:_[tml])?\.jpg$/\<close> after a slash: the longest run without an underscore, followed by
  a size and the extension, or ending in the extension.
\<close>

definition imageMatchAfter :: "jstring \<Rightarrow> jstring option" where
  "imageMatchAfter rest =
     (let name = takeWhile (\<lambda>u. u \<noteq> 95) rest; after = drop (length name) rest in
      if name \<noteq> [] \<and> after \<in> {lit ''_t.jpg'', lit ''_m.jpg'', lit ''_l.jpg''} then Some name
      else if after = [] \<and> 4 < length name \<and> drop (length name - 4) name = lit ''.jpg''
      then Some (take (length name - 4) name) else None)"

fun imageMatch :: "jstring \<Rightarrow> jstring option" where
  "imageMatch [] = None"
| "imageMatch (c # s) =
     (if c = 47 then (case imageMatchAfter s of Some g \<Rightarrow> Some g | None \<Rightarrow> imageMatch s) else imageMatch s)"

text \<open>\<open>pathname\<close> is the path of the URL parser; \<open>None\<close> is a text it refuses.\<close>

definition extractImageId :: "(jstring \<Rightarrow> jstring option) \<Rightarrow> jstring \<Rightarrow> jstring option" where
  "extractImageId pathname url = (case pathname url of None \<Rightarrow> None | Some p \<Rightarrow> imageMatch p)"

definition isPreviewImage :: "jstring \<Rightarrow> bool" where
  "isPreviewImage url \<longleftrightarrow> startsWith url (lit ''file://'')"

definition isUploadedImage :: "jstring \<Rightarrow> bool" where
  "isUploadedImage url \<longleftrightarrow> \<not> isPreviewImage url"

definition getDisplayImageUrl :: "jstring option \<Rightarrow> jstring \<Rightarrow> image_size \<Rightarrow> jstring + jstring" where
  "getDisplayImageUrl mediaUrl imageId sz =
     (if isPreviewImage imageId then Inr imageId else getImageUrl mediaUrl imageId (Some sz) None)"

lemma imageMatch_written:
  assumes "i \<noteq> []" "95 \<notin> set i"
  shows "imageMatch (47 # i @ sizeSuffix sz @ lit ''.jpg'') = Some i"
proof -
  have t: "takeWhile (\<lambda>u. u \<noteq> 95) (i @ r) = i @ takeWhile (\<lambda>u. u \<noteq> 95) r" for r :: jstring
    using assms(2) by (subst takeWhile_append2) auto
  have "imageMatchAfter (i @ sizeSuffix sz @ lit ''.jpg'') = Some i"
    using assms(1) by (cases sz) (simp_all add: imageMatchAfter_def t lit_def Let_def)
  then show ?thesis by simp
qed

text \<open>
  The identifier of an image can be read back from its URL: for an identifier without an
  underscore, a base URL of a host, and every size, \<open>extractImageId\<close> gives the identifier from
  the URL that \<open>getImageUrl\<close> writes.
\<close>

lemma image_url_roundtrip:
  assumes "i \<noteq> []" "95 \<notin> set i" "base \<noteq> []"
    and "\<And>n. n = lit ''/'' @ i @ sizeSuffix sz @ lit ''.jpg'' \<Longrightarrow> pathname (base @ n) = Some n"
  shows "\<exists>url. getImageUrl media i (Some sz) (Some base) = Inr url \<and> extractImageId pathname url = Some i"
proof -
  have "imageMatch (lit ''/'' @ i @ sizeSuffix sz @ lit ''.jpg'') = Some i"
    using imageMatch_written[OF assms(1,2)] by (simp add: lit_def)
  with assms(3,4) show ?thesis by (simp add: getImageUrl_def extractImageId_def)
qed

section \<open>\<open>useImageUpload\<close>\<close>

text \<open>
  The parameters of the hook: the size of a file, the resizing library, the random identifiers,
  the environment, the upload request (its URL, authorisation and file; it answers with a status,
  takes some time and changes the state of the server), the image picker, whether the module of
  the store loads.
\<close>

record 's image_ext =
  ix_blobSize :: "jstring \<Rightarrow> thrown + nat"
  ix_resize :: "jstring \<Rightarrow> nat \<times> nat \<Rightarrow> thrown + (jstring \<times> nat \<times> nat)"
  ix_random :: "nat \<Rightarrow> jstring"
  ix_apiUrl :: jstring
  ix_encodeURIComponent :: "jstring \<Rightarrow> jstring"
  ix_upload :: "'s \<Rightarrow> jstring \<Rightarrow> jstring \<Rightarrow> jstring \<Rightarrow> (thrown + nat) \<times> nat \<times> 's"
  ix_pick :: "thrown + jstring option"
  ix_authStore :: bool
  ix_mediaUrl :: "jstring option"

record upload_options =
  uo_maxImages :: nat
  uo_enableResizing :: bool
  uo_requiredSizes :: "image_size list"
  uo_maxFileSize :: nat
  uo_displaySize :: image_size

definition defaultUploadOptions :: upload_options where
  "defaultUploadOptions = \<lparr>uo_maxImages = 5, uo_enableResizing = True,
     uo_requiredSizes = [Thumbnail, Medium, Large], uo_maxFileSize = 5, uo_displaySize = Large\<rparr>"

fun imageDimensions :: "image_size \<Rightarrow> nat \<times> nat" where
  "imageDimensions Thumbnail = (150, 150)"
| "imageDimensions Medium = (400, 400)"
| "imageDimensions Large = (1200, 1200)"
| "imageDimensions Original = (0, 0)"

record processed_image =
  pr_uri :: jstring
  pr_size :: image_size
  pr_width :: nat
  pr_height :: nat
  pr_fileSize :: nat

definition awaited :: "thrown + 'a \<Rightarrow> ('s client, thrown, 'a) prog" where
  "awaited r = awaitW (\<lambda>w. (r, w))"

text \<open>The upload request: a plain \<open>fetch\<close>, outside the interceptors of the API module.\<close>

definition sendFile :: "'s image_ext \<Rightarrow> jstring \<Rightarrow> jstring \<Rightarrow> jstring \<Rightarrow> ('s client, thrown, nat) prog" where
  "sendFile ix url authorization uri = awaitW (\<lambda>w. case ix_upload ix (cl_server w) url authorization uri of
     (result, elapsed, s') \<Rightarrow> (result, w\<lparr>cl_server := s', cl_now := cl_now w + int elapsed\<rparr>))"

definition setUpload :: "(upload_state \<Rightarrow> upload_state) \<Rightarrow> ('s client, thrown, unit) prog" where
  "setUpload f = setW (\<lambda>w. w\<lparr>cl_upload := f (cl_upload w)\<rparr>)"

definition errorMessage :: "jstring \<Rightarrow> thrown" where
  "errorMessage m = ThrownObj None (Some m) None"

definition onError :: "jstring \<Rightarrow> ('s client, thrown, unit) prog" where
  "onError m = setUpload (\<lambda>u. u\<lparr>us_errors := us_errors u @ [m]\<rparr>)"

definition onImagesChange :: "jstring list \<Rightarrow> ('s client, thrown, unit) prog" where
  "onImagesChange is = setUpload (\<lambda>u. u\<lparr>us_images := is\<rparr>)"

definition getSavedImageIds :: "jstring list \<Rightarrow> jstring list" where
  "getSavedImageIds images = filter isUploadedImage images"

definition hasPendingImages :: "jstring list \<Rightarrow> bool" where
  "hasPendingImages images = list_ex isPreviewImage images"

text \<open>The order of the checks is the source's.\<close>

definition hasUnsavedChanges :: "jstring list \<Rightarrow> jstring list \<Rightarrow> bool" where
  "hasUnsavedChanges initial images =
     (if length initial = 0 then False
      else if length initial \<noteq> length images then True
      else if card (set initial) \<noteq> card (set images) then True
      else if list_ex (\<lambda>i. i \<notin> set images) initial then True
      else list_ex (\<lambda>k. initial ! k \<noteq> images ! k) [0..<length initial])"

definition trackInitialImages :: "upload_state \<Rightarrow> upload_state" where
  "trackInitialImages u = (if us_initialImages u = [] \<and> us_images u \<noteq> []
     then u\<lparr>us_initialImages := us_images u\<rparr> else u)"

primrec processSizes :: "'s image_ext \<Rightarrow> jstring \<Rightarrow> image_size list \<Rightarrow> ('s client, thrown, processed_image list) prog" where
  "processSizes ix uri [] = Ret []"
| "processSizes ix uri (sizeKey # sizes) =
     (if sizeKey = Original
      then bindP (processSizes ix uri sizes) (\<lambda>rest.
        Ret (\<lparr>pr_uri = uri, pr_size = sizeKey, pr_width = 0, pr_height = 0, pr_fileSize = 0\<rparr> # rest))
      else
        bindP (awaited (ix_resize ix uri (imageDimensions sizeKey))) (\<lambda>(resultUri, width, height).
        bindP (awaited (ix_blobSize ix resultUri)) (\<lambda>fileSize.
        bindP (processSizes ix uri sizes) (\<lambda>rest.
        Ret (\<lparr>pr_uri = resultUri, pr_size = sizeKey, pr_width = width, pr_height = height,
              pr_fileSize = fileSize\<rparr> # rest)))))"

definition processImage :: "'s image_ext \<Rightarrow> upload_options \<Rightarrow> jstring \<Rightarrow> ('s client, thrown, processed_image list) prog" where
  "processImage ix opts imageUri =
     (if \<not> uo_enableResizing opts
      then Ret [\<lparr>pr_uri = imageUri, pr_size = Original, pr_width = 0, pr_height = 0, pr_fileSize = 0\<rparr>]
      else
        bindP (awaited (ix_blobSize ix imageUri)) (\<lambda>fileSize.
        if uo_maxFileSize opts * (1024 * 1024) < fileSize
        then Throw (errorMessage (lit ''Image too large. Maximum size is '' @ natToString 10 (uo_maxFileSize opts) @ lit ''MB''))
        else processSizes ix imageUri (uo_requiredSizes opts)))"

definition uploadFileName :: "image_size \<Rightarrow> jstring \<Rightarrow> jstring" where
  "uploadFileName sz baseImageId = baseImageId @ sizeSuffix sz @ lit ''.jpg''"

text \<open>A missing field is written as \<open>undefined\<close>; a missing object throws.\<close>

definition fieldText :: "string \<Rightarrow> json \<Rightarrow> jstring" where
  "fieldText k j = (case stringField k j of None \<Rightarrow> lit ''undefined'' | Some t \<Rightarrow> t)"

definition uploadUrl :: "'s image_ext \<Rightarrow> json \<Rightarrow> jstring" where
  "uploadUrl ix flds = ix_apiUrl ix @ lit ''/upload/direct?key='' @ ix_encodeURIComponent ix (fieldText ''key'' flds)
     @ lit ''&contentType='' @ ix_encodeURIComponent ix (fieldText ''contentType'' flds)"

definition uploadProcessedImage :: "'s cext \<Rightarrow> 's image_ext \<Rightarrow> processed_image \<Rightarrow> jstring \<Rightarrow> ('s client, thrown, jstring) prog" where
  "uploadProcessedImage x ix p baseImageId =
     bindP (apiCall x (postRequest ''~/upload/presigned-url''
       (JObj [(lit ''contentType'', JStr (lit ''image/jpeg'')),
              (lit ''fileName'', JStr (uploadFileName (pr_size p) baseImageId))]))) (\<lambda>v.
     withData x v (\<lambda>data.
     bindP (awaited (ix_blobSize ix (pr_uri p))) (\<lambda>_.
     case jsonField (lit ''fields'') data of
       None \<Rightarrow> Throw (errorMessage (cx_typeErrorText x))
     | Some JNull \<Rightarrow> Throw (errorMessage (cx_typeErrorText x))
     | Some flds \<Rightarrow>
       if \<not> ix_authStore ix then Throw (errorMessage (lit ''Auth store not available''))
       else
         bindP getState (\<lambda>s.
         bindP (sendFile ix (uploadUrl ix flds) (lit ''Bearer '' @ orElse (s_accessToken s) []) (pr_uri p)) (\<lambda>status.
         if 200 \<le> status \<and> status \<le> 299 then Ret baseImageId
         else Throw (errorMessage (lit ''Upload failed: '' @ natToString 10 status)))))))"

text \<open>
  \<open>Promise.all\<close>: all are run, and a failure of one is a failure of all. The interleaving of the
  uploads of one image is not modelled: they run in the order of the list.
\<close>

primrec allSettled :: "('s client, thrown, 'a) prog list \<Rightarrow> ('s client, thrown, (thrown + 'a) list) prog" where
  "allSettled [] = Ret []"
| "allSettled (p # ps) = bindP (tryP p) (\<lambda>r. bindP (allSettled ps) (\<lambda>rs. Ret (r # rs)))"

definition promiseAll :: "('s client, thrown, 'a) prog list \<Rightarrow> ('s client, thrown, unit) prog" where
  "promiseAll ps = bindP (allSettled ps) (\<lambda>rs. case find isl rs of
       Some r \<Rightarrow> Throw (projl r)
     | None \<Rightarrow> Ret ())"

definition drawImageId :: "'s image_ext \<Rightarrow> ('s client, thrown, jstring) prog" where
  "drawImageId ix = syncW (\<lambda>w. (ix_random ix (us_drawn (cl_upload w)),
     w\<lparr>cl_upload := (cl_upload w)\<lparr>us_drawn := Suc (us_drawn (cl_upload w))\<rparr>\<rparr>))"

definition uploadImage :: "'s cext \<Rightarrow> 's image_ext \<Rightarrow> upload_options \<Rightarrow> jstring \<Rightarrow> ('s client, thrown, jstring) prog" where
  "uploadImage x ix opts imageUrl =
     (if \<not> isPreviewImage imageUrl then Ret imageUrl
      else
        bindP (setUpload (\<lambda>u. u\<lparr>us_uploadingImages := insert imageUrl (us_uploadingImages u)\<rparr>)) (\<lambda>_.
        catchP
          (bindP (drawImageId ix) (\<lambda>baseImageId.
           bindP (processImage ix opts imageUrl) (\<lambda>processedImages.
           bindP (promiseAll (map (\<lambda>p. uploadProcessedImage x ix p baseImageId) processedImages)) (\<lambda>_.
           bindP (setUpload (\<lambda>u. u\<lparr>us_uploadedImages := insert imageUrl (us_uploadedImages u),
             us_uploadingImages := us_uploadingImages u - {imageUrl}\<rparr>)) (\<lambda>_.
           Ret baseImageId)))))
          (\<lambda>error.
           bindP (setUpload (\<lambda>u. u\<lparr>us_uploadingImages := us_uploadingImages u - {imageUrl}\<rparr>)) (\<lambda>_.
           bindP (onError (lit ''Failed to upload image'')) (\<lambda>_. Throw error)))))"

primrec uploadEach :: "'s cext \<Rightarrow> 's image_ext \<Rightarrow> upload_options \<Rightarrow> jstring list \<Rightarrow> ('s client, thrown, (jstring \<times> jstring) list) prog" where
  "uploadEach x ix opts [] = Ret []"
| "uploadEach x ix opts (url # urls) =
     bindP (uploadImage x ix opts url) (\<lambda>newImageId.
     bindP (uploadEach x ix opts urls) (\<lambda>rest. Ret ((url, newImageId) # rest)))"

definition uploadPending :: "'s cext \<Rightarrow> 's image_ext \<Rightarrow> upload_options \<Rightarrow> jstring list \<Rightarrow> ('s client, thrown, jstring list) prog" where
  "uploadPending x ix opts images =
     (let pendingImages = filter isPreviewImage images in
      if length pendingImages = 0 then Ret []
      else
        bindP (setUpload (\<lambda>u. u\<lparr>us_isUploading := True\<rparr>)) (\<lambda>_.
        finallyP
          (catchP
            (bindP (uploadEach x ix opts pendingImages) (\<lambda>uploadResults.
             bindP (onImagesChange (map (\<lambda>url. case find (\<lambda>r. fst r = url) uploadResults of
                 Some r \<Rightarrow> snd r | None \<Rightarrow> url) images)) (\<lambda>_.
             Ret (map snd uploadResults))))
            (\<lambda>error. bindP (onError (lit ''Failed to upload images'')) (\<lambda>_. Throw error)))
          (setUpload (\<lambda>u. u\<lparr>us_isUploading := False\<rparr>))))"

text \<open>The map of old to new names: a later entry overwrites an earlier one.\<close>

definition urlMapping :: "jstring list \<Rightarrow> jstring list \<Rightarrow> jstring \<Rightarrow> jstring option" where
  "urlMapping pendingImages newIds = map_of (rev (zip pendingImages newIds))"

definition uploadAndGetImageIds :: "'s cext \<Rightarrow> 's image_ext \<Rightarrow> upload_options \<Rightarrow> jstring list \<Rightarrow> ('s client, thrown, jstring list) prog" where
  "uploadAndGetImageIds x ix opts images =
     (if hasPendingImages images then
        bindP (uploadPending x ix opts images) (\<lambda>newUploadedImageIds.
        let mapping = urlMapping (filter isPreviewImage images) newUploadedImageIds;
            updatedImages = map (\<lambda>url. if isPreviewImage url then orElse (mapping url) url else url) images
        in bindP (onImagesChange updatedImages) (\<lambda>_.
           Ret (filter isUploadedImage updatedImages)))
      else Ret (getSavedImageIds images))"

definition pickImage :: "'s image_ext \<Rightarrow> upload_options \<Rightarrow> ('s client, thrown, unit) prog" where
  "pickImage ix opts =
     bindP (getW cl_upload) (\<lambda>u.
     if us_isPicking u then Ret ()
     else if uo_maxImages opts \<le> length (us_images u)
     then onError (lit ''Maximum '' @ natToString 10 (uo_maxImages opts) @ lit '' images allowed'')
     else
       bindP (setUpload (\<lambda>u. u\<lparr>us_isPicking := True\<rparr>)) (\<lambda>_.
       finallyP
         (catchP
           (bindP (awaited (ix_pick ix)) (\<lambda>asset.
            case asset of None \<Rightarrow> Ret () | Some uri \<Rightarrow> onImagesChange (us_images u @ [uri])))
           (\<lambda>e. onError (lit ''Failed to pick image'')))
         (setUpload (\<lambda>u. u\<lparr>us_isPicking := False\<rparr>))))"

definition removeImage :: "nat \<Rightarrow> jstring list \<Rightarrow> jstring list" where
  "removeImage index images = map snd (filter (\<lambda>(i, url). i \<noteq> index) (zip [0..<length images] images))"

definition getDisplayUrls :: "'s image_ext \<Rightarrow> upload_options \<Rightarrow> jstring list \<Rightarrow> (jstring + jstring) list" where
  "getDisplayUrls ix opts images = map (\<lambda>i. getDisplayImageUrl (ix_mediaUrl ix) i (uo_displaySize opts)) images"

section \<open>\<open>ImageGrid\<close>\<close>

definition handlePlaceImage :: "jstring list \<Rightarrow> nat \<Rightarrow> nat \<Rightarrow> jstring list" where
  "handlePlaceImage images fromIndex toIndex =
     (if fromIndex \<noteq> toIndex \<and> toIndex < length images
      then let rest = take fromIndex images @ drop (Suc fromIndex) images
           in take toIndex rest @ [images ! fromIndex] @ drop toIndex rest
      else images)"

text \<open>Pressing an image: the images and the selected position.\<close>

definition pressImage :: "nat \<Rightarrow> jstring list \<times> nat option \<Rightarrow> jstring list \<times> nat option" where
  "pressImage index s = (case s of (images, selected) \<Rightarrow>
     (case selected of
        Some i \<Rightarrow> if i \<noteq> index then (handlePlaceImage images i index, None) else (images, None)
      | None \<Rightarrow> (images, Some index)))"

text \<open>
  The button that removes an image is shown on the selected image, unless the form is being saved
  or the image is being uploaded or has been uploaded.
\<close>

definition pressRemove :: "bool \<Rightarrow> upload_state \<Rightarrow> nat \<Rightarrow> jstring list \<times> nat option \<Rightarrow> jstring list \<times> nat option" where
  "pressRemove isSaving u index s = (case s of (images, selected) \<Rightarrow>
     if selected = Some index \<and> \<not> isSaving \<and> images ! index \<notin> us_uploadingImages u
       \<and> images ! index \<notin> us_uploadedImages u
     then (removeImage index images, None) else s)"

datatype grid_event = PressImage nat | PressRemove bool upload_state nat

text \<open>Only the images that are there can be pressed.\<close>

primrec gridEvent :: "jstring list \<times> nat option \<Rightarrow> grid_event \<Rightarrow> jstring list \<times> nat option" where
  "gridEvent s (PressImage i) = (if i < length (fst s) then pressImage i s else s)"
| "gridEvent s (PressRemove isSaving u i) = (if i < length (fst s) then pressRemove isSaving u i s else s)"

section \<open>Uploads keep the images in order\<close>

lemma run_awaited [simp]: "run (awaited r) w = (case r of Inl e \<Rightarrow> Thrown e | Inr a \<Rightarrow> Done a, w)"
  by (auto simp: awaited_def split: sum.splits)

lemma run_sendFile [simp]: "run (sendFile ix url a uri) w =
    (case ix_upload ix (cl_server w) url a uri of (r, d, s') \<Rightarrow>
       (case r of Inl e \<Rightarrow> Thrown e | Inr n \<Rightarrow> Done n, w\<lparr>cl_server := s', cl_now := cl_now w + int d\<rparr>))"
  by (auto simp: sendFile_def split: prod.splits sum.splits)

lemma run_setUpload [simp]: "run (setUpload f) w = (Done (), w\<lparr>cl_upload := f (cl_upload w)\<rparr>)"
  by (simp add: setUpload_def)

text \<open>The number of identifiers drawn so far changes only where one is drawn.\<close>

definition drawnAt :: "nat \<Rightarrow> 's client \<Rightarrow> bool" where
  "drawnAt n w \<longleftrightarrow> us_drawn (cl_upload w) = n"

lemma drawn_apiCall: "keeps (drawnAt n) (apiCall x q)"
  unfolding keeps_def
proof (intro allI impI)
  fix w :: "'a client" assume "drawnAt n w"
  moreover have "sideOf (snd (run (apiCall x q) w)) = sideOf w"
    by (rule aside_run[OF aside_apiCall prod.collapse[symmetric]])
  ultimately show "drawnAt n (snd (run (apiCall x q) w))"
    by (simp add: drawnAt_def sideOf_def)
qed

lemma drawn_effects:
  "keeps (drawnAt n) (awaited r)" "keeps (drawnAt n) (sendFile ix url a uri)" "keeps (drawnAt n) getState"
  "keeps (drawnAt n) (Throw e)" "keeps (drawnAt n) (Ret b)"
  "(\<And>u. us_drawn (f u) = us_drawn u) \<Longrightarrow> keeps (drawnAt n) (setUpload f)"
  by (auto simp: keeps_def drawnAt_def getState_def split: prod.splits)

lemma drawn_withData: "(\<And>d. keeps (drawnAt n) (k d)) \<Longrightarrow> keeps (drawnAt n) (withData x v k)"
  by (auto simp: withData_def keeps_def drawnAt_def split: option.splits json.splits)

lemmas drawn_intros = keeps_bind keeps_try keeps_catch drawn_withData drawn_effects drawn_apiCall

lemma drawn_upload: "keeps (drawnAt n) (uploadProcessedImage x ix p i)"
  unfolding uploadProcessedImage_def
  by (auto intro!: drawn_intros split: option.splits json.splits)

lemma drawn_all: "(\<And>p. p \<in> set ps \<Longrightarrow> keeps (drawnAt n) p) \<Longrightarrow> keeps (drawnAt n) (promiseAll ps)"
proof -
  assume "\<And>p. p \<in> set ps \<Longrightarrow> keeps (drawnAt n) p"
  then have "keeps (drawnAt n) (allSettled ps)"
    by (induction ps) (auto intro!: drawn_intros)
  then show ?thesis unfolding promiseAll_def by (auto intro!: drawn_intros split: option.splits)
qed

lemma drawn_process: "keeps (drawnAt n) (processImage ix opts uri)"
proof -
  have "keeps (drawnAt n) (processSizes ix uri sizes)" for sizes
    by (induction sizes) (auto intro!: drawn_intros)
  then show ?thesis unfolding processImage_def by (auto intro!: drawn_intros)
qed

lemma keepsD: "keeps P p \<Longrightarrow> run p w = (out, v) \<Longrightarrow> P w \<Longrightarrow> P v"
  by (auto simp: keeps_def dest: spec[of _ w])

text \<open>An upload draws the next identifier and no other.\<close>

lemma uploadImage_result:
  assumes "run (uploadImage x ix opts url) w = (Done i, v)" "isPreviewImage url" "drawnAt n w"
  shows "i = ix_random ix n \<and> drawnAt (Suc n) v"
proof -
  let ?u = "w\<lparr>cl_upload := (cl_upload w)\<lparr>us_uploadingImages := insert url (us_uploadingImages (cl_upload w)),
    us_drawn := Suc n\<rparr>\<rparr>"
  let ?ps = "\<lambda>ims. map (\<lambda>p. uploadProcessedImage x ix p (ix_random ix n)) ims"
  from assms obtain ims v1 v2 where i: "i = ix_random ix n"
    and r: "run (processImage ix opts url) ?u = (Done ims, v1)" "run (promiseAll (?ps ims)) v1 = (Done (), v2)"
    and v: "us_drawn (cl_upload v) = us_drawn (cl_upload v2)"
    by (auto simp: uploadImage_def drawImageId_def onError_def drawnAt_def split: outcome.splits prod.splits)
  have "drawnAt (Suc n) v1" by (rule keepsD[OF drawn_process r(1)]) (simp add: drawnAt_def)
  then have "drawnAt (Suc n) v2"
    by (rule keepsD[OF drawn_all r(2), rotated]) (auto intro: drawn_upload)
  with i v show ?thesis by (simp add: drawnAt_def)
qed

lemma uploadEach_result:
  assumes "run (uploadEach x ix opts urls) w = (Done rs, v)" "\<forall>u \<in> set urls. isPreviewImage u" "drawnAt n w"
  shows "map fst rs = urls \<and> map snd rs = map (ix_random ix) [n..<n + length urls]"
  using assms
proof (induction urls arbitrary: w rs n)
  case (Cons url urls)
  from Cons.prems(1) obtain i w1 rest where i: "run (uploadImage x ix opts url) w = (Done i, w1)"
    and r: "run (uploadEach x ix opts urls) w1 = (Done rest, v)" and rs: "rs = (url, i) # rest"
    by (auto split: outcome.splits prod.splits)
  from uploadImage_result[OF i _ Cons.prems(3)] Cons.prems(2) have "i = ix_random ix n" "drawnAt (Suc n) w1" by simp_all
  moreover have "[n..<n + length (url # urls)] = n # [Suc n..<Suc n + length urls]"
    using upt_conv_Cons[of n "n + length (url # urls)"] by (simp del: upt_Suc)
  ultimately show ?case using Cons.IH[OF r, of "Suc n"] Cons.prems(2) rs by simp
qed simp

lemma uploadPending_result:
  assumes "run (uploadPending x ix opts images) w = (Done newIds, v)"
  shows "newIds = map (ix_random ix) [us_drawn (cl_upload w)..<us_drawn (cl_upload w) + length (filter isPreviewImage images)]"
proof (cases "filter isPreviewImage images = []")
  case True
  with assms show ?thesis by (simp add: uploadPending_def)
next
  case False
  let ?w = "w\<lparr>cl_upload := (cl_upload w)\<lparr>us_isUploading := True\<rparr>\<rparr>"
  from False assms obtain rs v1 where r: "run (uploadEach x ix opts (filter isPreviewImage images)) ?w = (Done rs, v1)"
    and n: "newIds = map snd rs"
    by (auto simp: uploadPending_def onError_def onImagesChange_def split: outcome.splits prod.splits)
  have "drawnAt (us_drawn (cl_upload w)) ?w" by (simp add: drawnAt_def)
  from uploadEach_result[OF r _ this] n show ?thesis by simp
qed

lemma urlMapping_Some:
  assumes "length newIds = length urls" "u \<in> set urls"
  shows "\<exists>i. (u, i) \<in> set (zip urls newIds) \<and> urlMapping urls newIds u = Some i"
proof -
  have "u \<in> fst ` set (rev (zip urls newIds))" using assms by (simp add: set_map[symmetric] del: set_map)
  then obtain i where i: "map_of (rev (zip urls newIds)) u = Some i" by (metis map_of_eq_None_iff not_None_eq)
  then have "(u, i) \<in> set (zip urls newIds)" by (metis map_of_SomeD set_rev)
  with i show ?thesis by (auto simp: urlMapping_def)
qed

text \<open>The images once the previews are renamed: every one of them is an uploaded one.\<close>

abbreviation renamed :: "jstring list \<Rightarrow> jstring list \<Rightarrow> jstring \<Rightarrow> jstring" where
  "renamed images newIds \<equiv> \<lambda>url.
     if isPreviewImage url then orElse (urlMapping (filter isPreviewImage images) newIds url) url else url"

lemma renamed_preview:
  assumes "length newIds = length (filter isPreviewImage images)" "\<forall>i \<in> set newIds. i \<noteq> []"
    and "url \<in> set images" "isPreviewImage url"
  shows "(url, renamed images newIds url) \<in> set (zip (filter isPreviewImage images) newIds)"
proof -
  obtain i where i: "(url, i) \<in> set (zip (filter isPreviewImage images) newIds)"
      "urlMapping (filter isPreviewImage images) newIds url = Some i"
    using urlMapping_Some[OF assms(1)] assms(3,4) by auto
  then have "i \<noteq> []" using assms(2) by (blast dest: set_zip_rightD)
  with i assms(4) show ?thesis by simp
qed

lemma renamed_uploaded:
  assumes "length newIds = length (filter isPreviewImage images)" "\<forall>i \<in> set newIds. i \<noteq> [] \<and> isUploadedImage i"
  shows "list_all isUploadedImage (map (renamed images newIds) images)"
    and "filter isUploadedImage (map (renamed images newIds) images) = map (renamed images newIds) images"
proof -
  have up: "isUploadedImage (renamed images newIds url)" if "url \<in> set images" for url
  proof (cases "isPreviewImage url")
    case True
    from renamed_preview[OF assms(1) _ that this] assms(2) show ?thesis by (blast dest: set_zip_rightD)
  qed (simp add: isUploadedImage_def)
  show all: "list_all isUploadedImage (map (renamed images newIds) images)" unfolding list_all_iff
  proof
    fix u assume "u \<in> set (map (renamed images newIds) images)"
    then have "u \<in> renamed images newIds ` set images" by (simp only: set_map)
    then show "isUploadedImage u" by (rule imageE) (simp only: up)
  qed
  then show "filter isUploadedImage (map (renamed images newIds) images) = map (renamed images newIds) images"
    unfolding list_all_iff by (rule filter_True)
qed

text \<open>
  C30. Saving the images keeps their order: when \<open>uploadAndGetImageIds\<close> returns, it returns one
  identifier for every image, in the order of the images. An image that was uploaded before
  keeps its identifier. The images still to be uploaded get the fresh identifiers in their own
  order: the \<open>j\<close>-th of them, wherever it stands in the list, is replaced by the \<open>j\<close>-th
  identifier drawn since the start. No preview is left, and the form holds the same list.
\<close>

theorem upload_keeps_order:
  assumes "run (uploadAndGetImageIds x ix opts images) w = (Done ids, w')"
    and "\<forall>n. ix_random ix n \<noteq> [] \<and> isUploadedImage (ix_random ix n)"
  shows "length ids = length images \<and> list_all isUploadedImage ids
    \<and> (\<forall>k < length images. isUploadedImage (images ! k) \<longrightarrow> ids ! k = images ! k)
    \<and> (\<forall>k < length images. isPreviewImage (images ! k) \<longrightarrow>
         (\<exists>j < length (filter isPreviewImage images). filter isPreviewImage images ! j = images ! k
            \<and> ids ! k = ix_random ix (us_drawn (cl_upload w) + j)))
    \<and> (hasPendingImages images \<longrightarrow> us_images (cl_upload w') = ids)"
proof (cases "hasPendingImages images")
  case False
  then have "list_all isUploadedImage images"
    by (auto simp: hasPendingImages_def isUploadedImage_def list_ex_iff list_all_iff)
  moreover from this have "filter isUploadedImage images = images" by (simp add: list_all_iff)
  moreover have "\<not> isPreviewImage (images ! k)" if "k < length images" for k
    using False that by (auto simp: hasPendingImages_def list_ex_iff)
  ultimately show ?thesis
    using assms(1) False by (simp add: uploadAndGetImageIds_def getSavedImageIds_def)
next
  case True
  obtain out w1 where p: "run (uploadPending x ix opts images) w = (out, w1)" by (rule prod.exhaust)
  with assms(1) True obtain newIds where out: "out = Done newIds"
    by (cases out) (simp_all add: uploadAndGetImageIds_def)
  let ?pending = "filter isPreviewImage images" and ?n = "us_drawn (cl_upload w)"
  note new = uploadPending_result[OF p[unfolded out]]
  have ids: "length newIds = length ?pending" "\<forall>i \<in> set newIds. i \<noteq> [] \<and> isUploadedImage i"
    using new assms(2) by auto
  note up = renamed_uploaded[OF ids]
  with assms(1) True p out have r: "ids = map (renamed images newIds) images" "us_images (cl_upload w') = ids"
    by (simp_all add: uploadAndGetImageIds_def onImagesChange_def Let_def) auto
  have drawn: "\<exists>j < length ?pending. ?pending ! j = images ! k \<and> ids ! k = ix_random ix (?n + j)"
    if "k < length images" "isPreviewImage (images ! k)" for k
  proof -
    have "\<forall>i \<in> set newIds. i \<noteq> []" using ids(2) by blast
    from renamed_preview[OF ids(1) this nth_mem[OF that(1)] that(2)]
    have "(images ! k, ids ! k) \<in> set (zip ?pending newIds)"
      using r(1) that(1) by (simp del: zip_map2)
    then obtain j where j: "j < length ?pending" "?pending ! j = images ! k" "newIds ! j = ids ! k"
      using ids(1) by (fastforce simp: in_set_zip)
    then show ?thesis using new by (intro exI[of _ j]) simp
  qed
  have "ids ! k = images ! k" if "k < length images" "isUploadedImage (images ! k)" for k
    using that r(1) by (simp add: isUploadedImage_def)
  with up r drawn show ?thesis by simp
qed

text \<open>
  The change detection is exact once it has a list to compare with: there are unsaved
  changes exactly if the current list differs from the recorded one in any way, order included.
  Starting from no images it misses the first ones: they are recorded as the initial list.
\<close>

lemma unsaved_changes_exact:
  "(hasUnsavedChanges initial images \<longleftrightarrow> initial \<noteq> [] \<and> initial \<noteq> images)
   \<and> (us_initialImages u = [] \<longrightarrow>
       (let v = trackInitialImages (u\<lparr>us_images := images\<rparr>) in \<not> hasUnsavedChanges (us_initialImages v) (us_images v)))"
proof -
  have eq: "hasUnsavedChanges i j \<longleftrightarrow> i \<noteq> [] \<and> i \<noteq> j" for i j
  proof (cases "length i = length j \<and> i \<noteq> j")
    case True
    then obtain k where "k < length i" "i ! k \<noteq> j ! k" by (metis list_eq_iff_nth_eq)
    with True show ?thesis by (auto simp: hasUnsavedChanges_def list_ex_iff)
  next
    case False
    then show ?thesis by (auto simp: hasUnsavedChanges_def list_ex_iff)
  qed
  show ?thesis by (simp add: eq trackInitialImages_def Let_def)
qed

definition sample_image_ext :: "nat image_ext" where
  "sample_image_ext = \<lparr>ix_blobSize = (\<lambda>u. Inr 1000), ix_resize = (\<lambda>u (a, b). Inr (u, a, b)),
     ix_random = (\<lambda>n. lit ''id'' @ natToString 10 n), ix_apiUrl = lit ''https://api'', ix_encodeURIComponent = (\<lambda>s. s),
     ix_upload = (\<lambda>s u a b. (Inr 200, 0, s)), ix_pick = Inr None, ix_authStore = True, ix_mediaUrl = None\<rparr>"

definition sample_upload_cext :: "nat cext" where
  "sample_upload_cext = sample_cext (\<lambda>n q. Inr \<lparr>ar_status = 200, ar_data = JObj [(lit ''fields'',
     JObj [(lit ''key'', JStr (lit ''k'')), (lit ''contentType'', JStr (lit ''image/jpeg''))])]\<rparr>)"

definition sample_upload :: "(thrown, jstring list) outcome" where
  "sample_upload = fst (run (uploadAndGetImageIds sample_upload_cext sample_image_ext
     (defaultUploadOptions\<lparr>uo_enableResizing := False\<rparr>) [lit ''a'', lit ''file://p'']) (sample_client 0 initialStore))"

lemma sample_upload_done: "\<exists>ids. sample_upload = Done ids"
  by (simp add: sample_upload_def uploadAndGetImageIds_def hasPendingImages_def uploadPending_def
      isPreviewImage_def startsWith_def lit_def uploadImage_def drawImageId_def processImage_def promiseAll_def
      uploadProcessedImage_def apiCall_def callDepth_def numeral_3_eq_3 run_api_Suc requestInterceptor_def
      postRequest_def initialStore_def reply_def sample_upload_cext_def sample_cext_def sample_client_def
      withData_def stringField_def sample_image_ext_def onImagesChange_def afterSend_def Let_def
      defaultUploadOptions_def)

theorem upload_keeps_order_witness:
  "\<exists>ids. sample_upload = Done ids \<and> length ids = 2 \<and> list_all isUploadedImage ids \<and> ids ! 0 = lit ''a''
     \<and> ids ! 1 = lit ''id'' @ natToString 10 0"
proof -
  obtain ids where ids: "sample_upload = Done ids" using sample_upload_done by blast
  then obtain w where r: "run (uploadAndGetImageIds sample_upload_cext sample_image_ext
     (defaultUploadOptions\<lparr>uo_enableResizing := False\<rparr>) [lit ''a'', lit ''file://p'']) (sample_client 0 initialStore)
     = (Done ids, w)"
    by (metis prod.collapse sample_upload_def)
  have f: "\<forall>n. ix_random sample_image_ext n \<noteq> [] \<and> isUploadedImage (ix_random sample_image_ext n)"
    by (simp add: sample_image_ext_def isUploadedImage_def isPreviewImage_def startsWith_def lit_def)
  have p: "isPreviewImage (lit ''file://p'')" "\<not> isPreviewImage (lit ''a'')"
    by (simp_all add: isPreviewImage_def startsWith_def lit_def)
  note C = upload_keeps_order[OF r f]
  have "ids ! 0 = lit ''a''" using C p by (auto simp: isUploadedImage_def)
  moreover have "\<forall>k < 2. isPreviewImage ([lit ''a'', lit ''file://p''] ! k) \<longrightarrow> ids ! k = lit ''id'' @ natToString 10 0"
    using C p by (auto simp: sample_image_ext_def sample_client_def)
  then have "ids ! 1 = lit ''id'' @ natToString 10 0" using p(1) by (auto dest!: spec[of _ 1])
  ultimately show ?thesis using C ids by auto
qed

section \<open>The grid only reorders\<close>

lemma mset_insert_at: "mset (take j r @ [a] @ drop j r) = add_mset a (mset r)"
proof -
  have "mset (take j r) + mset (drop j r) = mset r" by (metis append_take_drop_id mset_append)
  then show ?thesis by simp
qed

lemma mset_place:
  assumes "i < length images"
  shows "mset (handlePlaceImage images i j) = mset images"
proof -
  let ?r = "take i images @ drop (Suc i) images"
  have "mset images = mset (take i images @ images ! i # drop (Suc i) images)"
    using assms by (simp only: id_take_nth_drop[symmetric])
  also have "\<dots> = add_mset (images ! i) (mset ?r)" by simp
  also have "\<dots> = mset (take j ?r @ [images ! i] @ drop j ?r)" by (simp only: mset_insert_at)
  finally show ?thesis unfolding handlePlaceImage_def Let_def by (simp only: if_cancel split: if_split) simp
qed

lemma place_nth:
  assumes "i < length images" "j < length images"
  shows "handlePlaceImage images i j ! j = images ! i"
proof -
  let ?r = "take i images @ drop (Suc i) images"
  have "length (take j ?r) = j" using assms by simp
  then have "(take j ?r @ [images ! i] @ drop j ?r) ! j = images ! i" by (metis append_Cons nth_append_length)
  with assms show ?thesis by (simp only: handlePlaceImage_def Let_def split: if_split) blast
qed

definition grid_ok :: "jstring list \<times> nat option \<Rightarrow> bool" where
  "grid_ok s = (case snd s of None \<Rightarrow> True | Some i \<Rightarrow> i < length (fst s))"

lemma grid_ok_event: "grid_ok s \<Longrightarrow> grid_ok (gridEvent s e)"
  by (cases e) (auto simp: grid_ok_def pressImage_def pressRemove_def split: option.splits prod.splits)

interpretation grid: event_machine gridEvent grid_ok
  by unfold_locales (rule grid_ok_event)

text \<open>
  The grid only reorders: from a state without a selection, whatever images the user presses,
  the images are always the same ones, each as often as before; and pressing an image and then
  another position puts it exactly there.
\<close>

lemma grid_permutes:
  shows "mset (fst (foldl gridEvent (images, None) (map PressImage ps))) = mset images
    \<and> (\<forall>i < length images. \<forall>j < length images. i \<noteq> j \<longrightarrow>
         fst (foldl gridEvent (images, None) [PressImage i, PressImage j]) ! j = images ! i)"
proof
  have "mset (fst (foldl gridEvent s (map PressImage ps))) = mset (fst s)" if "grid_ok s" for s
    using that
  proof (induction ps arbitrary: s)
    case (Cons p ps)
    have "mset (fst (gridEvent s (PressImage p))) = mset (fst s)"
      using Cons.prems by (auto simp: pressImage_def grid_ok_def mset_place split: option.splits prod.splits)
    with Cons.IH[of "gridEvent s (PressImage p)"] grid_ok_event[OF Cons.prems] show ?case
      by (simp del: gridEvent.simps)
  qed simp
  from this[of "(images, None)"] show "mset (fst (foldl gridEvent (images, None) (map PressImage ps))) = mset images"
    by (simp add: grid_ok_def)
  show "\<forall>i < length images. \<forall>j < length images. i \<noteq> j \<longrightarrow>
      fst (foldl gridEvent (images, None) [PressImage i, PressImage j]) ! j = images ! i"
    by (simp add: pressImage_def place_nth)
qed

end
