(* ===== verification/UploadJourney.thy ===== *)
theory UploadJourney
  imports System ClientImages
begin

text \<open>
  Saving images, client against server: the upload hook of \<open>packages/utils/expo\<close> runs against the
  two upload routes of \<open>apps/api\<close>. The calls of the API module go through the network of the
  theory System, the plain \<open>fetch\<close> of a file through \<open>fileNetwork\<close>.
\<close>

section \<open>The file request\<close>

text \<open>
  What the platform does with files and URLs: the bytes of a file, the bytes of a body as text, and
  the path and decoded query of a URL of the API.
\<close>

record web =
  wb_blob :: "jstring \<Rightarrow> 8 word list"
  wb_text :: "8 word list \<Rightarrow> jstring"
  wb_target :: "jstring \<Rightarrow> jstring \<times> (jstring \<times> jstring) list"

definition fileRequest :: "web \<Rightarrow> jstring \<Rightarrow> jstring \<Rightarrow> jstring \<Rightarrow> request" where
  "fileRequest wb url authorization uri = \<lparr>q_method = lit ''POST'', q_path = fst (wb_target wb url),
     q_contentType = Some (lit ''application/octet-stream''), q_authorization = Some authorization,
     q_text = wb_text wb (wb_blob wb uri), q_bytes = wb_blob wb uri, q_query = snd (wb_target wb url)\<rparr>"

definition fileNetwork :: "ctx \<Rightarrow> web \<Rightarrow> nat \<Rightarrow> world \<Rightarrow> jstring \<Rightarrow> jstring \<Rightarrow> jstring
    \<Rightarrow> (thrown + nat) \<times> nat \<times> world" where
  "fileNetwork c wb elapsed w url authorization uri =
     (case run (app c (fileRequest wb url authorization uri)) w of (out, w') \<Rightarrow>
       (case out of Done r \<Rightarrow> Inr (r_status r) | _ \<Rightarrow> Inl (errorMessage (lit ''Network request failed'')),
        elapsed, w'\<lparr>w_now := w_now w' + int elapsed\<rparr>))"

text \<open>What the object store is sent: method, URL, content type and body.\<close>

definition putSummary :: "http_request \<Rightarrow> jstring \<times> jstring \<times> jstring option \<times> http_body" where
  "putSummary put = (hq_method put, hq_url put, map_of (hq_headers put) (lit ''Content-Type''), hq_body put)"

definition storedAs :: "r2_config \<Rightarrow> jstring \<Rightarrow> 8 word list \<Rightarrow> jstring \<times> jstring \<times> jstring option \<times> http_body" where
  "storedAs r2 key bytes = (lit ''PUT'', r2_endpoint r2 @ lit ''/'' @ r2_bucketName r2 @ lit ''/'' @ key,
     Some (lit ''image/jpeg''), BytesBody bytes)"

definition putsSent :: "world client \<Rightarrow> (jstring \<times> jstring \<times> jstring option \<times> http_body) list" where
  "putsSent v = map putSummary (w_sent (cl_server v))"

text \<open>An object store that accepts what it is sent.\<close>

definition storing :: "ctx \<Rightarrow> r2_config \<Rightarrow> bool" where
  "storing c r2 \<longleftrightarrow> getR2Config c = Inr r2 \<and> (\<exists>host. x_hostname (c_ext c) (r2_endpoint r2) = Inr host)
     \<and> (\<exists>answer. hr_ok answer \<and> (\<forall>req. x_fetch (c_ext c) req = Inr answer))"

lemma run_app_file:
  assumes "x_toLowerCase (c_ext c) (lit ''application/octet-stream'') = lit ''application/octet-stream''"
    and "run (route c (fileRequest wb url a uri)) w = (Done r, w')"
  shows "run (app c (fileRequest wb url a uri)) w = (Done r, w')"
proof -
  have "run (json c (fileRequest wb url a uri) p) w = run p w" for p
    using assms(1) by (simp add: json_def fileRequest_def) (simp add: lit_def startsWith_def)
  then show ?thesis by (simp add: app_def run_withOnError_Done assms(2))
qed

lemma jpeg_type: "isImageType (lit ''image/jpeg'')"
  by (simp add: isImageType_def)

lemma direct_accepted:
  assumes "key \<noteq> []"
  shows "directUploadQuerySchema (Some (JObj (queryObject
      [(lit ''key'', key), (lit ''contentType'', lit ''image/jpeg'')])))
    = Inr \<lparr>du_key = key, du_contentType = lit ''image/jpeg''\<rparr>"
  using assms by (simp add: directUploadQuerySchema_def objectFields_def Let_def zNonempty_def zString_def
      andThen_def refineAll_def jpeg_type queryObject_pair)

lemma route_direct:
  assumes "serving c w" "storing c r2" "key \<noteq> []"
    and "wb_target wb url = (lit ''/upload/direct'', [(lit ''key'', key), (lit ''contentType'', lit ''image/jpeg'')])"
    and "authorised c (fileRequest wb url a uri) w"
  shows "\<exists>put r. run (route c (fileRequest wb url a uri)) w = (Done r, w\<lparr>w_sent := w_sent w @ [put]\<rparr>)
    \<and> r_status r = 200 \<and> putSummary put = storedAs r2 key (wb_blob wb uri)"
proof -
  let ?q = "fileRequest wb url a uri"
  from assms(2) obtain host answer where r2: "getR2Config c = Inr r2" "x_hostname (c_ext c) (r2_endpoint r2) = Inr host"
      "hr_ok answer" "\<And>req. x_fetch (c_ext c) req = Inr answer"
    by (auto simp: storing_def)
  have "quiet w" using assms(1) by (simp add: serving_def)
  from directUpload_puts_once[OF this r2(1,2,4), of key "lit ''image/jpeg''" "wb_blob wb uri"] r2(3)
  obtain put r where put: "run (directUpload c \<lparr>du_key = key, du_contentType = lit ''image/jpeg''\<rparr> (wb_blob wb uri)) w
      = (Done r, w\<lparr>w_sent := w_sent w @ [put]\<rparr>)" "r_status r = 200" "putSummary put = storedAs r2 key (wb_blob wb uri)"
    by (auto simp: putSummary_def storedAs_def res_ok_def noOptions_def)
  have "run (route c ?q) w = run (requireAuth c ?q (\<lambda>user. withOnError c
      (validateQuery c directUploadQuerySchema ?q (\<lambda>v. withOnError c (directUpload c v (q_bytes ?q)))))) w"
    using assms(4) by (simp add: route_def authRoutes_def uploadRoutes_def fileRequest_def)
  moreover have "run (validateQuery c directUploadQuerySchema ?q (\<lambda>v. withOnError c (directUpload c v (q_bytes ?q)))) w
      = (Done r, w\<lparr>w_sent := w_sent w @ [put]\<rparr>)"
    using direct_accepted[OF assms(3)] put(1)
    by (simp add: validateQuery_def validated_def fileRequest_def assms(4) run_withOnError_Done)
  ultimately show ?thesis
    using put(2,3) assms(5) by (auto simp: run_requireAuth[OF assms(1)] authorised_def run_withOnError_Done)
qed

section \<open>One size of an image\<close>

text \<open>
  A client whose access token \<open>tok\<close> is admitted by the server, and not due for a refresh, for the
  next \<open>n\<close> milliseconds.
\<close>

definition admittedFor :: "ctx \<Rightarrow> world cext \<Rightarrow> jstring \<Rightarrow> nat \<Rightarrow> world client \<Rightarrow> bool" where
  "admittedFor c x tok n v \<longleftrightarrow> serving c (cl_server v) \<and> s_accessToken (cl_store v) = Some tok
     \<and> (\<forall>t \<le> n. \<not> needsTokenRefresh x tok (cl_now v + int t)
          \<and> (\<exists>p. x_verify (c_ext c) tok (JWT_SECRET (getEnv c)) (w_now (cl_server v) + int t) = Inr p
               \<and> selectUser (jwt_sub p) (w_db (cl_server v)) \<noteq> None))"

text \<open>
  The system: the client talks to the server of \<open>c\<close>, a call of the API module takes \<open>d\<close>
  milliseconds and a file \<open>e\<close>; URLs are read back as they were written; files can be read and
  resized; the drawn identifiers fit into a file name.
\<close>

definition uploadSystem :: "ctx \<Rightarrow> (json \<Rightarrow> jstring) \<Rightarrow> web \<Rightarrow> nat \<Rightarrow> nat \<Rightarrow> world cext \<Rightarrow> world image_ext \<Rightarrow> bool" where
  "uploadSystem c st wb d e x ix \<longleftrightarrow>
     cx_send x = network c st d \<and> d \<le> 5000 \<and> ix_upload ix = fileNetwork c wb e \<and> ix_authStore ix
     \<and> x_toLowerCase (c_ext c) (lit ''application/octet-stream'') = lit ''application/octet-stream''
     \<and> (\<forall>k t. wb_target wb (ix_apiUrl ix @ lit ''/upload/direct?key='' @ ix_encodeURIComponent ix k
           @ lit ''&contentType='' @ ix_encodeURIComponent ix t)
         = (lit ''/upload/direct'', [(lit ''key'', k), (lit ''contentType'', t)]))
     \<and> (\<forall>u. ix_blobSize ix u = Inr (length (wb_blob wb u))) \<and> (\<forall>u s. \<exists>r. ix_resize ix u s = Inr r)
     \<and> (\<forall>n. length (ix_random ix n) \<le> 94
         \<and> (\<forall>sz. transmits c st (rq_data (presignedRequest (uploadFileName sz (ix_random ix n))))))"

lemma admitted_authorised:
  assumes "admittedFor c x tok n v" "32 \<notin> set tok" "q_authorization req = Some (lit ''Bearer '' @ tok)"
    and "t \<le> n" "w_now w = w_now (cl_server v) + int t" "w_db w = w_db (cl_server v)"
  shows "authorised c req w"
  using assms bearerToken_issued[OF assms(2,3)] by (auto simp: authorised_def admittedFor_def)

lemma run_private_call:
  assumes "privateUrl q" "s_accessToken (cl_store v) = Some tok" "tok \<noteq> []" "\<not> needsTokenRefresh x tok (cl_now v)"
    and "q1 = q\<lparr>rq_url := tl (rq_url q), rq_authorization := Some (bearer (Some tok))\<rparr>"
    and "cx_send x (cl_server v) q1 = (Inr r, d, s')" "200 \<le> ar_status r" "ar_status r \<le> 299"
  shows "run (apiCall x q) v = (Done (Resp r), v\<lparr>cl_server := s', cl_now := cl_now v + int d, cl_sent := cl_sent v @ [q1]\<rparr>)"
proof -
  have "run (requestInterceptor x f q) v = (Done q1, v)" for f
    using assms(1-5) by (cases tok) (simp_all add: requestInterceptor_def privateUrl_def Let_def)
  then show ?thesis
    using assms(6-8) by (simp add: apiCall_def callDepth_def numeral_3_eq_3 run_api_Suc reply_def afterSend_def)
qed

lemma presigned_private: "privateUrl (presignedRequest f)"
  by (simp add: privateUrl_def presignedRequest_def postRequest_def startsWith_def lit_def)

lemma run_presigned:
  assumes "uploadSystem c st wb d e x ix" "admittedFor c x tok (n + d) v" "tok \<noteq> []" "32 \<notin> set tok"
    and "f \<noteq> []" "length f \<le> 100" "transmits c st (rq_data (presignedRequest f))"
  shows "\<exists>q1. run (apiCall x (presignedRequest f)) v = (Done (Resp (clientResponse (presignedAnswer f))),
      v\<lparr>cl_server := (cl_server v)\<lparr>w_now := w_now (cl_server v) + int d\<rparr>, cl_now := cl_now v + int d,
        cl_sent := cl_sent v @ [q1]\<rparr>)"
proof -
  define q1 where "q1 = (presignedRequest f)\<lparr>rq_url := tl (rq_url (presignedRequest f)),
    rq_authorization := Some (bearer (Some tok))\<rparr>"
  have q1: "rq_method q1 = lit ''post''" "rq_url q1 = lit ''/upload/presigned-url''"
    "rq_data q1 = rq_data (presignedRequest f)" "transmits c st (rq_data q1)"
    using assms(7) by (simp_all add: q1_def presignedRequest_def postRequest_def lit_def)
  have "authorised c (serverRequest st q1) (cl_server v)"
    by (rule admitted_authorised[OF assms(2,4), of _ 0]) (simp_all add: q1_def serverRequest_def bearer_def)
  moreover have s: "serving c (cl_server v)" using assms(2) by (simp add: admittedFor_def)
  ultimately have "cx_send x (cl_server v) q1
      = (Inr (clientResponse (presignedAnswer f)), d, (cl_server v)\<lparr>w_now := w_now (cl_server v) + int d\<rparr>)"
    using network_answer[OF q1(4) route_presigned[OF s q1 assms(5,6)]] assms(1) by (simp add: uploadSystem_def)
  moreover have "s_accessToken (cl_store v) = Some tok" "\<not> needsTokenRefresh x tok (cl_now v)"
    using assms(2) by (auto simp: admittedFor_def dest: spec[of _ 0])
  ultimately show ?thesis
    by (intro exI[of _ q1] run_private_call[OF presigned_private _ assms(3) _ q1_def])
      (simp_all add: presignedAnswer_status)
qed

text \<open>What a step leaves: a session that is still admitted, the puts it sent, \<open>k\<close> identifiers drawn.\<close>

definition afterPuts :: "ctx \<Rightarrow> world cext \<Rightarrow> jstring \<Rightarrow> nat \<Rightarrow> nat \<Rightarrow> world client
    \<Rightarrow> (jstring \<times> jstring \<times> jstring option \<times> http_body) list \<Rightarrow> world client \<Rightarrow> bool" where
  "afterPuts c x tok n k v puts v' \<longleftrightarrow> admittedFor c x tok n v' \<and> putsSent v' = putsSent v @ puts
     \<and> us_drawn (cl_upload v') = us_drawn (cl_upload v) + k"

lemma afterPuts_trans:
  "afterPuts c x tok m j v ps v1 \<Longrightarrow> afterPuts c x tok n k v1 qs v2 \<Longrightarrow> afterPuts c x tok n (j + k) v (ps @ qs) v2"
  by (simp add: afterPuts_def)

lemma afterPuts_upload [simp]:
  "admittedFor c x tok n (v\<lparr>cl_upload := u\<rparr>) = admittedFor c x tok n v"
  "putsSent (v\<lparr>cl_upload := u\<rparr>) = putsSent v"
  by (simp_all add: admittedFor_def putsSent_def)

lemma admittedFor_later:
  assumes "admittedFor c x tok (n + k) v" "serving c (cl_server v')" "cl_store v' = cl_store v"
    and "cl_now v' = cl_now v + int k" "w_now (cl_server v') = w_now (cl_server v) + int k"
    and "w_db (cl_server v') = w_db (cl_server v)"
  shows "admittedFor c x tok n v'"
  unfolding admittedFor_def
proof (intro conjI allI impI)
  fix t assume "t \<le> n"
  then have "\<not> needsTokenRefresh x tok (cl_now v + int (k + t))
      \<and> (\<exists>p. x_verify (c_ext c) tok (JWT_SECRET (getEnv c)) (w_now (cl_server v) + int (k + t)) = Inr p
           \<and> selectUser (jwt_sub p) (w_db (cl_server v)) \<noteq> None)"
    using assms(1) by (auto simp: admittedFor_def dest: spec[of _ "k + t"])
  then show "\<not> needsTokenRefresh x tok (cl_now v' + int t)"
    and "\<exists>p. x_verify (c_ext c) tok (JWT_SECRET (getEnv c)) (w_now (cl_server v') + int t) = Inr p
           \<and> selectUser (jwt_sub p) (w_db (cl_server v')) \<noteq> None"
    by (simp_all add: assms add.assoc)
qed (use assms in \<open>simp_all add: admittedFor_def\<close>)

lemma presigned_fields:
  "withData x (Resp (clientResponse (presignedAnswer f))) k
     = k (JObj [(lit ''imageId'', JStr (imageIdOf f)),
         (lit ''fields'', JObj [(lit ''key'', JStr f), (lit ''contentType'', JStr (lit ''image/jpeg''))])])"
  by (simp add: withData_def clientResponse_def presignedAnswer_def res_ok_def noOptions_def)

lemma file_name_fits:
  "uploadFileName sz i \<noteq> [] \<and> length (uploadFileName sz i) \<le> length i + 6"
  by (cases sz) (simp_all add: uploadFileName_def lit_def)

lemma run_uploadProcessedImage:
  assumes "uploadSystem c st wb d e x ix" "storing c r2" "tok \<noteq> []" "32 \<notin> set tok"
    and "admittedFor c x tok (n + (d + e)) v" "i = ix_random ix j"
  shows "\<exists>v'. run (uploadProcessedImage x ix p i) v = (Done i, v')
    \<and> afterPuts c x tok n 0 v [storedAs r2 (uploadFileName (pr_size p) i) (wb_blob wb (pr_uri p))] v'"
proof -
  let ?f = "uploadFileName (pr_size p) i"
  have f: "?f \<noteq> []" "length ?f \<le> 100" "transmits c st (rq_data (presignedRequest ?f))"
    using assms(1,6) file_name_fits[of "pr_size p" i] by (auto simp: uploadSystem_def dest: spec[of _ j])
  have "admittedFor c x tok (n + e + d) v" using assms(5) by (simp add: ac_simps)
  from run_presigned[OF assms(1) this assms(3,4) f] obtain q1
    where call: "run (apiCall x (presignedRequest ?f)) v = (Done (Resp (clientResponse (presignedAnswer ?f))),
      v\<lparr>cl_server := (cl_server v)\<lparr>w_now := w_now (cl_server v) + int d\<rparr>, cl_now := cl_now v + int d,
        cl_sent := cl_sent v @ [q1]\<rparr>)" (is "_ = (_, ?v1)") by blast
  let ?flds = "JObj [(lit ''key'', JStr ?f), (lit ''contentType'', JStr (lit ''image/jpeg''))]"
  let ?url = "uploadUrl ix ?flds" and ?a = "lit ''Bearer '' @ tok"
  have url: "wb_target wb ?url = (lit ''/upload/direct'', [(lit ''key'', ?f), (lit ''contentType'', lit ''image/jpeg'')])"
    using assms(1) by (simp add: uploadSystem_def uploadUrl_def fieldText_def stringField_def)
  have s: "serving c (cl_server ?v1)" using assms(5) by (simp add: admittedFor_def)
  have "authorised c (fileRequest wb ?url ?a (pr_uri p)) (cl_server ?v1)"
    by (rule admitted_authorised[OF assms(5,4), of _ d]) (simp_all add: fileRequest_def)
  from route_direct[OF s assms(2) f(1) url this] obtain put r
    where r: "run (route c (fileRequest wb ?url ?a (pr_uri p))) (cl_server ?v1)
        = (Done r, (cl_server ?v1)\<lparr>w_sent := w_sent (cl_server ?v1) @ [put]\<rparr>)"
      "r_status r = 200" "putSummary put = storedAs r2 ?f (wb_blob wb (pr_uri p))" by blast
  have lower: "x_toLowerCase (c_ext c) (lit ''application/octet-stream'') = lit ''application/octet-stream''"
    and up: "ix_upload ix = fileNetwork c wb e" and ok: "ix_authStore ix" "\<And>u. ix_blobSize ix u = Inr (length (wb_blob wb u))"
    using assms(1) by (simp_all add: uploadSystem_def)
  let ?v2 = "?v1\<lparr>cl_server := (cl_server ?v1)\<lparr>w_sent := w_sent (cl_server ?v1) @ [put],
    w_now := w_now (cl_server ?v1) + int e\<rparr>, cl_now := cl_now ?v1 + int e\<rparr>"
  have sent: "ix_upload ix (cl_server ?v1) ?url ?a (pr_uri p) = (Inr 200, e, cl_server ?v2)"
    unfolding up fileNetwork_def using run_app_file[OF lower r(1)] r(2) by simp
  have tokv: "s_accessToken (cl_store v) = Some tok" using assms(5) by (simp add: admittedFor_def)
  have "run (uploadProcessedImage x ix p i) v = (Done i, ?v2)"
    using call sent tokv ok
    by (simp add: uploadProcessedImage_def presignedRequest_def[symmetric] presigned_fields)
  moreover have "admittedFor c x tok n ?v2"
    by (rule admittedFor_later[OF assms(5)]) (use s in \<open>simp_all add: serving_def connected_def\<close>)
  ultimately show ?thesis
    using r(3) by (intro exI[of _ ?v2]) (simp add: afterPuts_def putsSent_def)
qed

section \<open>All sizes of an image\<close>

definition uploadSizes :: "upload_options \<Rightarrow> image_size list" where
  "uploadSizes opts = (if uo_enableResizing opts then uo_requiredSizes opts else [Original])"

definition sizeFile :: "'s image_ext \<Rightarrow> jstring \<Rightarrow> image_size \<Rightarrow> jstring" where
  "sizeFile ix uri sz = (if sz = Original then uri
     else case ix_resize ix uri (imageDimensions sz) of Inr (u, _) \<Rightarrow> u | Inl _ \<Rightarrow> uri)"

definition imagePuts :: "r2_config \<Rightarrow> web \<Rightarrow> 's image_ext \<Rightarrow> upload_options \<Rightarrow> jstring \<Rightarrow> jstring
    \<Rightarrow> (jstring \<times> jstring \<times> jstring option \<times> http_body) list" where
  "imagePuts r2 wb ix opts uri i =
     map (\<lambda>sz. storedAs r2 (uploadFileName sz i) (wb_blob wb (sizeFile ix uri sz))) (uploadSizes opts)"

text \<open>Files above the limit are refused before they are resized.\<close>

definition fileFits :: "web \<Rightarrow> upload_options \<Rightarrow> jstring \<Rightarrow> bool" where
  "fileFits wb opts uri \<longleftrightarrow> uo_enableResizing opts \<longrightarrow> length (wb_blob wb uri) \<le> uo_maxFileSize opts * (1024 * 1024)"

lemma run_processSizes:
  assumes "uploadSystem c st wb d e x ix"
  shows "\<exists>ps. run (processSizes ix uri szs) v = (Done ps, v)
    \<and> map (\<lambda>p. (pr_size p, pr_uri p)) ps = map (\<lambda>sz. (sz, sizeFile ix uri sz)) szs"
proof (induction szs)
  case (Cons sz szs)
  obtain u a b where "ix_resize ix uri (imageDimensions sz) = Inr (u, a, b)"
    using assms unfolding uploadSystem_def by (metis prod.exhaust)
  with Cons assms show ?case by (auto simp: uploadSystem_def sizeFile_def)
qed simp

lemma run_processImage:
  assumes "uploadSystem c st wb d e x ix" "fileFits wb opts uri"
  shows "\<exists>ps. run (processImage ix opts uri) v = (Done ps, v)
    \<and> map (\<lambda>p. (pr_size p, pr_uri p)) ps = map (\<lambda>sz. (sz, sizeFile ix uri sz)) (uploadSizes opts)"
  using assms run_processSizes[OF assms(1), of uri "uo_requiredSizes opts" v]
  by (auto simp: processImage_def uploadSizes_def sizeFile_def fileFits_def uploadSystem_def)

lemma run_allSettled:
  assumes "uploadSystem c st wb d e x ix" "storing c r2" "tok \<noteq> []" "32 \<notin> set tok" "i = ix_random ix j"
    and "admittedFor c x tok (n + length ps * (d + e)) v"
  shows "\<exists>v'. run (allSettled (map (\<lambda>p. uploadProcessedImage x ix p i) ps)) v = (Done (map (\<lambda>p. Inr i) ps), v')
    \<and> afterPuts c x tok n 0 v (map (\<lambda>p. storedAs r2 (uploadFileName (pr_size p) i) (wb_blob wb (pr_uri p))) ps) v'"
  using assms(6)
proof (induction ps arbitrary: v)
  case Nil
  then show ?case by (simp add: afterPuts_def)
next
  case (Cons p ps)
  have "admittedFor c x tok (n + length ps * (d + e) + (d + e)) v" using Cons.prems by (simp add: ac_simps)
  from run_uploadProcessedImage[OF assms(1-4) this assms(5)] obtain v1
    where v1: "run (uploadProcessedImage x ix p i) v = (Done i, v1)"
      "afterPuts c x tok (n + length ps * (d + e)) 0 v [storedAs r2 (uploadFileName (pr_size p) i) (wb_blob wb (pr_uri p))] v1"
    by blast
  from Cons.IH[of v1] v1(2) obtain v2
    where v2: "run (allSettled (map (\<lambda>p. uploadProcessedImage x ix p i) ps)) v1 = (Done (map (\<lambda>p. Inr i) ps), v2)"
      "afterPuts c x tok n 0 v1 (map (\<lambda>p. storedAs r2 (uploadFileName (pr_size p) i) (wb_blob wb (pr_uri p))) ps) v2"
    by (auto simp: afterPuts_def)
  with v1 afterPuts_trans[OF v1(2) v2(2)] show ?case by simp
qed

lemma run_uploadImage:
  assumes "uploadSystem c st wb d e x ix" "storing c r2" "tok \<noteq> []" "32 \<notin> set tok"
    and "admittedFor c x tok (n + length (uploadSizes opts) * (d + e)) v"
    and "isPreviewImage uri" "fileFits wb opts uri" "i = ix_random ix (us_drawn (cl_upload v))"
  shows "\<exists>v'. run (uploadImage x ix opts uri) v = (Done i, v')
    \<and> afterPuts c x tok n 1 v (imagePuts r2 wb ix opts uri i) v'"
proof -
  let ?u = "(cl_upload v)\<lparr>us_uploadingImages := insert uri (us_uploadingImages (cl_upload v))\<rparr>"
  let ?v = "v\<lparr>cl_upload := ?u\<lparr>us_drawn := Suc (us_drawn (cl_upload v))\<rparr>\<rparr>"
  obtain ps where ps: "run (processImage ix opts uri) ?v = (Done ps, ?v)"
      "map (\<lambda>p. (pr_size p, pr_uri p)) ps = map (\<lambda>sz. (sz, sizeFile ix uri sz)) (uploadSizes opts)"
    using run_processImage[OF assms(1,7)] by blast
  have len: "length ps = length (uploadSizes opts)" using ps(2) by (metis length_map)
  have "map (\<lambda>(sz, u). storedAs r2 (uploadFileName sz i) (wb_blob wb u)) (map (\<lambda>p. (pr_size p, pr_uri p)) ps)
      = imagePuts r2 wb ix opts uri i"
    unfolding ps(2) by (simp add: imagePuts_def)
  then have puts: "map (\<lambda>p. storedAs r2 (uploadFileName (pr_size p) i) (wb_blob wb (pr_uri p))) ps
      = imagePuts r2 wb ix opts uri i"
    by (simp add: o_def)
  have "admittedFor c x tok (n + length ps * (d + e)) ?v" using assms(5) len by simp
  from run_allSettled[OF assms(1-4,8) this] obtain v1
    where v1: "run (allSettled (map (\<lambda>p. uploadProcessedImage x ix p i) ps)) ?v = (Done (map (\<lambda>p. Inr i) ps), v1)"
      "afterPuts c x tok n 0 ?v (imagePuts r2 wb ix opts uri i) v1"
    unfolding puts by blast
  have "find isl (map (\<lambda>p. Inr i) ps :: (thrown + jstring) list) = None" by (induction ps) simp_all
  with v1(1) have "run (promiseAll (map (\<lambda>p. uploadProcessedImage x ix p i) ps)) ?v = (Done (), v1)"
    by (simp add: promiseAll_def)
  with ps(1) assms(6,8) have "run (uploadImage x ix opts uri) v
      = (Done i, v1\<lparr>cl_upload := (cl_upload v1)\<lparr>us_uploadedImages := insert uri (us_uploadedImages (cl_upload v1)),
           us_uploadingImages := us_uploadingImages (cl_upload v1) - {uri}\<rparr>\<rparr>)"
    by (simp add: uploadImage_def drawImageId_def)
  moreover have "afterPuts c x tok n 1 v (imagePuts r2 wb ix opts uri i) (v1\<lparr>cl_upload := (cl_upload v1)
      \<lparr>us_uploadedImages := a, us_uploadingImages := b\<rparr>\<rparr>)" for a b
    using v1(2) by (simp add: afterPuts_def)
  ultimately show ?thesis by blast
qed

section \<open>All images\<close>

lemma run_uploadEach:
  assumes "uploadSystem c st wb d e x ix" "storing c r2" "tok \<noteq> []" "32 \<notin> set tok"
    and "admittedFor c x tok (n + length uris * (length (uploadSizes opts) * (d + e))) v"
    and "\<forall>uri \<in> set uris. isPreviewImage uri \<and> fileFits wb opts uri"
    and "ids = map (ix_random ix) [us_drawn (cl_upload v)..<us_drawn (cl_upload v) + length uris]"
  shows "\<exists>v'. run (uploadEach x ix opts uris) v = (Done (zip uris ids), v')
    \<and> afterPuts c x tok n (length uris) v (concat (map (\<lambda>(uri, i). imagePuts r2 wb ix opts uri i) (zip uris ids))) v'"
  using assms(5-7)
proof (induction uris arbitrary: v ids)
  case Nil
  then show ?case by (simp add: afterPuts_def)
next
  case (Cons uri uris)
  let ?t = "length (uploadSizes opts) * (d + e)" and ?i = "ix_random ix (us_drawn (cl_upload v))"
  define js where "js = map (ix_random ix) [Suc (us_drawn (cl_upload v))..<Suc (us_drawn (cl_upload v)) + length uris]"
  have ids: "ids = ?i # js" unfolding Cons.prems(3) js_def by (subst upt_rec) simp
  have "admittedFor c x tok (n + length uris * ?t + ?t) v" using Cons.prems(1) by (simp add: algebra_simps)
  from run_uploadImage[OF assms(1-4) this _ _ refl] Cons.prems(2) obtain v1
    where v1: "run (uploadImage x ix opts uri) v = (Done ?i, v1)"
      "afterPuts c x tok (n + length uris * ?t) 1 v (imagePuts r2 wb ix opts uri ?i) v1" by fastforce
  have "admittedFor c x tok (n + length uris * ?t) v1" "js = map (ix_random ix) [us_drawn (cl_upload v1)..<us_drawn (cl_upload v1) + length uris]"
    using v1(2) by (simp_all add: afterPuts_def js_def)
  from Cons.IH[OF this(1) _ this(2)] Cons.prems(2) obtain v2
    where v2: "run (uploadEach x ix opts uris) v1 = (Done (zip uris js), v2)"
      "afterPuts c x tok n (length uris) v1 (concat (map (\<lambda>(uri, i). imagePuts r2 wb ix opts uri i) (zip uris js))) v2"
    by auto
  with v1 afterPuts_trans[OF v1(2) v2(2)] show ?case by (simp add: ids)
qed

lemma run_uploadPending:
  assumes "uploadSystem c st wb d e x ix" "storing c r2" "tok \<noteq> []" "32 \<notin> set tok"
    and "pending = filter isPreviewImage images"
    and "admittedFor c x tok (n + length pending * (length (uploadSizes opts) * (d + e))) v"
    and "\<forall>uri \<in> set pending. fileFits wb opts uri"
    and "newIds = map (ix_random ix) [us_drawn (cl_upload v)..<us_drawn (cl_upload v) + length pending]"
  shows "\<exists>v'. run (uploadPending x ix opts images) v = (Done newIds, v') \<and> admittedFor c x tok n v'
    \<and> putsSent v' = putsSent v @ concat (map (\<lambda>(uri, i). imagePuts r2 wb ix opts uri i) (zip pending newIds))"
proof (cases "pending = []")
  case True
  with assms show ?thesis by (simp add: uploadPending_def)
next
  case False
  let ?v = "v\<lparr>cl_upload := (cl_upload v)\<lparr>us_isUploading := True\<rparr>\<rparr>"
  have "admittedFor c x tok (n + length pending * (length (uploadSizes opts) * (d + e))) ?v"
    using assms(6) by simp
  moreover have "\<forall>uri \<in> set pending. isPreviewImage uri \<and> fileFits wb opts uri" using assms(5,7) by simp
  moreover have "newIds = map (ix_random ix) [us_drawn (cl_upload ?v)..<us_drawn (cl_upload ?v) + length pending]"
    using assms(8) by simp
  ultimately obtain v1 where v1: "run (uploadEach x ix opts pending) ?v = (Done (zip pending newIds), v1)"
      "afterPuts c x tok n (length pending) ?v (concat (map (\<lambda>(uri, i). imagePuts r2 wb ix opts uri i) (zip pending newIds))) v1"
    using run_uploadEach[OF assms(1-4)] by blast
  moreover have "length newIds = length pending" using assms(8) by simp
  ultimately show ?thesis
    using False assms(5)
    by (auto simp: uploadPending_def onImagesChange_def afterPuts_def)
qed

text \<open>
  C8. Saved images reach the object store. For a signed-in client whose access token lasts for the
  uploads, against a server with an accepting object store, saving the images returns, and exactly
  this has been sent to the store: for every image that is pending, in the order of the images, and
  for every size of the options, one \<open>PUT\<close> of the file of that size, under the identifier that was
  drawn for the image. And the URL that the application shows for a saved image in an uploaded size
  names an object that was stored for that image: the key the client chose is the one the server
  put, and the one the URL ends in.
\<close>

theorem saved_images_reach_store:
  assumes system: "uploadSystem c st wb d e x ix" "storing c r2" "\<forall>n. ix_random ix n \<noteq> [] \<and> isUploadedImage (ix_random ix n)"
    and session: "tok \<noteq> []" "32 \<notin> set tok"
      "admittedFor c x tok (length pending * (length (uploadSizes opts) * (d + e))) v"
    and files: "pending = filter isPreviewImage images" "\<forall>uri \<in> set pending. fileFits wb opts uri"
    and drawn: "newIds = map (ix_random ix) [us_drawn (cl_upload v)..<us_drawn (cl_upload v) + length pending]"
    and puts: "puts = concat (map (\<lambda>(uri, i). imagePuts r2 wb ix opts uri i) (zip pending newIds))"
    and media: "base \<noteq> []"
  shows "\<exists>ids v'. run (uploadAndGetImageIds x ix opts images) v = (Done ids, v')
    \<and> putsSent v' = putsSent v @ puts
    \<and> (\<forall>k < length images. \<forall>sz \<in> set (uploadSizes opts). isPreviewImage (images ! k) \<longrightarrow>
         (\<exists>f. getImageUrl (Some base) (ids ! k) (Some sz) None = Inr (base @ lit ''/'' @ f)
           \<and> storedAs r2 f (wb_blob wb (sizeFile ix (images ! k) sz)) \<in> set puts))"
proof -
  have len: "length newIds = length (filter isPreviewImage images)" using files(1) by (simp add: drawn)
  have up: "\<forall>i \<in> set newIds. i \<noteq> [] \<and> isUploadedImage i" using system(3) by (auto simp: drawn)
  obtain v1 where v1: "run (uploadPending x ix opts images) v = (Done newIds, v1)" "putsSent v1 = putsSent v @ puts"
    using run_uploadPending[OF system(1,2) session(1,2) files(1) _ files(2) drawn, of 0] session(3) puts by auto
  let ?ids = "map (renamed images newIds) images"
  have "\<exists>v'. run (uploadAndGetImageIds x ix opts images) v = (Done ?ids, v') \<and> putsSent v' = putsSent v @ puts"
  proof (cases "hasPendingImages images")
    case True
    with v1 show ?thesis
      by (simp add: uploadAndGetImageIds_def onImagesChange_def Let_def renamed_uploaded(2)[OF len up])
  next
    case False
    then have none: "\<forall>u \<in> set images. \<not> isPreviewImage u" by (simp add: hasPendingImages_def list_ex_iff)
    then have "pending = []" by (simp add: files(1) filter_empty_conv)
    moreover from none have "?ids = images" by (intro map_idI) simp
    moreover from none have "getSavedImageIds images = images"
      by (simp add: getSavedImageIds_def isUploadedImage_def filter_id_conv)
    ultimately show ?thesis using False puts by (simp add: uploadAndGetImageIds_def)
  qed
  moreover have "\<exists>f. getImageUrl (Some base) (?ids ! k) (Some sz) None = Inr (base @ lit ''/'' @ f)
      \<and> storedAs r2 f (wb_blob wb (sizeFile ix (images ! k) sz)) \<in> set puts"
    if k: "k < length images" "sz \<in> set (uploadSizes opts)" "isPreviewImage (images ! k)" for k sz
  proof (intro exI conjI)
    let ?i = "renamed images newIds (images ! k)"
    show "getImageUrl (Some base) (?ids ! k) (Some sz) None = Inr (base @ lit ''/'' @ uploadFileName sz ?i)"
      using k(1) media by (cases base) (simp_all add: getImageUrl_def uploadFileName_def)
    have "(images ! k, ?i) \<in> set (zip pending newIds)"
      unfolding files(1) using up k by (intro renamed_preview[OF len]) auto
    then show "storedAs r2 (uploadFileName sz ?i) (wb_blob wb (sizeFile ix (images ! k) sz)) \<in> set puts"
      using k(2) by (auto simp: puts imagePuts_def intro!: bexI[of _ "(images ! k, ?i)"])
  qed
  ultimately show ?thesis by blast
qed

text \<open>
  A size that is not uploaded is shown all the same: without resizing only the original is stored,
  while the URLs on display default to the large size, whose object does not exist.
\<close>

lemma unresized_display_missing:
  assumes "\<not> uo_enableResizing opts"
  shows "storedAs r2 (uploadFileName Large i) bytes \<notin> set (imagePuts r2 wb ix opts uri i)"
  using assms by (simp add: imagePuts_def uploadSizes_def storedAs_def uploadFileName_def lit_def)

section \<open>A concrete system\<close>

text \<open>
  A coding of URL parts that can be read back: every code unit is marked, so that the text ends at
  the first unmarked one. Two identifiers are drawn.
\<close>

definition sampleEncode :: "jstring \<Rightarrow> jstring" where
  "sampleEncode s = concat (map (\<lambda>u. [120, u]) s)"

fun sampleDecode :: "jstring \<Rightarrow> jstring \<times> jstring" where
  "sampleDecode (a # b # s) = (if a = 120 then (case sampleDecode s of (k, r) \<Rightarrow> (b # k, r)) else ([], a # b # s))"
| "sampleDecode s = ([], s)"

lemma sampleDecode_encode:
  "sampleDecode (sampleEncode k) = (k, [])"
  "a \<noteq> 120 \<Longrightarrow> sampleDecode (sampleEncode k @ a # b # r) = (k, a # b # r)"
  by (induction k) (simp_all add: sampleEncode_def)

definition sample_web :: web where
  "sample_web = \<lparr>wb_blob = (\<lambda>u. [1, 2, 3]), wb_text = (\<lambda>b. []),
     wb_target = (\<lambda>url. case sampleDecode (drop (length (lit ''https://api/upload/direct?key='')) url) of (k, r) \<Rightarrow>
       (lit ''/upload/direct'', [(lit ''key'', k), (lit ''contentType'', fst (sampleDecode (drop (length (lit ''&contentType='')) r)))]))\<rparr>"

definition sample_draw :: "nat \<Rightarrow> jstring" where
  "sample_draw n = (if n = 0 then lit ''id0'' else lit ''id1'')"

definition sample_upload_bodies :: "json list" where
  "sample_upload_bodies = concat (map (\<lambda>n. map (\<lambda>sz. rq_data (presignedRequest (uploadFileName sz (sample_draw n))))
     [Thumbnail, Medium, Large, Original]) [0, 1])"

definition upload_ctx :: ctx where
  "upload_ctx = (system_ctx sample_upload_bodies)\<lparr>c_ext := (c_ext (system_ctx sample_upload_bodies))
     \<lparr>x_verify := x_verify sample_ext\<rparr>\<rparr>"

definition upload_images :: "world image_ext" where
  "upload_images = \<lparr>ix_blobSize = (\<lambda>u. Inr 3), ix_resize = (\<lambda>u (a, b). Inr (u, a, b)),
     ix_random = sample_draw, ix_apiUrl = lit ''https://api'', ix_encodeURIComponent = sampleEncode,
     ix_upload = fileNetwork upload_ctx sample_web 70, ix_pick = Inr None, ix_authStore = True, ix_mediaUrl = None\<rparr>"

definition upload_cext :: "world cext" where
  "upload_cext = (system_cext [])\<lparr>cx_send := network upload_ctx (sampleJsonText sample_upload_bodies) 40,
     cx_jwtDecode := (\<lambda>t. Some \<lparr>jwt_sub = t, jwt_iat = 1000, jwt_exp = 2800\<rparr>)\<rparr>"

definition upload_client :: "world client" where
  "upload_client = system_client (sample_world sample_db) (sample_session\<lparr>s_accessToken := Some (lit ''u1'')\<rparr>)"

lemma sample_uploadSystem:
  "uploadSystem upload_ctx (sampleJsonText sample_upload_bodies) sample_web 40 70 upload_cext upload_images"
proof -
  have same: "transmits upload_ctx st j = transmits (system_ctx sample_upload_bodies) st j" for st j
    by (simp add: transmits_def upload_ctx_def)
  have "transmits (system_ctx sample_upload_bodies) (sampleJsonText sample_upload_bodies) j"
    if "j \<in> set sample_upload_bodies" for j
    using that by (rule sampleJsonText_transmits) (simp add: sample_upload_bodies_def)
  moreover have "rq_data (presignedRequest (uploadFileName sz (sample_draw n))) \<in> set sample_upload_bodies" for sz n
    by (cases sz; cases n) (simp_all add: sample_upload_bodies_def sample_draw_def)
  ultimately have "transmits upload_ctx (sampleJsonText sample_upload_bodies)
      (rq_data (presignedRequest (uploadFileName sz (sample_draw n))))" for sz n
    unfolding same by blast
  moreover have "x_toLowerCase (c_ext upload_ctx) s = s" for s
    by (simp add: upload_ctx_def system_ctx_def unary_ctx_def sample_ctx_def sample_ext_def)
  moreover have "length (sample_draw n) \<le> 94" for n by (simp add: sample_draw_def)
  moreover have "wb_target sample_web (lit ''https://api/upload/direct?key='' @ sampleEncode k @ lit ''&contentType='' @ sampleEncode t)
      = (lit ''/upload/direct'', [(lit ''key'', k), (lit ''contentType'', t)])" for k t
    by (simp add: sample_web_def lit_def sampleDecode_encode)
  ultimately show ?thesis
    by (simp add: uploadSystem_def upload_images_def upload_cext_def sample_web_def lit_def)
qed

lemma sample_storing: "storing upload_ctx \<lparr>r2_accessKeyId = lit ''ak'', r2_secretAccessKey = lit ''sk'',
    r2_bucketName = lit ''bucket'', r2_publicUrl = lit ''https://cdn'', r2_endpoint = lit ''https://x.r2.cloudflarestorage.com''\<rparr>"
  by (simp add: storing_def getR2Config_def isDev_def upload_ctx_def system_ctx_def unary_ctx_def sample_ctx_def
      sample_env_def sample_ext_def hr_ok_def)

lemma sample_admitted: "n \<le> 1000 \<Longrightarrow> admittedFor upload_ctx upload_cext (lit ''u1'') n upload_client"
  by (auto simp: admittedFor_def upload_client_def system_client_def serving_def quiet_def connected_def upload_ctx_def
      system_ctx_def unary_ctx_def sample_ctx_def sample_env_def sample_session_def needsTokenRefresh_def upload_cext_def
      sample_ext_def selectUser_def sample_db_def sample_user_def)

theorem saved_images_reach_store_witness:
  "\<exists>ids v'. run (uploadAndGetImageIds upload_cext upload_images defaultUploadOptions
       [lit ''file://p'', lit ''old'', lit ''file://q'']) upload_client = (Done ids, v') \<and> length (putsSent v') = 6"
proof -
  have "filter isPreviewImage [lit ''file://p'', lit ''old'', lit ''file://q''] = [lit ''file://p'', lit ''file://q'']"
    by (simp add: isPreviewImage_def startsWith_def lit_def)
  moreover have "\<forall>n. ix_random upload_images n \<noteq> [] \<and> isUploadedImage (ix_random upload_images n)"
    by (simp add: upload_images_def sample_draw_def isUploadedImage_def isPreviewImage_def startsWith_def lit_def)
  moreover have "\<forall>u. fileFits sample_web defaultUploadOptions u"
    by (simp add: fileFits_def sample_web_def defaultUploadOptions_def)
  moreover have "putsSent upload_client = []" by (simp add: putsSent_def upload_client_def system_client_def sample_world_def)
  moreover have "lit ''u1'' \<noteq> []" "32 \<notin> set (lit ''u1'')" by (simp_all add: lit_def)
  moreover have "length (uploadSizes defaultUploadOptions) = 3" by (simp add: uploadSizes_def defaultUploadOptions_def)
  moreover have "us_drawn (cl_upload upload_client) = 0" by (simp add: upload_client_def system_client_def sample_client_def)
  ultimately show ?thesis
    using saved_images_reach_store[OF sample_uploadSystem sample_storing, of "lit ''u1''" "[lit ''file://p'', lit ''file://q'']"
        defaultUploadOptions upload_client "[lit ''file://p'', lit ''old'', lit ''file://q'']" "[lit ''id0'', lit ''id1'']"
        _ "lit ''https://cdn''"] sample_admitted
    by (auto simp: upload_images_def sample_draw_def imagePuts_def lit_def)
qed

end
