(* ===== verification/StreetView.thy ===== *)
theory StreetView
  imports Upload
begin

text \<open>
  The street-view helper \<open>apps/api/src/utils/property-image.ts\<close>, which no route uses yet: the form
  encoding of \<open>URLSearchParams\<close>, the request, and the check of its answer.
\<close>

text \<open>The \<open>application/x-www-form-urlencoded\<close> serializer of the URL standard.\<close>

definition isFormSafe :: "code_unit \<Rightarrow> bool" where
  "isFormSafe u \<longleftrightarrow> isDigit u \<or> isLowerAlpha u \<or> isUpperAlpha u \<or> u \<in> {0x2A, 0x2D, 0x2E, 0x5F}"

definition encodeByte :: "8 word \<Rightarrow> jstring" where
  "encodeByte b = (if isFormSafe (of_nat (unat b)) then [of_nat (unat b)]
     else if b = 0x20 then [0x2B] else 0x25 # asciiUpper (hexByte b))"

definition formEncode :: "jstring \<Rightarrow> jstring" where
  "formEncode s = concat (map encodeByte (utf8 s))"

definition searchParams :: "(jstring \<times> jstring) list \<Rightarrow> jstring" where
  "searchParams ps = join (lit ''&'') (map (\<lambda>(k, v). formEncode k @ lit ''='' @ formEncode v) ps)"

definition streetViewUrl :: "ctx \<Rightarrow> jstring \<Rightarrow> jstring" where
  "streetViewUrl c address = lit ''https://maps.googleapis.com/maps/api/streetview?'' @ searchParams
     [(lit ''size'', lit ''640x480''), (lit ''location'', address), (lit ''fov'', lit ''80''),
      (lit ''pitch'', lit ''5''), (lit ''key'', GOOGLE_MAPS_API_KEY (getEnv c))]"

text \<open>\<open>headers.get\<close> ignores the case of names.\<close>

definition headerOf :: "string \<Rightarrow> http_response \<Rightarrow> jstring option" where
  "headerOf name r = map_option snd (find (\<lambda>(k, v). asciiLower k = asciiLower (lit name)) (hr_headers r))"

definition getPropertyImage :: "ctx \<Rightarrow> jstring \<Rightarrow> (world, exn, jstring option) prog" where
  "getPropertyImage c address =
     (if trim address = [] then Ret None
      else
        let url = streetViewUrl c address in
        bindP (fetchP c \<lparr>hq_method = lit ''HEAD'', hq_url = url, hq_headers = [], hq_body = NoBody\<rparr>) (\<lambda>res.
        let contentLength = headerOf ''Content-Length'' res in
        if \<not> hr_ok res
          \<or> (case parseInt (if truthyOpt contentLength then the contentLength else lit ''0'') of
               None \<Rightarrow> False | Some n \<Rightarrow> n < 1000)
        then Ret None else Ret (Some url)))"

text \<open>
  An address cannot add parameters to the request: the encoded text has no separator of the
  query, and its code units are letters, digits, \<open>* - . _ + %\<close>.
\<close>

lemma lower_upper: "isLowerAlpha u \<Longrightarrow> isUpperAlpha (u - 32)"
  by (simp add: isLowerAlpha_def isUpperAlpha_def word_le_nat_alt unat_sub) arith

lemma formEncode_units:
  assumes "u \<in> set (formEncode s)"
  shows "isFormSafe u \<or> u = 0x2B \<or> u = 0x25"
proof -
  from assms obtain b where "u \<in> set (encodeByte b)" by (auto simp: formEncode_def)
  moreover have "isFormSafe v" if v: "v \<in> set (asciiUpper (hexByte b))" for v b
  proof -
    obtain d where d: "d \<in> set (hexByte b)" "v = (if isLowerAlpha d then d - 32 else d)"
      using v unfolding asciiUpper_def set_map image_iff by blast
    then obtain n where "d = digitUnit n" "n < 36"
      using radixDigits_less[of 16 _ "unat b"] by (fastforce simp: hexByte_digits)
    then have "isDigit d \<or> isLowerAlpha d" using digitUnit_class by blast
    with d(2) lower_upper show ?thesis by (auto simp: isFormSafe_def)
  qed
  ultimately show ?thesis by (auto simp: encodeByte_def split: if_splits)
qed

lemma formEncode_no_separator: "0x26 \<notin> set (formEncode s)" "0x3D \<notin> set (formEncode s)" "0x23 \<notin> set (formEncode s)"
  by (auto dest!: formEncode_units simp: isFormSafe_def isDigit_def isLowerAlpha_def isUpperAlpha_def)

text \<open>On a working network the helper sends one request, and a URL it returns is the one it asked for.\<close>

lemma getPropertyImage_result:
  assumes "quiet w" "run (getPropertyImage c address) w = (Done (Some url), w')"
  defines "req \<equiv> \<lparr>hq_method = lit ''HEAD'', hq_url = streetViewUrl c address, hq_headers = [], hq_body = NoBody\<rparr>"
  shows "trim address \<noteq> [] \<and> url = streetViewUrl c address \<and> w' = w\<lparr>w_sent := w_sent w @ [req]\<rparr>
    \<and> (\<exists>res. x_fetch (c_ext c) req = Inr res \<and> hr_ok res)"
  using assms(2) unfolding req_def
  by (cases "x_fetch (c_ext c) req")
    (auto simp: getPropertyImage_def Let_def run_fetchP_quiet[OF assms(1)] req_def split: if_splits)

end
