(* ===== verification/UiComponents.thy ===== *)
theory UiComponents
  imports Schemas
begin

text \<open>
  The components of \<open>packages/ui/expo/src/components\<close> that have a state: the input of one-time
  codes, the picker, the toggle and the toasts. What is modelled is the state and the handlers;
  markup, colours and animations are not.
\<close>

section \<open>\<open>OtpInput\<close>\<close>

datatype otp_variant = VariantDefault | VariantError | VariantSuccess

record otp_input =
  ot_text :: jstring
  ot_variant :: otp_variant

definition otp_reset :: "otp_input \<Rightarrow> otp_input" where
  "otp_reset s = \<lparr>ot_text = [], ot_variant = VariantDefault\<rparr>"

definition otp_handleError :: "otp_input \<Rightarrow> otp_input" where
  "otp_handleError s = \<lparr>ot_text = [], ot_variant = VariantError\<rparr>"

definition otpDigits :: "nat \<Rightarrow> otp_input \<Rightarrow> jstring list" where
  "otpDigits n s = map (\<lambda>i. if i < length (ot_text s) then [ot_text s ! i] else []) [0..<n]"

text \<open>\<open>handleTextChange\<close> up to the call of \<open>onComplete\<close>, whose argument is the second component.\<close>

definition handleTextChange :: "nat \<Rightarrow> jstring \<Rightarrow> otp_input \<Rightarrow> otp_input \<times> jstring option" where
  "handleTextChange n text s =
     (let limitedText = take n (stripNonDigits text)
      in (s\<lparr>ot_text := limitedText\<rparr>, if length limitedText = n then Some limitedText else None))"

text \<open>What follows: the callback has returned a value, or has thrown (\<open>None\<close>).\<close>

definition otp_completed :: "bool option \<Rightarrow> otp_input \<Rightarrow> otp_input" where
  "otp_completed result s = (case result of
       Some True \<Rightarrow> s\<lparr>ot_variant := VariantSuccess\<rparr>
     | Some False \<Rightarrow> otp_handleError s
     | None \<Rightarrow> s\<lparr>ot_variant := VariantError\<rparr>)"

datatype otp_event = TypeText jstring | CallbackDone "bool option" | ResetInput

text \<open>The input with the codes it has handed to the callback.\<close>

primrec otpEvent :: "nat \<Rightarrow> otp_input \<times> jstring list \<Rightarrow> otp_event \<Rightarrow> otp_input \<times> jstring list" where
  "otpEvent n s (TypeText text) = (case handleTextChange n text (fst s) of (s', c) \<Rightarrow>
     (s', snd s @ (case c of None \<Rightarrow> [] | Some code \<Rightarrow> [code])))"
| "otpEvent n s (CallbackDone r) = (otp_completed r (fst s), snd s)"
| "otpEvent n s ResetInput = (otp_reset (fst s), snd s)"

definition otp_input_ok :: "nat \<Rightarrow> otp_input \<times> jstring list \<Rightarrow> bool" where
  "otp_input_ok n s \<longleftrightarrow> list_all isDigit (ot_text (fst s)) \<and> length (ot_text (fst s)) \<le> n
     \<and> list_all (\<lambda>c. list_all isDigit c \<and> length c = n) (snd s)"

lemma digits_take: "list_all isDigit (take n (stripNonDigits text))"
  by (metis append_take_drop_id list_all_append list_all_stripNonDigits)

interpretation otp_input: event_machine "otpEvent n" "otp_input_ok n"
  for n
proof
  fix s e assume "otp_input_ok n s"
  then show "otp_input_ok n (otpEvent n s e)"
    by (cases e) (auto simp: otp_input_ok_def handleTextChange_def digits_take otp_completed_def otp_handleError_def
        otp_reset_def Let_def split: option.splits bool.splits)
qed

text \<open>
  C40. The code input hands over only well-formed codes: whatever is typed or pasted, and however
  the callback answers, every code it submits is accepted by the schema of the server, and the
  input never shows more than six characters.
\<close>

theorem otp_input_submits_codes:
  assumes "s = foldl (otpEvent 6) (\<lparr>ot_text = [], ot_variant = VariantDefault\<rparr>, []) events" and "code \<in> set (snd s)"
  shows "otp (Some (JStr code)) = Inr code \<and> length (ot_text (fst s)) \<le> 6"
proof -
  have "otp_input_ok 6 (\<lparr>ot_text = [], ot_variant = VariantDefault\<rparr>, [])" by (simp add: otp_input_ok_def)
  from otp_input.run_good[OF this, of events] assms
  have "list_all isDigit code" "length code = 6" "length (ot_text (fst s)) \<le> 6"
    by (auto simp: otp_input_ok_def list_all_iff)
  then show ?thesis
    by (auto simp: otp_def andThen_def zNonempty_def zString_def trim_digits refineAll_def isOtp_def)
qed

theorem otp_input_submits_codes_witness:
  "otp (Some (JStr (lit ''123456''))) = Inr (lit ''123456'')"
proof -
  have "lit ''123456'' \<in> set (snd (foldl (otpEvent 6) (\<lparr>ot_text = [], ot_variant = VariantDefault\<rparr>, [])
      [TypeText (lit ''12-34-56'')]))"
    by (simp add: handleTextChange_def stripNonDigits_def isDigit_def lit_def Let_def)
  from otp_input_submits_codes[OF refl this] show ?thesis by simp
qed

section \<open>\<open>Picker\<close>\<close>

record 'v picker_item =
  pi_label :: jstring
  pi_value :: 'v
  pi_disabled :: bool

definition pickerOpen :: "bool \<Rightarrow> bool \<Rightarrow> bool" where
  "pickerOpen disabled isOpen = (if \<not> disabled then True else isOpen)"

definition closeModal :: "bool \<Rightarrow> bool" where
  "closeModal isOpen = False"

text \<open>\<open>handleItemSelect\<close>: whether the modal is open after it, and the call of \<open>onValueChange\<close>.\<close>

definition handleItemSelect :: "'v picker_item \<Rightarrow> nat \<Rightarrow> bool \<Rightarrow> bool \<times> ('v \<times> nat) option" where
  "handleItemSelect item index isOpen =
     (if pi_disabled item then (isOpen, None) else (False, Some (pi_value item, index)))"

definition selectedItem :: "'v picker_item list \<Rightarrow> 'v option \<Rightarrow> 'v picker_item option" where
  "selectedItem items selectedValue = find (\<lambda>item. Some (pi_value item) = selectedValue) items"

definition pickerLabel :: "'v picker_item list \<Rightarrow> 'v option \<Rightarrow> jstring \<Rightarrow> jstring" where
  "pickerLabel items selectedValue placeholder = (case selectedItem items selectedValue of
       None \<Rightarrow> placeholder
     | Some item \<Rightarrow> if truthy (pi_label item) then pi_label item else placeholder)"

definition adaptiveHeight :: "rat \<Rightarrow> rat \<Rightarrow> 'v picker_item list \<Rightarrow> rat" where
  "adaptiveHeight screenHeight bottomInset items =
     min (screenHeight * (1 / 2)) (61 + of_nat (length items) * 49 + bottomInset)"

lemma selected_after_select:
  assumes "handleItemSelect item i b = (b', Some (v, j))" "item \<in> set items"
    and "distinct (map pi_value items)"
  shows "\<not> b' \<and> j = i \<and> selectedItem items (Some v) = Some item"
  using assms find_unique[of pi_value items item v]
  by (auto simp: handleItemSelect_def selectedItem_def eq_commute split: if_splits)

section \<open>\<open>Toggle\<close>\<close>

datatype toggle_size = ToggleSm | ToggleMd | ToggleLg

fun toggleSizes :: "toggle_size \<Rightarrow> int \<times> int" where
  "toggleSizes ToggleSm = (40, 16)"
| "toggleSizes ToggleMd = (48, 20)"
| "toggleSizes ToggleLg = (56, 24)"

definition toggle_handlePress :: "bool \<Rightarrow> bool \<Rightarrow> bool option" where
  "toggle_handlePress disabled value = (if \<not> disabled then Some (\<not> value) else None)"

definition thumbRange :: "toggle_size \<Rightarrow> int \<times> int" where
  "thumbRange sz = (case toggleSizes sz of (containerWidth, thumbSize) \<Rightarrow>
     (4, containerWidth - thumbSize - 4))"

lemma thumb_inside: "thumbRange sz = (a, b) \<Longrightarrow> toggleSizes sz = (c, t) \<Longrightarrow> 4 \<le> a \<and> a \<le> b \<and> b + t + 4 \<le> c"
  by (cases sz) (auto simp: thumbRange_def)

section \<open>Toasts\<close>

datatype alert_variant = AlertSuccess | AlertError | AlertWarning | AlertInfo

datatype dismiss = DismissManual | DismissAuto | DismissText jstring | DismissMs rat

record toast =
  to_variant :: alert_variant
  to_title :: "jstring option"
  to_message :: jstring
  to_showIcon :: bool
  to_dismiss :: dismiss

record toast_props =
  tp_variant :: "alert_variant option"
  tp_title :: "jstring option"
  tp_message :: jstring
  tp_showIcon :: "bool option"
  tp_dismiss :: "dismiss option"

text \<open>An empty text and zero are falsy, so they stand for the default.\<close>

definition dismissOrAuto :: "dismiss option \<Rightarrow> dismiss" where
  "dismissOrAuto d = (case d of
       None \<Rightarrow> DismissAuto
     | Some (DismissText t) \<Rightarrow> if t = [] then DismissAuto else DismissText t
     | Some (DismissMs q) \<Rightarrow> if q = 0 then DismissAuto else DismissMs q
     | Some d' \<Rightarrow> d')"

definition makeToast :: "toast_props \<Rightarrow> toast" where
  "makeToast p = \<lparr>to_variant = (case tp_variant p of None \<Rightarrow> AlertInfo | Some v \<Rightarrow> v), to_title = tp_title p,
     to_message = tp_message p, to_showIcon = (tp_showIcon p \<noteq> Some False), to_dismiss = dismissOrAuto (tp_dismiss p)\<rparr>"

text \<open>The time after which a toast closes by itself; \<open>Inl\<close> is the error of a malformed duration.\<close>

definition toastDuration :: "toast \<Rightarrow> (jstring + rat) option" where
  "toastDuration t = (case to_dismiss t of
       DismissManual \<Rightarrow> None
     | DismissAuto \<Rightarrow> Some (Inr (of_int (calculateReadingTime (to_message t) 1000 100)))
     | DismissText d \<Rightarrow> Some (parseDuration (DurationText d))
     | DismissMs q \<Rightarrow> Some (Inr q))"

definition hideToast :: "bool \<Rightarrow> toast option \<Rightarrow> toast option" where
  "hideToast force t = (if force \<or> t = None \<or> to_dismiss (the t) \<noteq> DismissManual then None else t)"

text \<open>
  The toast and the number of timers of \<open>handleClose\<close> that are running: closing a toast, by its
  button or by its own timer, hides whatever toast is there a quarter of a second later.
\<close>

datatype toast_event = ShowToast toast_props | CloseToast | CloseTimer | RouteChange

primrec toastEvent :: "toast option \<times> nat \<Rightarrow> toast_event \<Rightarrow> toast option \<times> nat" where
  "toastEvent s (ShowToast p) = (Some (makeToast p), snd s)"
| "toastEvent s CloseToast = (if fst s = None then s else (fst s, Suc (snd s)))"
| "toastEvent s CloseTimer = (if snd s = 0 then s else (hideToast True (fst s), snd s - 1))"
| "toastEvent s RouteChange = (hideToast False (fst s), snd s)"

text \<open>A toast to be dismissed by hand stays through any changes of the route.\<close>

lemma manual_toast_stays:
  "to_dismiss t = DismissManual \<Longrightarrow> fst (foldl toastEvent (Some t, n) (replicate k RouteChange)) = Some t"
  by (induction k) (simp_all add: hideToast_def)

text \<open>
  The timer of an older toast hides a newer one: a toast to be dismissed by hand, shown just
  after another one was closed, is gone when the timer of the first runs out.
\<close>

lemma older_timer_hides_toast:
  "fst (foldl toastEvent (None, 0) [ShowToast p, CloseToast, ShowToast q, CloseTimer]) = None"
  by (simp add: hideToast_def)

end
