(* ===== verification/Views.thy ===== *)
theory Views
  imports UiComponents
begin

text \<open>
  The components of \<open>packages/ui/expo/src\<close> as functions from their props and state to what they
  render: a tree of host elements with attributes. The tables of \<open>theme.ts\<close> are part of it. An
  attribute that is a handler carries what it does: a press, or what becomes of a typed text.

  The parameters (\<open>ui_env\<close>) are \<open>cn\<close> (tailwind-merge after clsx), the palette of Tailwind, the
  color scheme, the safe area and the height of the screen. A class that is \<open>false\<close> is the empty
  text, which clsx drops as well. Animated values, refs, focus and feedback are not modelled.
\<close>

section \<open>Rendered trees\<close>

datatype 'a attr = AText jstring | AFlag bool | ANum rat | APress 'a | AEdit "jstring \<Rightarrow> 'a"

datatype 'a view =
    VText jstring
  | VElem string "(string \<times> 'a attr) list" "'a view list"

type_synonym 'a attrs = "(string \<times> 'a attr) list"

record ui_env =
  ux_cn :: "jstring list \<Rightarrow> jstring"
  ux_color :: "string \<Rightarrow> nat \<Rightarrow> jstring"
  ux_isDark :: bool
  ux_insets :: "rat \<times> rat"
  ux_screenHeight :: rat

text \<open>The presses a tree offers: a disabled element offers none itself.\<close>

definition ownPress :: "'a attrs \<Rightarrow> 'a list" where
  "ownPress as = (if map_of as ''disabled'' = Some (AFlag True) then []
     else case map_of as ''onPress'' of Some (APress a) \<Rightarrow> [a] | _ \<Rightarrow> [])"

primrec presses :: "'a view \<Rightarrow> 'a list" where
  "presses (VText t) = []"
| "presses (VElem tag as children) = ownPress as @ concat (map presses children)"

primrec shownTexts :: "'a view \<Rightarrow> jstring list" where
  "shownTexts (VText t) = [t]"
| "shownTexts (VElem tag as children) = concat (map shownTexts children)"

text \<open>The texts that can be typed: what a typed text does, for every editable input.\<close>

definition ownEdit :: "'a attrs \<Rightarrow> (jstring \<Rightarrow> 'a) list" where
  "ownEdit as = (if map_of as ''editable'' = Some (AFlag False) then []
     else case map_of as ''onChangeText'' of Some (AEdit f) \<Rightarrow> [f] | _ \<Rightarrow> [])"

primrec edits :: "'a view \<Rightarrow> (jstring \<Rightarrow> 'a) list" where
  "edits (VText t) = []"
| "edits (VElem tag as children) = ownEdit as @ concat (map edits children)"

text \<open>The texts outside of every \<open>Text\<close> element: React Native wants there to be none.\<close>

primrec bareTexts :: "'a view \<Rightarrow> jstring list" where
  "bareTexts (VText t) = [t]"
| "bareTexts (VElem tag as children) = (if tag = ''Text'' then [] else concat (map bareTexts children))"

text \<open>Elements without attributes of their own besides the class.\<close>

abbreviation className :: "jstring \<Rightarrow> string \<times> 'a attr" where
  "className c \<equiv> (''className'', AText c)"

definition box :: "string \<Rightarrow> string \<Rightarrow> 'a view list \<Rightarrow> 'a view" where
  "box tag c children = VElem tag [className (lit c)] children"

lemma presses_box [simp]: "presses (box tag c children) = concat (map presses children)"
  and edits_box [simp]: "edits (box tag c children) = concat (map edits children)"
  and bareTexts_box [simp]: "bareTexts (box tag c children) = (if tag = ''Text'' then [] else concat (map bareTexts children))"
  by (simp_all add: box_def ownPress_def ownEdit_def)

section \<open>The theme\<close>

datatype text_variant = TextDefault | TextPrimary | TextSecondary | TextError
datatype button_variant = ButtonDefault | ButtonOutline | ButtonDanger
datatype field_variant = FieldDefault | FieldError | FieldSuccess | FieldWarning

definition textBase :: jstring where
  "textBase = lit ''text-base''"

fun textVariants :: "text_variant \<Rightarrow> jstring" where
  "textVariants TextDefault = lit ''text-slate-800 dark:text-slate-200''"
| "textVariants TextPrimary = lit ''text-indigo-600 dark:text-indigo-500''"
| "textVariants TextSecondary = lit ''text-slate-600 dark:text-slate-400''"
| "textVariants TextError = lit ''text-red-600 dark:text-red-500''"

definition buttonBase :: "jstring \<times> jstring" where
  "buttonBase = (lit ''h-12 px-4 flex-row items-center justify-center rounded-full border'',
     lit ''text-center text-base font-semibold'')"

fun buttonVariants :: "button_variant \<Rightarrow> jstring \<times> jstring" where
  "buttonVariants ButtonDefault = (lit ''bg-indigo-600 dark:bg-indigo-500 border-indigo-600 dark:border-indigo-500 disabled:bg-slate-200 disabled:border-slate-200 dark:disabled:bg-slate-700 dark:disabled:border-slate-700'',
     lit ''text-white disabled:text-slate-400 dark:disabled:text-slate-500'')"
| "buttonVariants ButtonOutline = (lit ''bg-transparent border-slate-400 dark:border-slate-500 disabled:border-slate-200 dark:disabled:border-slate-700'',
     lit ''text-slate-800 dark:text-slate-200 disabled:text-slate-200 dark:disabled:text-slate-700'')"
| "buttonVariants ButtonDanger = (lit ''bg-red-600 dark:bg-red-500 border-red-600 dark:border-red-500 disabled:bg-slate-200 disabled:border-slate-200 dark:disabled:bg-slate-700 dark:disabled:border-slate-700'',
     lit ''text-white disabled:text-slate-400 dark:disabled:text-slate-500'')"

definition textInputBase :: jstring where
  "textInputBase = lit ''py-[13px] px-3 text-base leading-5 rounded-lg border bg-white dark:bg-slate-900 placeholder:text-slate-400 dark:placeholder:text-slate-500''"

fun textInputVariants :: "field_variant \<Rightarrow> jstring" where
  "textInputVariants FieldDefault = lit ''border-slate-400 dark:border-slate-500 text-slate-800 dark:text-slate-200''"
| "textInputVariants FieldError = lit ''border-red-600 dark:border-red-500 text-red-600 dark:text-red-500''"
| "textInputVariants FieldSuccess = lit ''border-green-600 dark:border-green-500 text-green-600 dark:text-green-500''"
| "textInputVariants FieldWarning = lit ''border-yellow-600 dark:border-yellow-500 text-yellow-600 dark:text-yellow-500''"

definition otpInputBase :: jstring where
  "otpInputBase = lit ''w-12 h-16 py-4 text-3xl leading-none text-center font-semibold rounded-lg border-2 text-slate-800 dark:text-slate-200 bg-white dark:bg-slate-900''"

fun otpInputVariants :: "otp_variant \<Rightarrow> jstring" where
  "otpInputVariants VariantDefault = lit ''border-slate-400 dark:border-slate-500''"
| "otpInputVariants VariantError = lit ''border-red-600 dark:border-red-500''"
| "otpInputVariants VariantSuccess = lit ''border-green-600 dark:border-green-500''"

definition iconDefault :: "ui_env \<Rightarrow> jstring \<times> jstring" where
  "iconDefault u = (ux_color u ''slate'' 800, ux_color u ''slate'' 200)"

definition svgDefault :: "ui_env \<Rightarrow> jstring \<times> jstring" where
  "svgDefault u = (ux_color u ''slate'' 800, ux_color u ''slate'' 200)"

definition alertBase :: "jstring \<times> jstring" where
  "alertBase = (lit ''flex-row items-start p-3 rounded-lg border'', lit ''text-base leading-snug'')"

fun alertVariants :: "alert_variant \<Rightarrow> jstring \<times> jstring" where
  "alertVariants AlertSuccess = (lit ''bg-green-100 dark:bg-[#102C2E] border-green-300 dark:border-green-900'',
     lit ''text-green-900 dark:text-green-200'')"
| "alertVariants AlertError = (lit ''bg-red-100 dark:bg-[#311827] border-red-300 dark:border-red-900'',
     lit ''text-red-900 dark:text-red-200'')"
| "alertVariants AlertWarning = (lit ''bg-yellow-100 dark:bg-[#302323] border-yellow-300 dark:border-yellow-900'',
     lit ''text-yellow-900 dark:text-yellow-200'')"
| "alertVariants AlertInfo = (lit ''bg-blue-100 dark:bg-[#12224D] border-blue-300 dark:border-blue-900'',
     lit ''text-blue-900 dark:text-blue-200'')"

record picker_base =
  pb_container :: jstring
  pb_text :: jstring
  pb_placeholder :: jstring
  pb_icon :: jstring

definition pickerBase :: picker_base where
  "pickerBase = \<lparr>pb_container = lit ''h-12 px-3 flex-row items-center justify-between rounded-lg border bg-white dark:bg-slate-900'',
     pb_text = lit ''text-base text-slate-800 dark:text-slate-200'',
     pb_placeholder = lit ''text-slate-400 dark:text-slate-500'',
     pb_icon = lit ''text-slate-400 dark:text-slate-500''\<rparr>"

fun pickerVariants :: "field_variant \<Rightarrow> jstring" where
  "pickerVariants FieldDefault = lit ''border-slate-400 dark:border-slate-500''"
| "pickerVariants FieldError = lit ''border-red-600 dark:border-red-500''"
| "pickerVariants FieldSuccess = lit ''border-green-600 dark:border-green-500''"
| "pickerVariants FieldWarning = lit ''border-yellow-600 dark:border-yellow-500''"

record picker_modal =
  pm_container :: jstring
  pm_header :: jstring
  pm_title :: jstring
  pm_item :: jstring
  pm_itemText :: jstring
  pm_itemSelected :: jstring

definition pickerModal :: picker_modal where
  "pickerModal = \<lparr>pm_container = lit ''bg-white dark:bg-slate-900 rounded-t-2xl flex-col'',
     pm_header = lit ''flex-row items-center justify-between p-4 border-b border-slate-200 dark:border-slate-700'',
     pm_title = lit ''text-lg font-medium text-slate-800 dark:text-slate-200'',
     pm_item = lit ''px-4 py-3 border-b border-slate-100 dark:border-slate-800 flex-row items-center'',
     pm_itemText = lit ''text-base text-slate-800 dark:text-slate-200'',
     pm_itemSelected = lit ''bg-indigo-200/50 dark:bg-indigo-900/50''\<rparr>"

record toggle_styles =
  tg_on :: jstring
  tg_off :: jstring
  tg_disabled :: jstring

definition toggleStyles :: toggle_styles where
  "toggleStyles = \<lparr>tg_on = lit ''bg-indigo-500'',
     tg_off = lit ''bg-slate-300 dark:bg-slate-600'',
     tg_disabled = lit ''bg-slate-300 dark:bg-slate-700''\<rparr>"

section \<open>\<open>Text\<close>, \<open>TextInput\<close>, \<open>Icon\<close>\<close>

definition textView :: "ui_env \<Rightarrow> text_variant \<Rightarrow> jstring \<Rightarrow> 'a attrs \<Rightarrow> 'a view list \<Rightarrow> 'a view" where
  "textView u variant cls props children =
     VElem ''Text'' (className (ux_cn u [textBase, textVariants variant, cls]) # props) children"

definition textInputView :: "ui_env \<Rightarrow> field_variant \<Rightarrow> jstring \<Rightarrow> 'a attrs \<Rightarrow> 'a view" where
  "textInputView u variant cls props =
     VElem ''TextInput'' (props @ [className (ux_cn u [textInputBase, textInputVariants variant, cls]),
       (''autoCorrect'', AFlag False), (''spellCheck'', AFlag False)]) []"

text \<open>An explicit color first, then a pair for the two schemes, then the theme.\<close>

definition resolvedColor :: "ui_env \<Rightarrow> jstring \<times> jstring \<Rightarrow> jstring option \<Rightarrow> jstring option \<Rightarrow> jstring option \<Rightarrow> jstring" where
  "resolvedColor u themeColors color lightColor darkColor =
     (if truthyOpt color then the color
      else if truthyOpt lightColor \<and> truthyOpt darkColor
      then (if ux_isDark u then the darkColor else the lightColor)
      else if ux_isDark u then snd themeColors else fst themeColors)"

definition iconView :: "ui_env \<Rightarrow> string \<Rightarrow> rat \<Rightarrow> jstring option \<Rightarrow> jstring option \<Rightarrow> jstring option \<Rightarrow> 'a view" where
  "iconView u name sz color lightColor darkColor = VElem ''Ionicons'' [(''name'', AText (lit name)), (''size'', ANum sz),
     (''color'', AText (resolvedColor u (iconDefault u) color lightColor darkColor))] []"

section \<open>\<open>Svg\<close>\<close>

text \<open>
  The registry of the module: names in the order of registration (none of them is a number). A
  name that is not registered is looked up in the prototype of the object, whose functions pass
  the check of the component.
\<close>

datatype svg_asset = SvgFunction string | SvgOther

type_synonym svg_registry = "(jstring \<times> svg_asset) list"

definition registerSvgAssets :: "(jstring \<times> svg_asset) list \<Rightarrow> svg_registry \<Rightarrow> svg_registry" where
  "registerSvgAssets assets registry = foldl (\<lambda>r (k, a). AList.update k a r) registry assets"

definition getRegisteredSvgNames :: "svg_registry \<Rightarrow> jstring list" where
  "getRegisteredSvgNames registry = map fst registry"

definition prototypeFunctions :: "string list" where
  "prototypeFunctions = [''constructor'', ''hasOwnProperty'', ''isPrototypeOf'', ''propertyIsEnumerable'',
     ''toLocaleString'', ''toString'', ''valueOf'', ''__defineGetter__'', ''__defineSetter__'',
     ''__lookupGetter__'', ''__lookupSetter__'']"

definition svgComponent :: "svg_registry \<Rightarrow> jstring \<Rightarrow> string option" where
  "svgComponent registry name = (case map_of registry name of
       Some (SvgFunction f) \<Rightarrow> Some f
     | Some SvgOther \<Rightarrow> None
     | None \<Rightarrow> find (\<lambda>f. lit f = name) prototypeFunctions)"

text \<open>Nothing is rendered where the check fails.\<close>

definition svgView :: "ui_env \<Rightarrow> svg_registry \<Rightarrow> jstring \<Rightarrow> rat \<Rightarrow> rat \<Rightarrow> jstring option \<Rightarrow> jstring option
    \<Rightarrow> jstring option \<Rightarrow> 'a view list" where
  "svgView u registry name w h color lightColor darkColor = (case svgComponent registry name of
       None \<Rightarrow> []
     | Some f \<Rightarrow> [VElem f [(''width'', ANum w), (''height'', ANum h),
         (''color'', AText (resolvedColor u (svgDefault u) color lightColor darkColor))] []])"

section \<open>\<open>Button\<close> and \<open>BackButton\<close>\<close>

text \<open>A text as the only child is wrapped in \<open>Text\<close>.\<close>

definition buttonView :: "ui_env \<Rightarrow> button_variant \<Rightarrow> bool \<Rightarrow> jstring \<Rightarrow> 'a attrs \<Rightarrow> 'a view list \<Rightarrow> 'a view" where
  "buttonView u variant disabled cls props children =
     (let allClasses = ux_cn u [fst buttonBase, fst (buttonVariants variant), cls];
          textClasses = ux_cn u [snd buttonBase, snd (buttonVariants variant)]
      in VElem ''TouchableOpacity'' (props @ [className allClasses, (''disabled'', AFlag disabled),
           (''activeOpacity'', ANum (if disabled then 1 else 4 / 5))])
         (case children of
            [VText t] \<Rightarrow> [textView u TextDefault textClasses [(''disabled'', AFlag disabled)] [VText t]]
          | _ \<Rightarrow> children))"

definition backButtonView :: "ui_env \<Rightarrow> jstring \<Rightarrow> 'a attrs \<Rightarrow> 'a view" where
  "backButtonView u cls props =
     VElem ''TouchableOpacity'' (props @ [className (ux_cn u [lit ''h-12 w-12 flex-row items-center -ml-1.5'', cls]),
       (''activeOpacity'', ANum (4 / 5))])
       [iconView u ''chevron-back'' 24 None (Some (ux_color u ''slate'' 800)) (Some (ux_color u ''slate'' 200))]"

section \<open>\<open>Alert\<close> and \<open>Toast\<close>\<close>

fun iconMap :: "alert_variant \<Rightarrow> string" where
  "iconMap AlertSuccess = ''checkmark-circle''"
| "iconMap AlertError = ''close-circle''"
| "iconMap AlertWarning = ''warning''"
| "iconMap AlertInfo = ''information-circle''"

fun colorMap :: "alert_variant \<Rightarrow> string" where
  "colorMap AlertSuccess = ''green''"
| "colorMap AlertError = ''red''"
| "colorMap AlertWarning = ''yellow''"
| "colorMap AlertInfo = ''blue''"

definition alertIcon :: "ui_env \<Rightarrow> alert_variant \<Rightarrow> 'a view" where
  "alertIcon u variant = iconView u (iconMap variant) 20 None
     (Some (ux_color u (colorMap variant) 600)) (Some (ux_color u (colorMap variant) 400))"

text \<open>\<open>close\<close> is the press of the close button, which only a toast has.\<close>

definition toastStyle :: "ui_env \<Rightarrow> bool \<Rightarrow> 'a attrs" where
  "toastStyle u toast = (if toast then [(''position'', AText (lit ''absolute'')), (''top'', ANum (16 + fst (ux_insets u))),
     (''left'', ANum 16), (''right'', ANum 16), (''zIndex'', ANum 1000)] else [])"

definition alertView :: "ui_env \<Rightarrow> alert_variant \<Rightarrow> 'a option \<Rightarrow> jstring option \<Rightarrow> jstring \<Rightarrow> bool \<Rightarrow> jstring
    \<Rightarrow> 'a attrs \<Rightarrow> 'a view" where
  "alertView u variant close title message showIcon cls props =
     (let containerClasses = ux_cn u [fst alertBase, fst (alertVariants variant), cls];
          textClasses = ux_cn u [snd alertBase, snd (alertVariants variant)]
      in VElem ''Animated.View'' (props @ toastStyle u (close \<noteq> None) @ [className containerClasses])
        ((if showIcon then [box ''View'' ''mr-2 mt-0.5'' [alertIcon u variant]] else [])
         @ [box ''View'' ''flex-1''
              ((if truthyOpt title
                then [textView u TextDefault (ux_cn u [textClasses, lit ''mb-1.5 font-semibold'']) [] [VText (the title)]]
                else [])
               @ [textView u TextDefault textClasses [] [VText message]])]
         @ (case close of None \<Rightarrow> [] | Some a \<Rightarrow>
             [VElem ''TouchableOpacity'' [className (lit ''-m-3 h-12 w-12 items-center justify-center opacity-70''),
                (''onPress'', APress a), (''activeOpacity'', ANum (4 / 5))]
               [iconView u ''close'' 20 None (Some (ux_color u ''slate'' 800)) (Some (ux_color u ''slate'' 200))]])))"

definition toastView :: "ui_env \<Rightarrow> toast option \<Rightarrow> toast_event view list" where
  "toastView u toast = (case toast of
       None \<Rightarrow> []
     | Some t \<Rightarrow> [alertView u (to_variant t) (Some CloseToast) (to_title t) (to_message t) (to_showIcon t) [] []])"

section \<open>\<open>Picker\<close>\<close>

datatype picker_press = OpenPicker | ClosePicker | SelectItem nat

definition pickerEntry :: "ui_env \<Rightarrow> 'v option \<Rightarrow> bool \<Rightarrow> nat \<Rightarrow> 'v picker_item \<Rightarrow> picker_press view" where
  "pickerEntry u selectedValue centered index item =
     (let isSelected = (Some (pi_value item) = selectedValue);
          itemClasses = ux_cn u [pm_item pickerModal, if isSelected then pm_itemSelected pickerModal else [],
            if centered then lit ''justify-center'' else []];
          textClasses = ux_cn u [pm_itemText pickerModal, if isSelected then lit ''font-medium'' else [],
            if pi_disabled item then lit ''opacity-50'' else [], if centered then lit ''text-center'' else []]
      in VElem ''TouchableOpacity'' [className itemClasses, (''onPress'', APress (SelectItem index)),
           (''disabled'', AFlag (pi_disabled item)), (''activeOpacity'', ANum (if pi_disabled item then 1 else 4 / 5))]
         ([box ''View'' ''flex-1'' [textView u TextDefault textClasses [] [VText (pi_label item)]]]
          @ (if isSelected
             then [VElem ''View'' [className (lit ''items-center justify-center '' @ (if centered then lit ''absolute right-4'' else []))]
                    [iconView u ''checkmark'' 20 None (Some (ux_color u ''indigo'' 800)) (Some (ux_color u ''indigo'' 200))]]
             else [])))"

definition pickerHeader :: "ui_env \<Rightarrow> jstring \<Rightarrow> picker_press view" where
  "pickerHeader u modalTitle = VElem ''View'' [className (pm_header pickerModal)]
     [textView u TextDefault (pm_title pickerModal) [] [VText modalTitle],
      VElem ''TouchableOpacity'' [className (lit ''-m-3 p-3''), (''onPress'', APress ClosePicker), (''activeOpacity'', ANum (4 / 5))]
        [iconView u ''close'' 24 None (Some (ux_color u ''slate'' 600)) (Some (ux_color u ''slate'' 400))]]"

text \<open>The modal shows its children only while it is open; a press outside of the list closes it.\<close>

definition pickerModalView :: "ui_env \<Rightarrow> bool \<Rightarrow> 'v picker_item list \<Rightarrow> 'v option \<Rightarrow> jstring \<Rightarrow> bool \<Rightarrow> picker_press view list" where
  "pickerModalView u isModalOpen items selectedValue modalTitle centered = (if \<not> isModalOpen then [] else
     [box ''Animated.View'' ''flex-1 bg-black/70''
       [VElem ''TouchableOpacity'' [className (lit ''flex-1''), (''activeOpacity'', ANum 1), (''onPress'', APress ClosePicker)] [],
        VElem ''Animated.View'' [className (pm_container pickerModal),
            (''height'', ANum (adaptiveHeight (ux_screenHeight u) (snd (ux_insets u)) items)),
            (''paddingBottom'', ANum (snd (ux_insets u)))]
          [pickerHeader u modalTitle,
           box ''FlatList'' ''flex-1''
             (map (\<lambda>(index, item). pickerEntry u selectedValue centered index item) (enumerate 0 items))]]])"

definition pickerView :: "ui_env \<Rightarrow> 'v picker_item list \<Rightarrow> 'v option \<Rightarrow> jstring \<Rightarrow> field_variant \<Rightarrow> bool \<Rightarrow> jstring
    \<Rightarrow> jstring \<Rightarrow> bool \<Rightarrow> bool \<Rightarrow> picker_press view list" where
  "pickerView u items selectedValue placeholder variant disabled cls modalTitle centered isModalOpen =
     (let containerClasses = ux_cn u [pb_container pickerBase, pickerVariants variant,
            if disabled then lit ''opacity-50'' else [], cls];
          textClasses = ux_cn u [pb_text pickerBase, if selectedItem items selectedValue = None then pb_placeholder pickerBase else [],
            if disabled then lit ''opacity-50'' else []]
      in VElem ''TouchableOpacity'' [className containerClasses, (''onPress'', APress OpenPicker), (''disabled'', AFlag disabled),
           (''activeOpacity'', ANum (if disabled then 1 else 4 / 5))]
         [textView u TextDefault textClasses [] [VText (pickerLabel items selectedValue placeholder)],
          iconView u ''chevron-down'' 20 None (Some (ux_color u ''slate'' 400)) (Some (ux_color u ''slate'' 500))]
       # pickerModalView u isModalOpen items selectedValue modalTitle centered)"

section \<open>\<open>OtpInput\<close> and \<open>Toggle\<close>\<close>

definition hiddenStyle :: "'a attrs" where
  "hiddenStyle = [(''position'', AText (lit ''absolute'')), (''left'', ANum (- 9999)), (''top'', ANum (- 9999)),
     (''width'', ANum 1), (''height'', ANum 1), (''opacity'', ANum 0)]"

definition otpInputView :: "ui_env \<Rightarrow> nat \<Rightarrow> jstring \<Rightarrow> bool \<Rightarrow> 'a attrs \<Rightarrow> (jstring \<Rightarrow> 'a) \<Rightarrow> otp_input \<Rightarrow> 'a view" where
  "otpInputView u n cls disabled props onText s =
     VElem ''View'' [className (ux_cn u [lit ''flex-row justify-between'', cls])]
       (VElem ''TextInput'' (props @ hiddenStyle @ [(''value'', AText (ot_text s)), (''onChangeText'', AEdit onText),
           (''keyboardType'', AText (lit ''number-pad'')), (''maxLength'', ANum (of_nat n)),
           (''selectTextOnFocus'', AFlag False), (''caretHidden'', AFlag True), (''contextMenuHidden'', AFlag True),
           (''editable'', AFlag (\<not> disabled))]) []
        # map (\<lambda>digit. VElem ''Text'' [className (ux_cn u [otpInputBase, otpInputVariants (ot_variant s)])] [VText digit])
            (otpDigits n s))"

fun toggleClasses :: "toggle_size \<Rightarrow> jstring \<times> jstring" where
  "toggleClasses ToggleSm = (lit ''w-10 h-6'', lit ''w-4 h-4'')"
| "toggleClasses ToggleMd = (lit ''w-12 h-7'', lit ''w-5 h-5'')"
| "toggleClasses ToggleLg = (lit ''w-14 h-8'', lit ''w-6 h-6'')"

text \<open>The thumb is drawn where it comes to rest.\<close>

definition toggleView :: "ui_env \<Rightarrow> bool \<Rightarrow> bool \<Rightarrow> toggle_size \<Rightarrow> jstring \<Rightarrow> bool view" where
  "toggleView u value disabled sz cls =
     (let containerClasses = ux_cn u [lit ''rounded-full'', fst (toggleClasses sz),
            if disabled then tg_disabled toggleStyles else if value then tg_on toggleStyles else tg_off toggleStyles,
            if disabled then lit ''opacity-50'' else [], cls];
          thumbClasses = ux_cn u [lit ''rounded-full shadow-sm bg-white'', snd (toggleClasses sz)];
          thumbPosition = (if value then snd (thumbRange sz) else fst (thumbRange sz))
      in VElem ''TouchableOpacity'' ((case toggle_handlePress disabled value of
             None \<Rightarrow> [] | Some v \<Rightarrow> [(''onPress'', APress v)])
           @ [(''disabled'', AFlag disabled), className cls, (''activeOpacity'', ANum 1)])
         [VElem ''Animated.View'' [className containerClasses, (''justifyContent'', AText (lit ''center'')),
             (''alignItems'', AText (lit ''flex-start''))]
           [VElem ''Animated.View'' [className thumbClasses, (''translateX'', ANum (of_int thumbPosition))] []]])"

section \<open>What the components offer\<close>

lemma ownPress_class [simp]: "ownPress (className c # as) = ownPress as"
  by (simp add: ownPress_def)

lemma ownEdit_class [simp]: "ownEdit (className c # as) = ownEdit as"
  by (simp add: ownEdit_def)

lemma ownEdit_Nil [simp]: "ownEdit [] = []"
  by (simp add: ownEdit_def)

lemma edits_text [simp]: "edits (textView u v c as children) = ownEdit as @ concat (map edits children)"
  by (simp add: textView_def)

lemma edits_leaves [simp]:
  "edits (iconView u n sz c l d) = []" "concat (map edits (svgView u r nm w h c l d)) = []"
  "v \<in> set (svgView u r nm w h c l d) \<Longrightarrow> edits v = []"
  by (auto simp: iconView_def svgView_def ownEdit_def split: option.splits)

lemma edits_button [simp]:
  "edits (buttonView u v disabled cls [(''onPress'', p)] children) = concat (map edits children)"
  by (auto simp: buttonView_def ownEdit_def Let_def split: list.splits view.splits)

lemma edits_back [simp]: "edits (backButtonView u cls [(''onPress'', p)]) = []"
  by (simp add: backButtonView_def ownEdit_def)

lemma ownPress_Nil [simp]: "ownPress [] = []"
  by (simp add: ownPress_def)

lemma presses_text [simp]: "presses (textView u v c as children) = ownPress as @ concat (map presses children)"
  by (simp add: textView_def)

lemma ownPress_map: "ownPress (map (map_prod id (map_attr f)) as) = map f (ownPress as)"
proof -
  have m: "map_of (map (map_prod id (map_attr f)) as) k = map_option (map_attr f) (map_of as k)" for k
    by (induction as) auto
  have [simp]: "map_attr f z = AFlag b \<longleftrightarrow> z = AFlag b" for z b
    by (cases z) auto
  show ?thesis unfolding ownPress_def m
    by (auto split: option.splits attr.splits)
qed

lemma presses_map_view: "presses (map_view f v) = map f (presses v)"
  by (induction v) (simp_all add: ownPress_map map_concat comp_def cong: map_cong)

lemma ownEdit_map: "ownEdit (map (map_prod id (map_attr f)) as) = map (\<lambda>g t. f (g t)) (ownEdit as)"
proof -
  have m: "map_of (map (map_prod id (map_attr f)) as) k = map_option (map_attr f) (map_of as k)" for k
    by (induction as) auto
  have [simp]: "map_attr f z = AFlag b \<longleftrightarrow> z = AFlag b" for z b
    by (cases z) auto
  show ?thesis unfolding ownEdit_def m
    by (auto simp: comp_def split: option.splits attr.splits)
qed

lemma edits_map_view: "edits (map_view f v) = map (\<lambda>g t. f (g t)) (edits v)"
  by (induction v) (simp_all add: ownEdit_map map_concat comp_def cong: map_cong)

lemma no_presses [simp]: "concat (map (\<lambda>x. []) xs) = []"
  by (induction xs) simp_all

lemma presses_leaves [simp]:
  "presses (iconView u n sz c l d) = []" "presses (textView u v cls [] [VText t]) = []"
  "presses (textView u v cls [(''disabled'', a)] [VText t]) = []"
  "concat (map presses (svgView u r nm w h c l d)) = []"
  by (auto simp: iconView_def textView_def svgView_def ownPress_def split: option.splits)

lemma presses_button [simp]:
  "presses (buttonView u v disabled cls [(''onPress'', APress a)] children)
     = (if disabled then [] else [a]) @ concat (map presses children)"
  by (auto simp: buttonView_def ownPress_def Let_def split: list.splits view.splits)

lemma presses_back [simp]: "presses (backButtonView u cls [(''onPress'', APress a)]) = [a]"
  by (simp add: backButtonView_def ownPress_def)

text \<open>Only a toast can be closed.\<close>

lemma presses_alert: "presses (alertView u v close t m i cls []) = (case close of None \<Rightarrow> [] | Some a \<Rightarrow> [a])"
  by (auto simp: alertView_def alertIcon_def toastStyle_def ownPress_def Let_def split: option.splits)

lemma presses_toast: "concat (map presses (toastView u toast)) = (case toast of None \<Rightarrow> [] | Some _ \<Rightarrow> [CloseToast])"
  by (simp add: toastView_def presses_alert split: option.splits)

lemma presses_toggle: "presses (toggleView u value disabled sz cls) = (if disabled then [] else [\<not> value])"
  by (simp add: toggleView_def ownPress_def toggle_handlePress_def Let_def)

lemma presses_entry [simp]:
  "presses (pickerEntry u s c i item) = (if pi_disabled item then [] else [SelectItem i])"
  by (simp add: pickerEntry_def ownPress_def Let_def)

text \<open>
  What a picker offers: to be opened unless it is disabled, and while it is open to be closed and
  to select the items that are not disabled, each under its own position.
\<close>

lemma pressed_entries:
  "concat (map (presses \<circ> (\<lambda>(i, item). pickerEntry u s c i item)) (enumerate n items))
     = map (\<lambda>(i, _). SelectItem i) (filter (\<lambda>(_, item). \<not> pi_disabled item) (enumerate n items))"
  by (induction items arbitrary: n) simp_all

lemma presses_picker:
  "concat (map presses (pickerView u items s ph v disabled cls title c isOpen))
     = (if disabled then [] else [OpenPicker])
       @ (if isOpen then ClosePicker # ClosePicker #
            map (\<lambda>(i, _). SelectItem i) (filter (\<lambda>(_, item). \<not> pi_disabled item) (enumerate 0 items)) else [])"
  by (auto simp: pickerView_def pickerModalView_def pickerHeader_def ownPress_def Let_def pressed_entries[unfolded comp_def] comp_def)

lemma edits_picker: "e \<in> set (pickerView u items s ph v disabled cls title c isOpen) \<Longrightarrow> edits e = []"
  by (auto simp: pickerView_def pickerModalView_def pickerHeader_def pickerEntry_def ownEdit_def Let_def split: if_splits)

text \<open>
  What the user does with a tree: a press of one of the elements that can be pressed, or a text
  typed into one of the inputs.
\<close>

datatype gesture = Tap nat | Type nat jstring

fun gestured :: "'a view \<Rightarrow> gesture \<Rightarrow> 'a option" where
  "gestured v (Tap n) = (if n < length (presses v) then Some (presses v ! n) else None)"
| "gestured v (Type n t) = (if n < length (edits v) then Some ((edits v ! n) t) else None)"

lemma gesture_of_press: "a \<in> set (presses v) \<Longrightarrow> \<exists>g. gestured v g = Some a"
  by (metis gestured.simps(1) in_set_conv_nth)

lemma gesture_of_edit: "f \<in> set (edits v) \<Longrightarrow> \<exists>g. gestured v g = Some (f t)"
  by (metis gestured.simps(2) in_set_conv_nth)

lemma selects_item:
  "SelectItem i \<in> set (concat (map presses (pickerView u items s ph v disabled cls title c isOpen)))
     \<longleftrightarrow> isOpen \<and> i < length items \<and> \<not> pi_disabled (items ! i)"
  by (auto simp: presses_picker in_set_enumerate_eq)

section \<open>Where texts stand\<close>

text \<open>
  The components put every text of theirs into a \<open>Text\<close> element. A button wraps a text that is its
  only child; other children are its caller's business.
\<close>

lemma bareTexts_map_view [simp]: "bareTexts (map_view f v) = bareTexts v"
  by (induction v) (simp_all add: comp_def cong: map_cong)

lemma bareTexts_leaves [simp]:
  "bareTexts (textView u v c as children) = []" "bareTexts (textInputView u fv c as) = []"
  "bareTexts (iconView u n sz c' l d) = []" "bareTexts (backButtonView u c as) = []"
  by (simp_all add: textView_def textInputView_def iconView_def backButtonView_def)

lemma bareTexts_svg [simp]: "concat (map bareTexts (svgView u r nm w h c l d)) = []"
  and bareTexts_svg_in [simp]: "e \<in> set (svgView u r nm w h c l d) \<Longrightarrow> bareTexts e = []"
  by (auto simp: svgView_def split: option.splits)

lemma bareTexts_button [simp]:
  "bareTexts (buttonView u v disabled cls as [VText t]) = []"
  "bareTexts (buttonView u v disabled cls as [box tag c children]) = bareTexts (box tag c children)"
  "bareTexts (buttonView u v disabled cls as (a # b # es)) = concat (map bareTexts (a # b # es))"
  by (simp_all add: buttonView_def box_def split: view.splits)

lemma bareTexts_alert [simp]: "bareTexts (alertView u v close t m i cls as) = []"
  by (auto simp: alertView_def alertIcon_def Let_def split: option.splits)

lemma bareTexts_picker [simp]:
  "concat (map bareTexts (map (map_view f) (pickerView u items s ph v disabled cls title c isOpen))) = []"
  and bareTexts_picker_in [simp]: "e \<in> set (pickerView u items s ph v disabled cls title c isOpen) \<Longrightarrow> bareTexts e = []"
  by (auto simp: pickerView_def pickerModalView_def pickerHeader_def pickerEntry_def Let_def split: if_splits)

lemma bareTexts_otp [simp]: "bareTexts (otpInputView u n cls disabled props onText s) = []"
  by (simp add: otpInputView_def comp_def)

end
