(* ===== verification/AppScreens.thy ===== *)
theory AppScreens
  imports ClientScreens UiComponents
begin

text \<open>
  The screens of \<open>apps/mobile/src/app\<close> around the hooks: what the login screen offers and shows,
  the code screen as a machine of presses and seconds, the mounting of the authentication layout,
  the logout button of the settings, and the speech component.
\<close>

section \<open>The login screen\<close>

record auth_methods =
  am_phone :: bool
  am_google :: bool
  am_apple :: bool

definition AUTH_CONFIG :: auth_methods where
  "AUTH_CONFIG = \<lparr>am_phone = False, am_google = True, am_apple = True\<rparr>"

text \<open>A toast for the error of a sign-in button and for the error of the store.\<close>

definition hookErrorToast :: "hook_error option \<Rightarrow> toast_props option" where
  "hookErrorToast error = (case error of
       Some e \<Rightarrow> if truthy (he_message e)
         then Some \<lparr>tp_variant = Some AlertError, tp_title = he_title e, tp_message = he_message e,
           tp_showIcon = None, tp_dismiss = None\<rparr> else None
     | None \<Rightarrow> None)"

definition storeErrorToast :: "auth_store \<Rightarrow> toast_props option" where
  "storeErrorToast s = (if truthyOpt (s_error s)
     then Some \<lparr>tp_variant = Some AlertError, tp_title = None, tp_message = the (s_error s),
       tp_showIcon = None, tp_dismiss = None\<rparr> else None)"

definition phoneButtonDisabled :: "ui \<Rightarrow> form \<Rightarrow> bool" where
  "phoneButtonDisabled u f \<longleftrightarrow> ui_phoneLoading u \<or> length (trim (phoneText f)) \<noteq> 10"

text \<open>
  A press on the login screen; a button that is not shown or is disabled does nothing.
  \<open>available\<close> is \<open>isAvailable\<close> of the Apple hook.
\<close>

datatype login_press = PressPhone form | PressGoogle | PressApple

primrec loginPress :: "'s cext \<Rightarrow> auth_methods \<Rightarrow> bool \<Rightarrow> jstring \<Rightarrow> login_press
    \<Rightarrow> ('s client, thrown, unit) prog" where
  "loginPress x am available own (PressPhone f) =
     bindP (getW cl_ui) (\<lambda>u.
     if am_phone am \<and> \<not> phoneButtonDisabled u f then ignoreResult (handleSendOtp x own f) else Ret ())"
| "loginPress x am available own PressGoogle =
     bindP (getW cl_ui) (\<lambda>u.
     if am_google am \<and> \<not> ui_googleLoading u then handleGoogleSignIn x else Ret ())"
| "loginPress x am available own PressApple =
     bindP (getW cl_ui) (\<lambda>u.
     if am_apple am \<and> available \<and> \<not> ui_appleLoading u then handleAppleSignIn x else Ret ())"

text \<open>\<open>isAvailable\<close> of the Apple hook: the library says so, on iOS only.\<close>

definition appleAvailable :: "device \<Rightarrow> bool \<Rightarrow> bool" where
  "appleAvailable d isAvailable \<longleftrightarrow> dv_os d = lit ''ios'' \<and> isAvailable"

section \<open>The code screen\<close>

definition resendDisabled :: "'s client \<Rightarrow> bool" where
  "resendDisabled w \<longleftrightarrow> 0 < ui_resendTimer (cl_ui w) \<or> s_isLoading (cl_store w)"

definition resendLabel :: "int \<Rightarrow> jstring" where
  "resendLabel resendTimer = (if 0 < resendTimer
     then lit ''Resend in '' @ intToString resendTimer @ lit ''s'' else lit ''Resend OTP'')"

datatype code_event = PressResend | Second

primrec codeEvent :: "'s cext \<Rightarrow> otp_params \<Rightarrow> 's client \<Rightarrow> code_event \<Rightarrow> 's client" where
  "codeEvent x p w PressResend = (if resendDisabled w then w else snd (run (handleResendOtp x p) w))"
| "codeEvent x p w Second = w\<lparr>cl_ui := tickResendTimer (cl_ui w)\<rparr>"

text \<open>
  The cooldown of the client: while the timer runs, presses send nothing; with \<open>n\<close> seconds on it
  the requests are the same after any presses and fewer than \<open>n\<close> seconds.
\<close>

definition waiting :: "areq list \<Rightarrow> int \<Rightarrow> 's client \<Rightarrow> bool" where
  "waiting sent n w \<longleftrightarrow> cl_sent w = sent \<and> n \<le> ui_resendTimer (cl_ui w)"

lemma waiting_event:
  "waiting sent n w \<Longrightarrow> 0 < n \<Longrightarrow> waiting sent (if e = Second then n - 1 else n) (codeEvent x p w e)"
  by (cases e) (auto simp: waiting_def resendDisabled_def tickResendTimer_def)

lemma resend_waits:
  "waiting sent n w \<Longrightarrow> int (length (filter (\<lambda>e. e = Second) events)) < n
     \<Longrightarrow> cl_sent (foldl (codeEvent x p) w events) = sent"
proof (induction events arbitrary: n w)
  case (Cons e es)
  have "0 < n" using Cons.prems(2) by auto
  from Cons.IH[OF waiting_event[OF Cons.prems(1) this, of e x p]] Cons.prems(2) show ?case
    by (auto split: if_splits)
qed (simp add: waiting_def)

text \<open>After a press that sent a code, nothing is sent for the next fifty-nine seconds.\<close>

lemma resend_sets_timer:
  assumes "run (handleResendOtp x p) w = (out, w')"
  shows "ui_otpResets (cl_ui w') = ui_otpResets (cl_ui w) \<or> ui_resendTimer (cl_ui w') = 60"
proof (cases "truthyOpt (op_phone p)")
  case True
  let ?v = "(clearError x w)\<lparr>cl_ui := (cl_ui w)\<lparr>ui_otpError := None\<rparr>\<rparr>"
  let ?req = "[(lit ''phone'', JStr (the (op_phone p))), (lit ''purpose'', JStr (op_purpose p))]"
  obtain o2 v2 where r: "run (sendOtp x ?req) ?v = (o2, v2)" by fastforce
  have "cl_ui (clearError x w) = cl_ui w" by (simp add: clearError_def setState_def)
  moreover have "cl_ui v2 = cl_ui ?v"
    using aside_run[OF aside_service(2) r] by (simp add: sideOf_def)
  ultimately show ?thesis
    using assms True r by (cases o2) (auto simp: handleResendOtp_def OTP_RESEND_COOLDOWN_def)
qed (use assms in \<open>auto simp: handleResendOtp_def\<close>)

lemma no_resend_within_a_minute:
  assumes "w' = codeEvent x p w PressResend" "ui_otpResets (cl_ui w') \<noteq> ui_otpResets (cl_ui w)"
    and "length (filter (\<lambda>e. e = Second) events) < 60"
  shows "cl_sent (foldl (codeEvent x p) w' events) = cl_sent w'"
proof -
  obtain out v where "run (handleResendOtp x p) w = (out, v)" by fastforce
  from resend_sets_timer[OF this] this assms(1,2) have "waiting (cl_sent w') 60 w'"
    by (auto simp: waiting_def split: if_splits)
  with assms(3) show ?thesis by (intro resend_waits[of _ 60]) simp_all
qed

section \<open>Other screens\<close>

text \<open>The authentication layout clears the error of the store when it mounts.\<close>

definition authLayoutMount :: "'s cext \<Rightarrow> 's client \<Rightarrow> 's client" where
  "authLayoutMount x = clearError x"

definition handleLogout :: "'s cext \<Rightarrow> ('s client, thrown, unit) prog" where
  "handleLogout x = logOut x"

record speech =
  sp_recognizing :: bool
  sp_transcript :: "jstring option"
  sp_started :: nat

datatype speech_event = SpeechStart | SpeechEnd | SpeechResult "jstring list" | StartButton bool

text \<open>\<open>sp_started\<close> counts the calls that start the recognition; \<open>StartButton\<close> carries the permission.\<close>

primrec speechEvent :: "speech \<Rightarrow> speech_event \<Rightarrow> speech" where
  "speechEvent s SpeechStart = s\<lparr>sp_recognizing := True\<rparr>"
| "speechEvent s SpeechEnd = s\<lparr>sp_recognizing := False\<rparr>"
| "speechEvent s (SpeechResult results) = s\<lparr>sp_transcript := (case results of [] \<Rightarrow> None | t # _ \<Rightarrow> Some t)\<rparr>"
| "speechEvent s (StartButton granted) =
     (if sp_recognizing s \<or> \<not> granted then s else s\<lparr>sp_started := Suc (sp_started s)\<rparr>)"

lemma speech_needs_permission:
  "\<forall>e \<in> set es. e \<noteq> StartButton True \<Longrightarrow> sp_started (foldl speechEvent s es) = sp_started s"
proof (induction es arbitrary: s)
  case (Cons e es)
  then show ?case by (cases e) (auto split: list.splits)
qed simp

section \<open>The development menu\<close>

text \<open>
  The items with their callbacks, none outside of development. \<open>pretty\<close> is \<open>JSON.stringify\<close> with an
  indent of two; it leaves out the functions of the store.
\<close>

definition nullable :: "jstring option \<Rightarrow> json" where
  "nullable v = (case v of None \<Rightarrow> JNull | Some t \<Rightarrow> JStr t)"

definition authStoreJson :: "auth_store \<Rightarrow> json" where
  "authStoreJson s = JObj [(lit ''accessToken'', nullable (s_accessToken s)), (lit ''refreshToken'', nullable (s_refreshToken s)),
     (lit ''isAuthenticated'', JBool (s_isAuthenticated s)), (lit ''isAuthLoading'', JBool (s_isAuthLoading s)),
     (lit ''isLoading'', JBool (s_isLoading s)), (lit ''error'', nullable (s_error s))]"

type_synonym 's dev_item = "jstring \<times> ('s client \<Rightarrow> 's client \<times> console_line list)"

definition registerDevMenu :: "(json \<Rightarrow> jstring) \<Rightarrow> (json \<Rightarrow> jstring) \<Rightarrow> bool \<Rightarrow> 's cext \<Rightarrow> 's dev_item list" where
  "registerDevMenu toText pretty dev x = (if \<not> dev then [] else
     [(lit ''Get Device Info'', \<lambda>w. (w, logger_debug toText dev
         (lit ''Device Info '' @ pretty (JObj (getDeviceInfo (cx_device x)))) None)),
      (lit ''Log Auth Store'', \<lambda>w. (w, logger_debug toText dev
         (lit ''Auth Store '' @ pretty (authStoreJson (cl_store w))) None)),
      (lit ''Clear Auth Storage'', \<lambda>w. (clearAll x w, []))])"

text \<open>Only one item changes the application, and it signs the user out.\<close>

lemma dev_menu_changes:
  assumes "(name, callback) \<in> set (registerDevMenu toText pretty dev x)" "fst (callback w) \<noteq> w"
  shows "name = lit ''Clear Auth Storage'' \<and> \<not> s_isAuthenticated (cl_store (fst (callback w)))
    \<and> s_refreshToken (cl_store (fst (callback w))) = None"
  using assms by (auto simp: registerDevMenu_def clearAll_def setState_def Let_def split: if_splits)

end
