(* ===== verification/ScreenViews.thy ===== *)
theory ScreenViews
  imports Views AppScreens ClientImages
begin

text \<open>
  What the screens of \<open>apps/mobile/src\<close> render, over the components of \<open>Views\<close>, and what the
  rendered trees offer to the user: the presses that are not disabled and the fields that can be
  edited. Refs and keys are left out, and a number that is rendered is its text.
\<close>

section \<open>Icons of the application\<close>

text \<open>The build makes a function component of every imported file; each stands here under its name.\<close>

definition appSvgNames :: "string list" where
  "appSvgNames = [''logo'', ''male'', ''female'', ''home'', ''homeOutline'', ''cube'', ''cubeOutline'', ''bag'', ''bagOutline'',
     ''gear'', ''gearOutline'', ''chatbubbles'', ''chatbubblesOutline'', ''google'', ''apple'']"

definition appSvgRegistry :: svg_registry where
  "appSvgRegistry = registerSvgAssets (map (\<lambda>n. (lit n, SvgFunction n)) appSvgNames) []"

section \<open>The login screen\<close>

text \<open>\<open>insets.top || 20\<close>\<close>

definition orTwenty :: "rat \<Rightarrow> rat" where
  "orTwenty n = (if n = 0 then 20 else n)"

definition TERMS_URL :: jstring where "TERMS_URL = lit ''https://opensource.org/tos''"

definition PRIVACY_URL :: jstring where "PRIVACY_URL = lit ''https://opensource.org/privacy''"

datatype login_action = LoginPress login_press | TypePhone jstring | BlurPhone | OpenUrl jstring

text \<open>\<open>i\<close> is the state of the hooks, \<open>f\<close> the form of the phone, \<open>available\<close> the Apple hook's.\<close>

definition loginView :: "ui_env \<Rightarrow> svg_registry \<Rightarrow> auth_methods \<Rightarrow> bool \<Rightarrow> ui \<Rightarrow> form \<Rightarrow> login_action view" where
  "loginView u reg am available i f =
    VElem ''KeyboardAwareScrollView'' [(''contentContainerClassName'', AText (lit ''flex-grow'')),
        (''keyboardShouldPersistTaps'', AText (lit ''always'')), (''scrollEnabled'', AFlag False)]
    [VElem ''ImageBackground'' [(''source'', AText (lit ''@assets/images/login-bg.jpg'')), (''resizeMode'', AText
        (lit ''cover'')), (''className'', AText (lit ''h-screen w-screen px-4'')),
            (''paddingTop'', ANum (orTwenty (fst (ux_insets u)))),
                (''paddingBottom'', ANum (orTwenty (snd (ux_insets u))))]
      [box ''View'' ''z-10 mx-auto w-full flex-1 sm:w-[480px]''
        [box ''View'' ''gap-8''
          ([box ''View'' ''mt-4 items-center''
            (svgView u reg (lit ''logo'') 64 64 (Some (ux_color u ''white'' 0)) None None)]
            @ (if am_phone am then [box ''View'' ''gap-4''
              [VElem ''View'' []
                ([textView u TextDefault (lit ''mb-1 font-medium text-white'') []
                  [VText (lit ''Phone Number'')],
                  textInputView u (if truthyOpt (fm_errors f (lit ''phone'')) then FieldError else FieldDefault) []
                      [(''placeholder'', AText (lit ''9876543210'')), (''value'', AText (phoneText f)),
                          (''onChangeText'', AEdit TypePhone), (''onBlur'', APress BlurPhone), (''keyboardType'', AText
                              (lit ''number-pad'')), (''maxLength'', ANum 10)]]
                  @ (if truthyOpt (fm_errors f (lit ''phone'')) then [textView u TextError
                      (lit ''mt-1 text-sm text-red-400'') []
                    [VText (the (fm_errors f (lit ''phone'')))]] else [])
                  @ [textView u TextSecondary (lit ''mt-2 text-sm text-slate-400'') []
                  [VText (lit ''Enter your 10-digit U.S. phone number'')]]),
                buttonView u ButtonDefault (phoneButtonDisabled i f) []
                    [(''onPress'', APress (LoginPress (PressPhone f)))]
                [box ''View'' ''flex-row items-center justify-center''
                  ((if ui_phoneLoading i then [VElem ''ActivityIndicator'' [(''size'', AText (lit ''small'')),
                      (''color'', AText (lit ''white'')), (''className'', AText (lit ''mr-2''))] []] else [])
                    @ [textView u TextDefault (lit ''text-center text-base font-semibold'') []
                    [VText (lit ''Continue'')]])]]] else [])),
          box ''View'' ''flex-1 justify-end gap-6''
          [box ''View'' ''gap-4''
            ((if am_google am then [buttonView u ButtonDefault (ui_googleLoading i)
                (lit ''border-white bg-white disabled:border-white disabled:bg-white dark:border-white dark:bg-white disabled:dark:border-white disabled:dark:bg-white'') [(''onPress'', APress (LoginPress PressGoogle))]
                [box ''View'' ''flex-row items-center justify-center''
                  ((if ui_googleLoading i then [VElem ''ActivityIndicator'' [(''size'', AText (lit ''small'')),
                      (''color'', AText (ux_color u ''slate'' 800)), (''className'', AText (lit ''mr-1''))] []] else (svgView u reg (lit ''google'') 24 24 None None None))
                    @ [textView u TextDefault
                        (lit ''ml-2 text-center text-base font-semibold text-slate-800 dark:text-slate-800'') []
                    [VText (lit ''Continue with Google'')]])]] else [])
              @ (if am_apple am \<and> available then [buttonView u ButtonDefault (ui_appleLoading i)
                  (lit ''border-white bg-white disabled:border-white disabled:bg-white dark:border-white dark:bg-white disabled:dark:border-white disabled:dark:bg-white'') [(''onPress'', APress (LoginPress PressApple))]
                [box ''View'' ''flex-row items-center justify-center''
                  ((if ui_appleLoading i then [VElem ''ActivityIndicator'' [(''size'', AText (lit ''small'')),
                      (''color'', AText (ux_color u ''slate'' 800)), (''className'', AText (lit ''mr-1''))] []] else (svgView u reg (lit ''apple'') 24 24 (Some (ux_color u ''slate'' 800)) None None))
                    @ [textView u TextDefault
                        (lit ''ml-2 text-center text-base font-semibold text-slate-800 dark:text-slate-800'') []
                    [VText (lit ''Continue with Apple'')]])]] else [])),
            textView u TextSecondary (lit ''text-center text-xs text-slate-400'') []
            [VText (lit ''By continuing, you agree to our''),
              VText (lit '' ''),
              textView u TextSecondary (lit ''text-xs font-semibold text-slate-300'')
                  [(''onPress'', APress (OpenUrl TERMS_URL))]
              [VText (lit ''Terms'')],
              VText (lit '' ''),
              VText (lit ''and''),
              VText (lit '' ''),
              textView u TextSecondary (lit ''text-xs font-semibold text-slate-300'')
                  [(''onPress'', APress (OpenUrl PRIVACY_URL))]
              [VText (lit ''Privacy Policy'')]]]]]]"

section \<open>The code screen\<close>

datatype otp_action = OtpBack | OtpTyped jstring | OtpResend

definition codeView :: "ui_env \<Rightarrow> 's client \<Rightarrow> otp_input \<Rightarrow> otp_action view" where
  "codeView u w input =
    VElem ''KeyboardAwareScrollView'' [(''flexGrow'', ANum 1), (''keyboardShouldPersistTaps'', AText (lit ''always'')),
        (''scrollEnabled'', AFlag False), (''className'', AText (lit ''bg-white dark:bg-slate-900''))]
    [VElem ''View'' [(''className'', AText (lit ''flex-1 px-4'')), (''paddingTop'', ANum (orTwenty (fst (ux_insets u)))),
        (''paddingBottom'', ANum (orTwenty (snd (ux_insets u))))]
      [backButtonView u (lit ''mb-4 self-start'') [(''onPress'', APress OtpBack)],
        box ''View'' ''mb-8''
        [textView u TextDefault (lit ''mb-2 text-3xl font-semibold'') []
          [VText (lit ''Verify your phone'')],
          textView u TextSecondary [] []
          [VText (lit ''We sent a 6-digit OTP code to your phone via SMS. Enter it below to verify your account.'')]],
        otpInputView u 6 [] (s_isLoading (cl_store w)) [(''autoFocus'', AFlag True)] OtpTyped input,
        box ''View'' ''mt-8 flex-1 justify-end''
        [buttonView u ButtonOutline (resendDisabled w) [] [(''onPress'', APress OtpResend)]
          [VText (resendLabel (ui_resendTimer (cl_ui w)))]]]]"

section \<open>The signup screen\<close>

datatype signup_action = Wizard signup_event | YearPicker picker_press

definition progressPercentage :: "signup_flow \<Rightarrow> int" where
  "progressPercentage fl = round ((of_nat (stepIndex (sf_step fl)) + 1) / 3 * 100 :: rat)"

definition progressSegments :: "signup_flow \<Rightarrow> 'a view list" where
  "progressSegments fl = map (\<lambda>i. VElem ''View'' [className (lit ''h-2 flex-1 rounded-full ''
     @ (if i \<le> stepIndex (sf_step fl) then lit ''bg-indigo-500 dark:bg-indigo-500'' else lit ''bg-slate-200 dark:bg-slate-700''))] [])
     [0..<3]"

definition progressBar :: "ui_env \<Rightarrow> signup_flow \<Rightarrow> 'a view" where
  "progressBar u fl =
    box ''View'' ''mb-8''
    [box ''View'' ''mb-2 flex-row justify-between''
      [textView u TextDefault (lit ''text-sm font-medium'') []
        [VText (lit ''Step ''),
          VText (intToString (int (stepIndex (sf_step fl)) + 1)),
          VText (lit '' of 3'')],
        textView u TextDefault (lit ''text-sm font-medium'') []
        [VText (intToString (progressPercentage fl)),
          VText (lit ''%'')]],
      box ''View'' ''flex-row gap-1''
      (progressSegments fl)]"

definition nameStepView :: "ui_env \<Rightarrow> signup_flow \<Rightarrow> signup_action view" where
  "nameStepView u fl =
    (let f = sf_form fl in box ''View'' ''mb-8''
    ([textView u TextDefault (lit ''mb-2 font-medium'') []
      [VText (lit ''What'' @ [39] @ lit ''s your full name?'')],
      textInputView u (if truthyOpt (fm_errors f (lit ''name'')) then FieldError
          else FieldDefault) [] ([(''autoFocus'', AFlag True), (''placeholder'', AText (lit ''Enter your full name'')),
              (''value'', AText (formText f ''name'')), (''onChangeText'', AEdit (\<lambda>t. Wizard (TypeName t))),
                  (''onBlur'', APress (Wizard BlurName)), (''returnKeyType'', AText (lit ''next'')),
                      (''submitBehavior'', AText (lit ''submit''))] @ (if isCurrentStepValid fl
                          then [(''onSubmitEditing'', APress (Wizard PressNext))] else []))]
      @ (if truthyOpt (fm_errors f (lit ''name'')) then [textView u TextError (lit ''mt-1 text-sm'') []
        [VText (the (fm_errors f (lit ''name'')))]] else [])
      @ [textView u TextSecondary (lit ''mt-2 text-sm'') []
      [VText (lit ''Please enter your full name'')]]))"

definition yearItems :: "int \<Rightarrow> rat picker_item list" where
  "yearItems year = map (\<lambda>(label, y). \<lparr>pi_label = label, pi_value = of_int y, pi_disabled = False\<rparr>) (birthYearOptions year)"

definition selectedYear :: "form \<Rightarrow> rat option" where
  "selectedYear f = (case fm_data f (lit ''birthYear'') of Some (JNum q) \<Rightarrow> Some q | _ \<Rightarrow> None)"

definition yearStepView :: "ui_env \<Rightarrow> int \<Rightarrow> bool \<Rightarrow> form \<Rightarrow> signup_action view" where
  "yearStepView u year isOpen f =
    VElem ''View'' []
    ([textView u TextDefault (lit ''mb-2 font-medium'') []
      [VText (lit ''What'' @ [39] @ lit ''s your birth year?'')]]
      @ map (map_view YearPicker) (pickerView u (yearItems year) (selectedYear f)
          (lit ''Select your birth year'') FieldDefault False [] (lit ''Select your birth year'') True isOpen)
      @ (if truthyOpt (fm_errors f (lit ''birthYear'')) then [textView u TextError (lit ''mt-1 text-sm'') []
        [VText (the (fm_errors f (lit ''birthYear'')))]] else [])
      @ [textView u TextSecondary (lit ''mt-2 text-sm'') []
      [VText (lit ''You must be at least 13 years old'')]])"

definition genderLabel :: "gender \<Rightarrow> jstring" where
  "genderLabel g = (case g of Male \<Rightarrow> lit ''Male'' | Female \<Rightarrow> lit ''Female'')"

definition genderButton :: "ui_env \<Rightarrow> svg_registry \<Rightarrow> form \<Rightarrow> gender \<Rightarrow> signup_action view" where
  "genderButton u reg f g =
    (let chosen = (fm_data f (lit ''gender'') = Some (JStr (genderText g))) in VElem ''View'' [(''className'', AText (lit ''flex-1''))]
    [VElem ''TouchableOpacity'' [(''className'', AText
        (lit ''w-full items-center justify-center rounded-lg border-2 py-4 '' @ (if chosen
            then lit ''border-indigo-600 bg-indigo-200/50 dark:border-indigo-500 dark:bg-indigo-900/50''
                else lit ''border-slate-200 dark:border-slate-700''))), (''onPress'', APress (Wizard (PressGender g))),
                    (''activeOpacity'', ANum 1)]
      (svgView u reg (genderText g) 28 28 None (Some (if chosen then ux_color u ''indigo'' 600
          else ux_color u ''slate'' 500)) (Some (if chosen then ux_color u ''indigo'' 400
              else ux_color u ''slate'' 400))
        @ [textView u TextDefault (lit ''mt-2 '' @ (if chosen then lit ''text-indigo-800 dark:text-indigo-200''
            else lit ''text-slate-800 dark:text-slate-200'')) []
        [VText (genderLabel g)]])])"

definition genderStepView :: "ui_env \<Rightarrow> svg_registry \<Rightarrow> form \<Rightarrow> signup_action view" where
  "genderStepView u reg f =
    VElem ''View'' []
    ([textView u TextDefault (lit ''mb-2 font-medium'') []
      [VText (lit ''What'' @ [39] @ lit ''s your gender?'')],
      box ''View'' ''flex-row gap-4''
      (map (genderButton u reg f) [Male, Female])]
      @ (if truthyOpt (fm_errors f (lit ''gender'')) then [textView u TextError (lit ''mt-1 text-sm'') []
        [VText (the (fm_errors f (lit ''gender'')))]] else [])
      @ [textView u TextSecondary (lit ''mt-2 text-sm'') []
      [VText (lit ''This helps us personalize your experience'')]])"

definition stepContent :: "ui_env \<Rightarrow> svg_registry \<Rightarrow> int \<Rightarrow> bool \<Rightarrow> signup_flow \<Rightarrow> signup_action view list" where
  "stepContent u reg year isOpen fl = (case sf_step fl of
       NameStep \<Rightarrow> [nameStepView u fl]
     | BirthYearStep \<Rightarrow> [yearStepView u year isOpen (sf_form fl)]
     | GenderStep \<Rightarrow> [genderStepView u reg (sf_form fl)])"

definition signupView :: "ui_env \<Rightarrow> svg_registry \<Rightarrow> int \<Rightarrow> bool \<Rightarrow> bool \<Rightarrow> signup_flow \<Rightarrow> signup_action view" where
  "signupView u reg year isOpen isLoading fl =
    VElem ''KeyboardAwareScrollView'' [(''flexGrow'', ANum 1), (''keyboardShouldPersistTaps'', AText (lit ''always'')),
        (''scrollEnabled'', AFlag False), (''className'', AText (lit ''bg-white dark:bg-slate-900''))]
    [VElem ''View'' [(''className'', AText (lit ''flex-1 px-4'')), (''paddingTop'', ANum (orTwenty (fst (ux_insets u)))),
        (''paddingBottom'', ANum (orTwenty (snd (ux_insets u))))]
      ([backButtonView u (lit ''mb-4 self-start'') [(''onPress'', APress (Wizard PressBack))],
        box ''View'' ''mb-8''
        [textView u TextDefault (lit ''mb-2 text-3xl font-semibold'') []
          [VText (lit ''Create your account'')],
          textView u TextSecondary [] []
          [VText (lit ''Complete your profile to get started'')]],
        progressBar u fl]
        @ stepContent u reg year isOpen fl
        @ [VElem ''View'' [(''className'', AText (lit ''flex-1 '' @ (if sf_step fl \<noteq> NameStep
            then lit ''justify-end'' else [])))]
        [buttonView u ButtonDefault (isLoading \<or> \<not> isCurrentStepValid fl) []
            [(''onPress'', APress (Wizard PressNext))]
          [VText (if isLoading then lit ''Please wait...'' else lit ''Next'')]]])]"

section \<open>The root, the tabs and the other screens\<close>

text \<open>
  The root layout: dark behind the authentication screens, else by the color scheme. What happens
  after a render: a toast is hidden when the path has changed, the splash screen goes when the
  stored session is read, and then the background is set.
\<close>

definition rootBackground :: "ui_env \<Rightarrow> auth_store \<Rightarrow> jstring" where
  "rootBackground u s = (if \<not> s_isAuthenticated s \<or> ux_isDark u then ux_color u ''slate'' 900 else ux_color u ''white'' 0)"

record root_effects =
  re_toast :: "toast option"
  re_hideSplash :: bool
  re_background :: "jstring option"

definition rootEffects :: "ui_env \<Rightarrow> jstring \<Rightarrow> jstring \<Rightarrow> auth_store \<Rightarrow> toast option \<Rightarrow> root_effects" where
  "rootEffects u previousPathname pathname s toast = \<lparr>
     re_toast = (if previousPathname \<noteq> pathname then hideToast False toast else toast),
     re_hideSplash = (\<not> s_isAuthLoading s),
     re_background = (if s_isAuthLoading s then None else Some (rootBackground u s))\<rparr>"

definition rootView :: "ui_env \<Rightarrow> auth_store \<Rightarrow> toast option \<Rightarrow> toast_event view list" where
  "rootView u s toast = (case rootLayout s of
       None \<Rightarrow> []
     | Some g \<Rightarrow> [VElem ''KeyboardProvider'' []
         (VElem ''Stack'' [(''headerShown'', AFlag False), (''backgroundColor'', AText (rootBackground u s))]
            [VElem ''Stack.Screen'' [(''name'', AText (case g of AuthScreens \<Rightarrow> lit ''(auth)'' | TabScreens \<Rightarrow> lit ''(tabs)''))] []]
          # toastView u toast)])"

definition authLayoutView :: "ui_env \<Rightarrow> 'a view" where
  "authLayoutView u = VElem ''Stack'' [(''headerShown'', AFlag False), (''backgroundColor'', AText (ux_color u ''slate'' 900))]
     (map (\<lambda>n. VElem ''Stack.Screen'' [(''name'', AText (lit n))] []) [''login'', ''signup'', ''otp'', ''demo''])"

text \<open>The tabs with their titles and icons; the icon of the tab that is shown is filled.\<close>

definition tabScreens :: "(string \<times> string \<times> string) list" where
  "tabScreens = [(''index'', ''Home'', ''home''), (''orders'', ''Orders'', ''bag''),
     (''messages'', ''Messages'', ''chatbubbles''), (''settings'', ''Settings'', ''gear'')]"

definition tabIconName :: "string \<Rightarrow> bool \<Rightarrow> jstring" where
  "tabIconName icon focused = lit (if focused then icon else icon @ ''Outline'')"

definition tabBarIcon :: "ui_env \<Rightarrow> svg_registry \<Rightarrow> string \<Rightarrow> bool \<Rightarrow> jstring \<Rightarrow> rat \<Rightarrow> 'a view list" where
  "tabBarIcon u reg icon focused color sz = svgView u reg (tabIconName icon focused) sz sz (Some color) None None"

definition tabsView :: "ui_env \<Rightarrow> 'a view" where
  "tabsView u = (let tint = (if ux_isDark u then ux_color u ''slate'' 200 else ux_color u ''slate'' 800) in
     VElem ''Tabs'' [(''headerShown'', AFlag False), (''tabBarHideOnKeyboard'', AFlag True),
       (''backgroundColor'', AText (if ux_isDark u then ux_color u ''slate'' 900 else ux_color u ''white'' 0)),
       (''borderTopColor'', AText (if ux_isDark u then ux_color u ''slate'' 700 else ux_color u ''slate'' 300)),
       (''elevation'', ANum 0), (''shadowOpacity'', ANum 0), (''paddingTop'', ANum 4),
       (''tabBarActiveTintColor'', AText tint), (''tabBarInactiveTintColor'', AText tint),
       (''width'', ANum 24), (''height'', ANum 24), (''marginBottom'', ANum 2),
       (''fontSize'', ANum 10), (''fontWeight'', AText (lit ''600''))]
       (map (\<lambda>(n, title, _). VElem ''Tabs.Screen'' [(''name'', AText (lit n)), (''title'', AText (lit title))] []) tabScreens))"

text \<open>The stacks of the tabs.\<close>

definition stackView :: "string list \<Rightarrow> 'a view" where
  "stackView names = VElem ''Stack'' [(''headerShown'', AFlag False)]
     (map (\<lambda>n. VElem ''Stack.Screen'' [(''name'', AText (lit n))] []) names)"

definition messagesLayout :: "'a view" where "messagesLayout = stackView [''index'', ''[id]'']"

definition ordersLayout :: "'a view" where "ordersLayout = stackView [''index'', ''[id]'']"

definition settingsLayout :: "'a view" where "settingsLayout = stackView [''index'']"

text \<open>The screen for unknown paths.\<close>

datatype not_found_press = GoHome | GoBack

datatype route_change = ReplaceRoute jstring | RouteBack

definition navigateToAppropriateScreen :: "bool \<Rightarrow> route_change" where
  "navigateToAppropriateScreen isAuthenticated = ReplaceRoute (if isAuthenticated then lit ''/(tabs)'' else lit ''/(auth)/login'')"

definition handleGoBack :: "bool \<Rightarrow> bool \<Rightarrow> route_change" where
  "handleGoBack canGoBack isAuthenticated = (if canGoBack then RouteBack else navigateToAppropriateScreen isAuthenticated)"

fun notFoundPress :: "bool \<Rightarrow> bool \<Rightarrow> not_found_press \<Rightarrow> route_change" where
  "notFoundPress canGoBack isAuthenticated GoHome = navigateToAppropriateScreen isAuthenticated"
| "notFoundPress canGoBack isAuthenticated GoBack = handleGoBack canGoBack isAuthenticated"

definition notFoundView :: "ui_env \<Rightarrow> not_found_press view" where
  "notFoundView u =
    box ''View'' ''flex-1 justify-center gap-8 bg-white px-4 dark:bg-slate-900''
    [VElem ''View'' []
      [textView u TextDefault (lit ''mb-2 text-center text-3xl font-bold'') []
        [VText (lit ''Not Found'')],
        textView u TextDefault (lit ''text-center'') []
        [VText (lit ''What you'' @ [39] @ lit ''re looking for isn'' @ [39]
            @ lit ''t here or has moved. Go back or explore the app to find what you need.'')]],
      box ''View'' ''gap-4''
      [buttonView u ButtonDefault False [] [(''onPress'', APress GoHome)]
        [VText (lit ''Go to Home'')],
        buttonView u ButtonOutline False [] [(''onPress'', APress GoBack)]
        [VText (lit ''Go Back'')]],
      VElem ''View'' []
      [textView u TextDefault (lit ''text-center'') []
        [VText (lit ''If you need help, please contact support.'')]]]"

definition homeView :: "ui_env \<Rightarrow> 'a view" where
  "homeView u =
    box ''View'' ''flex-1 items-center justify-center bg-white px-4 dark:bg-slate-900''
    [textView u TextDefault (lit ''mb-4 text-2xl font-bold text-gray-900'') []
      [VText (lit ''Home'')],
      textView u TextDefault (lit ''text-center text-gray-600'') []
      [VText (lit ''Dashboard will be here inshaAllah!'')]]"

definition messagesView :: "ui_env \<Rightarrow> 'a view" where
  "messagesView u =
    box ''View'' ''flex-1 items-center justify-center bg-white px-4 dark:bg-slate-900''
    [textView u TextDefault (lit ''mb-4 text-2xl font-bold text-gray-900'') []
      [VText (lit ''Messages'')],
      textView u TextDefault (lit ''text-center text-gray-600'') []
      [VText (lit ''Customer conversations will be here'')]]"

definition messageView :: "ui_env \<Rightarrow> 'a view" where
  "messageView u =
    box ''View'' ''flex-1 items-center justify-center bg-white px-4 dark:bg-slate-900''
    [textView u TextDefault (lit ''mb-4 text-2xl font-bold text-gray-900'') []
      [VText (lit ''Conversation'')],
      textView u TextDefault (lit ''text-center text-gray-600'') []
      [VText (lit ''Individual conversation with customer will be here'')]]"

definition ordersView :: "ui_env \<Rightarrow> 'a view" where
  "ordersView u =
    box ''View'' ''flex-1 items-center justify-center bg-white px-4 dark:bg-slate-900''
    [textView u TextDefault (lit ''mb-4 text-2xl font-bold text-gray-900'') []
      [VText (lit ''Orders'')],
      textView u TextDefault (lit ''text-center text-gray-600'') []
      [VText (lit ''Manage your orders here'')]]"

definition orderView :: "ui_env \<Rightarrow> 'a view" where
  "orderView u =
    box ''View'' ''flex-1 items-center justify-center bg-white px-4 dark:bg-slate-900''
    [textView u TextDefault (lit ''mb-4 text-2xl font-bold text-gray-900'') []
      [VText (lit ''Order Details'')],
      textView u TextDefault (lit ''text-center text-gray-600'') []
      [VText (lit ''Order details and status management will be here'')]]"

definition settingsView :: "ui_env \<Rightarrow> unit view" where
  "settingsView u =
    box ''View'' ''flex-1 items-center justify-center bg-white px-4 dark:bg-slate-900''
    [box ''View'' ''mb-6 items-center''
      [textView u TextDefault (lit ''mb-4 text-2xl font-bold text-gray-900'') []
        [VText (lit ''Settings'')],
        textView u TextDefault (lit ''text-gray-600'') []
        [VText (lit ''Manage your app settings here'')]],
      buttonView u ButtonDanger False [] [(''onPress'', APress ())]
      [VText (lit ''Log out'')]]"

datatype speech_press = SpeechPressStart | SpeechPressStop

definition speechView :: "ui_env \<Rightarrow> speech \<Rightarrow> speech_press view" where
  "speechView u s =
    box ''View'' ''mb-6 mt-16 w-full justify-between gap-4''
    ([textView u TextDefault (lit ''bg-gray-200 text-2xl font-bold'') []
      (case sp_transcript s of None \<Rightarrow> [] | Some t \<Rightarrow> [VText t])]
      @ (if \<not> sp_recognizing s then [buttonView u ButtonDefault False [] [(''onPress'', APress SpeechPressStart)]
        [VText (lit ''Start'')]] else [buttonView u ButtonDanger False [] [(''onPress'', APress SpeechPressStop)]
        [VText (lit ''Stop'')]]))"

section \<open>The image grid\<close>

definition isImageUploading :: "upload_state \<Rightarrow> jstring \<Rightarrow> bool" where
  "isImageUploading st imageUrl \<longleftrightarrow> imageUrl \<in> us_uploadingImages st"

definition isImageUploaded :: "upload_state \<Rightarrow> jstring \<Rightarrow> bool" where
  "isImageUploaded st imageUrl \<longleftrightarrow> imageUrl \<in> us_uploadedImages st"

datatype grid_press = GridPress nat | GridRemove nat | GridPick

definition gridImageView :: "ui_env \<Rightarrow> upload_state \<Rightarrow> bool \<Rightarrow> nat option \<Rightarrow> jstring \<Rightarrow> nat \<Rightarrow> jstring \<Rightarrow> grid_press view" where
  "gridImageView u st isSaving selectedIndex displayUrl index imageId =
    (let selected = (selectedIndex = Some index); uploading = isImageUploading st imageId; uploaded = isImageUploaded st imageId in
    VElem ''View'' [(''className'', AText (lit ''relative''))]
    ([VElem ''TouchableOpacity'' [(''activeOpacity'', ANum (if selected then 1 else 1 / 2)),
        (''onPress'', APress (GridPress index))]
      ([VElem ''Image'' [(''source'', AText displayUrl), (''className'', AText (lit ''h-20 w-20 rounded-lg'')),
          (''resizeMode'', AText (lit ''cover''))] []]
        @ (if uploading then [box ''View'' ''absolute inset-0 items-center justify-center rounded-lg bg-black/50''
          [VElem ''ActivityIndicator'' [(''size'', AText (lit ''large'')), (''color'', AText (lit ''white''))] []]] else [])
        @ (if uploaded
            then [box ''View'' ''absolute -right-2 -top-2 h-6 w-6 items-center justify-center rounded-full bg-green-600 dark:bg-green-500''
          [iconView u ''checkmark'' 16 (Some (lit ''white'')) None None]] else [])
        @ (if selected then [box ''View'' ''absolute inset-0 items-center justify-center rounded-lg bg-black/50 p-1''
          [textView u TextDefault (lit ''text-center text-xs font-semibold text-white'') []
            [VText (lit ''Tap on an image'')]]] else []))]
      @ (if selected \<and> \<not> isSaving \<and> \<not> uploading \<and> \<not> uploaded
          then [VElem ''TouchableOpacity'' [(''onPress'', APress (GridRemove index)), (''className'', AText
              (lit ''absolute -right-2 -top-2 h-6 w-6 items-center justify-center rounded-full bg-red-600 dark:bg-red-500''))]
        [iconView u ''close'' 16 (Some (lit ''white'')) None None]] else [])))"

definition gridAddView :: "ui_env \<Rightarrow> bool \<Rightarrow> grid_press view" where
  "gridAddView u isPicking =
    VElem ''TouchableOpacity'' [(''onPress'', APress GridPick), (''disabled'', AFlag isPicking), (''className'', AText
        (lit ''h-20 w-20 items-center justify-center rounded-lg border-2 border-dashed border-gray-400 dark:border-gray-500'')), (''opacity'', ANum (if isPicking then 1 / 2 else 1))]
    (if isPicking then [VElem ''ActivityIndicator'' [(''size'', AText (lit ''large''))] []] else [iconView u ''add'' 24 None (Some (ux_color u ''slate'' 600)) (Some (ux_color u ''slate'' 400)),
        textView u TextSecondary (lit ''text-sm font-medium'') []
        [VText (lit ''Add'')]])"

definition imageGridView :: "ui_env \<Rightarrow> upload_state \<Rightarrow> bool \<Rightarrow> nat option \<Rightarrow> (jstring \<Rightarrow> jstring) \<Rightarrow> nat \<Rightarrow> jstring list \<Rightarrow> grid_press view" where
  "imageGridView u st isSaving selectedIndex displayUrl maxImages images =
     box ''View'' ''flex-row flex-wrap gap-4''
       (map (\<lambda>(index, imageId). gridImageView u st isSaving selectedIndex (displayUrl imageId) index imageId) (enumerate 0 images)
        @ (if length images < maxImages then [gridAddView u (us_isPicking st)] else []))"

section \<open>What the screens offer\<close>

lemma login_offers:
  "presses (loginView u reg am available i f) =
     (if am_phone am \<and> \<not> phoneButtonDisabled i f then [LoginPress (PressPhone f)] else [])
     @ (if am_google am \<and> \<not> ui_googleLoading i then [LoginPress PressGoogle] else [])
     @ (if am_apple am \<and> available \<and> \<not> ui_appleLoading i then [LoginPress PressApple] else [])
     @ [OpenUrl TERMS_URL, OpenUrl PRIVACY_URL]"
  by (simp add: loginView_def ownPress_def textInputView_def)

lemma login_fields:
  "edits (loginView u reg am available i f) = (if am_phone am then [TypePhone] else [])"
  by (simp add: loginView_def ownEdit_def textInputView_def)

lemma code_offers:
  "presses (codeView u w input) = OtpBack # (if resendDisabled w then [] else [OtpResend])"
  "edits (codeView u w input) = (if s_isLoading (cl_store w) then [] else [OtpTyped])"
  by (simp_all add: codeView_def otpInputView_def hiddenStyle_def ownPress_def ownEdit_def comp_def)

lemma selectable_years:
  "map (\<lambda>(i, _). SelectItem i) (filter (\<lambda>(_, item). \<not> pi_disabled item) (enumerate 0 (yearItems year)))
     = map SelectItem [0..<length (birthYearOptions year)]"
proof -
  have "filter (\<lambda>(_, item). \<not> pi_disabled item) (enumerate 0 (yearItems year)) = enumerate 0 (yearItems year)"
    by (auto simp: filter_id_conv in_set_enumerate_eq yearItems_def split: prod.splits)
  then show ?thesis
    by (intro nth_equalityI) (simp_all add: yearItems_def nth_enumerate_eq)
qed

lemma presses_year_picker:
  "concat (map (\<lambda>x. map YearPicker (presses x)) (pickerView u (yearItems year) s ph v False cls title c isOpen))
     = map YearPicker (OpenPicker # (if isOpen
         then ClosePicker # ClosePicker # map SelectItem [0..<length (birthYearOptions year)] else []))"
proof -
  have "concat (map (\<lambda>x. map YearPicker (presses x)) vs) = map YearPicker (concat (map presses vs))" for vs
    by (simp add: map_concat comp_def)
  then show ?thesis
    by (simp add: presses_picker selectable_years del: map_map)
qed

lemma signup_offers:
  "presses (signupView u reg year isOpen isLoading fl) = Wizard PressBack
     # (case sf_step fl of
          NameStep \<Rightarrow> []
        | BirthYearStep \<Rightarrow> map YearPicker (OpenPicker # (if isOpen
            then ClosePicker # ClosePicker # map SelectItem [0..<length (birthYearOptions year)] else []))
        | GenderStep \<Rightarrow> [Wizard (PressGender Male), Wizard (PressGender Female)])
     @ (if isLoading \<or> \<not> isCurrentStepValid fl then [] else [Wizard PressNext])"
  by (cases "sf_step fl")
    (simp_all add: signupView_def stepContent_def ownPress_def progressBar_def progressSegments_def nameStepView_def
      textInputView_def yearStepView_def genderStepView_def genderButton_def Let_def presses_map_view comp_def
      presses_year_picker)

lemma signup_fields:
  "edits (signupView u reg year isOpen isLoading fl) = (if sf_step fl = NameStep then [\<lambda>t. Wizard (TypeName t)] else [])"
  by (cases "sf_step fl")
    (auto simp: signupView_def stepContent_def ownEdit_def progressBar_def progressSegments_def nameStepView_def
      textInputView_def yearStepView_def genderStepView_def genderButton_def Let_def edits_map_view edits_picker)

lemma bareTexts_login: "bareTexts (loginView u reg am available i f) = []"
  by (simp add: loginView_def)

lemma bareTexts_code: "bareTexts (codeView u w input) = []"
  by (simp add: codeView_def)

lemma bareTexts_signup: "bareTexts (signupView u reg year isOpen isLoading fl) = []"
  by (cases "sf_step fl")
    (simp_all add: signupView_def stepContent_def progressBar_def progressSegments_def nameStepView_def yearStepView_def
      genderStepView_def genderButton_def Let_def comp_def)

lemma bareTexts_root: "concat (map bareTexts (rootView u s toast)) = []"
  by (cases "rootLayout s"; cases toast; simp add: rootView_def toastView_def)

lemma bareTexts_grid: "bareTexts (imageGridView u st isSaving selectedIndex displayUrl maxImages images) = []"
  by (auto simp: imageGridView_def gridImageView_def gridAddView_def Let_def)

lemma bareTexts_layouts: "bareTexts (authLayoutView u) = []" "bareTexts (tabsView u) = []" "bareTexts (stackView names) = []"
  by (simp_all add: authLayoutView_def tabsView_def stackView_def tabScreens_def Let_def comp_def)

lemma bareTexts_plain:
  "bareTexts (notFoundView u) = []" "bareTexts (homeView u) = []" "bareTexts (messagesView u) = []"
  "bareTexts (messageView u) = []" "bareTexts (ordersView u) = []" "bareTexts (orderView u) = []"
  "bareTexts (settingsView u) = []" "bareTexts (speechView u speech) = []"
  by (simp_all add: notFoundView_def homeView_def messagesView_def messageView_def ordersView_def orderView_def
      settingsView_def speechView_def split: option.splits)

end
