(* ===== verification/SignupTaps.thy ===== *)
theory SignupTaps
  imports ScreenViews
begin

text \<open>
  The signup screen in use: the wizard of \<open>ClientForms\<close> behind the tree of \<open>ScreenViews\<close>. A gesture
  of the user hits what the tree offers at that moment; the handlers change the wizard and the
  picker, and the tree is rendered again. From every state of the screen whose store is not busy
  the user can enter and submit every profile that the schema accepts, among the names that the
  field can show: it capitalizes what is typed.
\<close>

section \<open>The screen as a machine\<close>

record signup_ui =
  su_screen :: signup_screen
  su_open :: bool
  su_loading :: bool

abbreviation su_flow :: "signup_ui \<Rightarrow> signup_flow" where
  "su_flow st \<equiv> ss_flow (su_screen st)"

text \<open>
  \<open>su_loading\<close> is the store's \<open>isLoading\<close>: a submission starts a call of the service, which sets
  it, unless there is nobody to sign up; the end of the call clears it.
\<close>

definition startsCall :: "signup_params \<Rightarrow> signup_screen \<Rightarrow> signup_screen \<Rightarrow> bool" where
  "startsCall p s s' \<longleftrightarrow> ss_submitted s' \<noteq> ss_submitted s \<and> (isOAuthSignup p \<or> truthyOpt (sp_phone p))"

definition callEnds :: "signup_ui \<Rightarrow> signup_ui" where
  "callEnds st = st\<lparr>su_loading := False\<rparr>"

text \<open>The picker lives only in its own step: it is closed when it is mounted again.\<close>

definition keptOpen :: "signup_ui \<Rightarrow> signup_screen \<Rightarrow> bool" where
  "keptOpen st s \<longleftrightarrow> sf_step (su_flow st) = BirthYearStep \<and> sf_step (ss_flow s) = BirthYearStep \<and> su_open st"

fun signupAction :: "jstring \<Rightarrow> ext \<Rightarrow> int \<Rightarrow> signup_params \<Rightarrow> signup_ui \<Rightarrow> signup_action \<Rightarrow> signup_ui" where
  "signupAction own x year p st (Wizard e) =
     (let s = signupEvent own x year (signupShape x year p) (su_screen st) e in
      \<lparr>su_screen = s, su_open = keptOpen st s, su_loading = (su_loading st \<or> startsCall p (su_screen st) s)\<rparr>)"
| "signupAction own x year p st (YearPicker OpenPicker) = st\<lparr>su_open := pickerOpen False (su_open st)\<rparr>"
| "signupAction own x year p st (YearPicker ClosePicker) = st\<lparr>su_open := closeModal (su_open st)\<rparr>"
| "signupAction own x year p st (YearPicker (SelectItem i)) =
     (if i < length (yearItems year)
      then case handleItemSelect (yearItems year ! i) i (su_open st) of (isOpen, call) \<Rightarrow>
        st\<lparr>su_screen := (case call of
             None \<Rightarrow> su_screen st
           | Some (_, j) \<Rightarrow> signupEvent own x year (signupShape x year p) (su_screen st) (SelectYear j)),
         su_open := isOpen\<rparr>
      else st)"

text \<open>The timer that opens the picker after the step of the birth year has appeared.\<close>

definition openPickerTimer :: "signup_ui \<Rightarrow> signup_ui" where
  "openPickerTimer st =
     (if sf_step (su_flow st) = BirthYearStep then st\<lparr>su_open := pickerOpen False (su_open st)\<rparr> else st)"

definition signupGesture :: "ui_env \<Rightarrow> svg_registry \<Rightarrow> jstring \<Rightarrow> ext \<Rightarrow> int \<Rightarrow> signup_params \<Rightarrow> signup_ui \<Rightarrow> gesture \<Rightarrow> signup_ui" where
  "signupGesture u reg own x year p st g =
     (case gestured (signupView u reg year (su_open st) (su_loading st) (su_flow st)) g of
        None \<Rightarrow> st
      | Some a \<Rightarrow> signupAction own x year p st a)"

section \<open>What the user can reach\<close>

definition canReach :: "ui_env \<Rightarrow> svg_registry \<Rightarrow> jstring \<Rightarrow> ext \<Rightarrow> int \<Rightarrow> signup_params \<Rightarrow> signup_ui \<Rightarrow> signup_ui \<Rightarrow> bool" where
  "canReach u reg own x year p st st' \<longleftrightarrow> (\<exists>gs. foldl (signupGesture u reg own x year p) st gs = st')"

lemma canReach_trans [trans]:
  "canReach u reg own x year p a b \<Longrightarrow> canReach u reg own x year p b c \<Longrightarrow> canReach u reg own x year p a c"
  unfolding canReach_def by (metis foldl_append)

lemma canReach_refl: "canReach u reg own x year p a a"
  unfolding canReach_def by (metis foldl_Nil)

lemma canReach_gesture:
  assumes "gestured (signupView u reg year (su_open st) (su_loading st) (su_flow st)) g = Some a"
  shows "canReach u reg own x year p st (signupAction own x year p st a)"
  unfolding canReach_def by (rule exI[of _ "[g]"]) (simp add: signupGesture_def assms)

lemma canReach_press:
  assumes "a \<in> set (presses (signupView u reg year (su_open st) (su_loading st) (su_flow st)))"
  shows "canReach u reg own x year p st (signupAction own x year p st a)"
  using gesture_of_press[OF assms] canReach_gesture by blast

lemma canReach_type:
  assumes "sf_step (su_flow st) = NameStep"
  shows "canReach u reg own x year p st (signupAction own x year p st (Wizard (TypeName t)))"
proof -
  have "(\<lambda>t. Wizard (TypeName t)) \<in> set (edits (signupView u reg year (su_open st) (su_loading st) (su_flow st)))"
    using assms by (simp add: signup_fields)
  from gesture_of_edit[OF this] canReach_gesture show ?thesis by blast
qed

text \<open>Back is always offered, the chooser of a step in it, and Next when the step looks valid.\<close>

lemma canReach_back: "canReach u reg own x year p st (signupAction own x year p st (Wizard PressBack))"
  by (rule canReach_press) (simp add: signup_offers)

lemma canReach_open:
  "sf_step (su_flow st) = BirthYearStep \<Longrightarrow> canReach u reg own x year p st (st\<lparr>su_open := True\<rparr>)"
  using canReach_press[of "YearPicker OpenPicker" u reg year st own x p]
  by (simp add: signup_offers pickerOpen_def)

lemma canReach_select:
  assumes "sf_step (su_flow st) = BirthYearStep" "su_open st" "i < length (birthYearOptions year)"
  shows "canReach u reg own x year p st
    (st\<lparr>su_screen := signupEvent own x year (signupShape x year p) (su_screen st) (SelectYear i), su_open := False\<rparr>)"
proof -
  have "YearPicker (SelectItem i) \<in> set (presses (signupView u reg year (su_open st) (su_loading st) (su_flow st)))"
    using assms by (auto simp: signup_offers)
  from canReach_press[OF this, of own x p] show ?thesis
    using assms(3) by (simp add: handleItemSelect_def yearItems_def split_beta)
qed

lemma canReach_gender:
  "sf_step (su_flow st) = GenderStep
    \<Longrightarrow> canReach u reg own x year p st (signupAction own x year p st (Wizard (PressGender g)))"
  by (rule canReach_press) (cases g; simp add: signup_offers)

lemma canReach_next:
  "isCurrentStepValid (su_flow st) \<Longrightarrow> \<not> su_loading st
    \<Longrightarrow> canReach u reg own x year p st (signupAction own x year p st (Wizard PressNext))"
  by (rule canReach_press) (simp add: signup_offers)

section \<open>The way to a submission\<close>

fun nextStep :: "signup_step \<Rightarrow> signup_step" where
  "nextStep NameStep = BirthYearStep"
| "nextStep BirthYearStep = GenderStep"
| "nextStep GenderStep = GenderStep"

text \<open>A step whose answer is valid is left by Next, the last one with a submission.\<close>

lemma next_moves:
  assumes "isCurrentStepValid (ss_flow s)" "fieldOk sh (sf_form (ss_flow s)) (stepField (sf_step (ss_flow s)))"
  obtains g where "fm_data g = fm_data (sf_form (ss_flow s))"
    and "pressNext own sh s = s\<lparr>ss_flow := \<lparr>sf_step = nextStep (sf_step (ss_flow s)), sf_form = g\<rparr>,
      ss_submitted := ss_submitted s @ (if sf_step (ss_flow s) = GenderStep then [g] else [])\<rparr>"
proof -
  let ?f = "sf_form (ss_flow s)" and ?k = "stepField (sf_step (ss_flow s))"
  obtain b g where v: "form_validate own sh (Some ?k) ?f = (b, g)" by fastforce
  have k: "?k \<noteq> []" by (cases "sf_step (ss_flow s)") simp_all
  have "b" "fm_data g = fm_data ?f"
    using form_validate_field(1,2)[OF k, of own sh ?f] assms(2) v by simp_all
  with assms(1) v show thesis
    by (intro that[of g]) (cases "sf_step (ss_flow s)"; simp add: pressNext_def handleNext_def)+
qed

text \<open>The answers that the schema accepts.\<close>

definition acceptedProfile :: "ext \<Rightarrow> int \<Rightarrow> jstring \<Rightarrow> int \<Rightarrow> bool" where
  "acceptedProfile x year name y \<longleftrightarrow> userName x (Some (JStr name)) \<in> range Inr
     \<and> birthYear year (Some (JNum (of_int y))) = Inr y"

lemma accepted_name: "acceptedProfile x year name y \<Longrightarrow> fm_data f (lit ''name'') = Some (JStr name)
    \<Longrightarrow> fieldOk (signupShape x year p) f (lit ''name'')"
  and accepted_year: "acceptedProfile x year name y \<Longrightarrow> fm_data f (lit ''birthYear'') = Some (JNum (of_int y))
    \<Longrightarrow> fieldOk (signupShape x year p) f (lit ''birthYear'')"
  and accepted_gender: "fm_data f (lit ''gender'') = Some (JStr (genderText g)) \<Longrightarrow> fieldOk (signupShape x year p) f (lit ''gender'')"
  by (cases g; auto simp: acceptedProfile_def signupShape_def phoneSignupShape_def oauthSignupShape_def
    fieldOk_def gender_def zEnum_def genderText_def)+

lemma accepted_trim: "acceptedProfile x year name y \<Longrightarrow> trim name \<noteq> []"
  by (auto simp: acceptedProfile_def userName_def andThen_def refineAll_def zNonempty_def failMsg_def Let_def
      split: sum.splits if_splits)

lemma accepted_year_offered:
  assumes "acceptedProfile x year name y" "year - 13 < 2 ^ 53"
  obtains i where "i < length (birthYearOptions year)" "snd (birthYearOptions year ! i) = y" "1900 \<le> y"
proof -
  from assms obtain l where "(l, y) \<in> set (birthYearOptions year)"
    using picker_years_are_valid[OF assms(2), of y] by (auto simp: acceptedProfile_def)
  moreover from this have "1900 \<le> y"
    using set_yearsDown[of "year - 13"] unfolding birthYearOptions_def by force
  ultimately show thesis using that by (auto simp: in_set_conv_nth)
qed

text \<open>Back to the first step.\<close>

lemma canReach_start:
  "\<exists>st'. canReach u reg own x year p st st' \<and> sf_step (su_flow st') = NameStep
     \<and> ss_submitted (su_screen st') = ss_submitted (su_screen st) \<and> ss_left (su_screen st') = ss_left (su_screen st)
     \<and> su_loading st' = su_loading st"
proof -
  let ?goBack = "\<lambda>st. signupAction own x year p st (Wizard PressBack)"
  have pressed: "canReach u reg own x year p st (?goBack st)" for st by (rule canReach_back)
  show ?thesis
  proof (cases "sf_step (su_flow st)")
    case NameStep
    then show ?thesis by (blast intro: canReach_refl)
  next
    case BirthYearStep
    then show ?thesis
      by (intro exI[of _ "?goBack st"] conjI pressed) (simp_all add: signup_handleBack_def signupSteps_def Let_def startsCall_def)
  next
    case GenderStep
    have "canReach u reg own x year p st (?goBack (?goBack st))"
      using pressed[of st] pressed[of "?goBack st"] by (rule canReach_trans)
    with GenderStep show ?thesis
      by (intro exI[of _ "?goBack (?goBack st)"] conjI) (simp_all add: signup_handleBack_def signupSteps_def Let_def startsCall_def)
  qed
qed

text \<open>One step: an answer is set, it looks valid and it is valid, and Next leads on.\<close>

lemma canReach_answered:
  assumes r: "canReach u reg own x year p st st1"
    and valid: "isCurrentStepValid (su_flow st1)" "\<not> su_loading st1"
    and ok: "fieldOk (signupShape x year p) (sf_form (su_flow st1)) (stepField (sf_step (su_flow st1)))"
  obtains st2 where "canReach u reg own x year p st st2"
    and "sf_step (su_flow st2) = nextStep (sf_step (su_flow st1))"
    and "fm_data (sf_form (su_flow st2)) = fm_data (sf_form (su_flow st1))"
    and "ss_submitted (su_screen st2) = ss_submitted (su_screen st1)
      @ (if sf_step (su_flow st1) = GenderStep then [sf_form (su_flow st2)] else [])"
    and "ss_left (su_screen st2) = ss_left (su_screen st1)"
    and "su_loading st2 = (sf_step (su_flow st1) = GenderStep \<and> (isOAuthSignup p \<or> truthyOpt (sp_phone p)))"
proof -
  note reach = canReach_trans[OF r canReach_next[OF valid, of u reg own x year p]]
  from next_moves[OF valid(1) ok, of own] obtain g where "fm_data g = fm_data (sf_form (su_flow st1))"
    "pressNext own (signupShape x year p) (su_screen st1) = (su_screen st1)\<lparr>ss_flow := \<lparr>sf_step = nextStep (sf_step (su_flow st1)), sf_form = g\<rparr>,
      ss_submitted := ss_submitted (su_screen st1) @ (if sf_step (su_flow st1) = GenderStep then [g] else [])\<rparr>"
    by blast
  then show thesis
    using valid(2) by (intro that[OF reach]) (simp_all add: Let_def startsCall_def)
qed

text \<open>Where the user is on the way: the step and the answers given so far.\<close>

definition onTheWay :: "signup_ui \<Rightarrow> signup_step \<Rightarrow> (string \<times> json) list \<Rightarrow> signup_ui \<Rightarrow> bool" where
  "onTheWay st k answers st' \<longleftrightarrow> sf_step (su_flow st') = k \<and> \<not> su_loading st'
     \<and> ss_submitted (su_screen st') = ss_submitted (su_screen st) \<and> ss_left (su_screen st') = ss_left (su_screen st)
     \<and> list_all (\<lambda>(field, v). fm_data (sf_form (su_flow st')) (lit field) = Some v) answers"

lemma onTheWay_next:
  assumes "canReach u reg own x year p a b" "onTheWay st k answers b" "k \<noteq> GenderStep"
    and "isCurrentStepValid (su_flow b)" "fieldOk (signupShape x year p) (sf_form (su_flow b)) (stepField k)"
  shows "\<exists>c. canReach u reg own x year p a c \<and> onTheWay st (nextStep k) answers c"
proof -
  have k: "sf_step (su_flow b) = k" "\<not> su_loading b" using assms(2) by (simp_all add: onTheWay_def)
  have ok: "fieldOk (signupShape x year p) (sf_form (su_flow b)) (stepField (sf_step (su_flow b)))"
    using assms(5) k(1) by simp
  obtain c where "canReach u reg own x year p a c" "sf_step (su_flow c) = nextStep k"
      "fm_data (sf_form (su_flow c)) = fm_data (sf_form (su_flow b))"
      "ss_submitted (su_screen c) = ss_submitted (su_screen b)" "ss_left (su_screen c) = ss_left (su_screen b)"
      "\<not> su_loading c"
    by (rule canReach_answered[OF assms(1,4) k(2) ok]) (rule that, assumption, simp_all add: k assms(3))
  with assms(2) show ?thesis by (auto simp: onTheWay_def)
qed

lemmas answering = onTheWay_def updateForm_def isCurrentStepValid_def form_set_def updateFieldError_def Let_def startsCall_def

lemma on_to_year:
  assumes "onTheWay st NameStep [] a" "acceptedProfile x year (capitalizeWords (x_toUpperCase x) (x_toLowerCase x) text) y"
  shows "\<exists>b. canReach u reg own x year p a b \<and> onTheWay st BirthYearStep
    [(''name'', JStr (capitalizeWords (x_toUpperCase x) (x_toLowerCase x) text))] b"
proof -
  let ?b = "signupAction own x year p a (Wizard (TypeName text))"
  have "onTheWay st NameStep [(''name'', JStr (capitalizeWords (x_toUpperCase x) (x_toLowerCase x) text))] ?b"
    and "isCurrentStepValid (su_flow ?b)"
    using assms accepted_trim[OF assms(2)] by (simp_all add: answering)
  with onTheWay_next[OF canReach_type this(1)] accepted_name[OF assms(2)] assms(1) show ?thesis
    by (simp add: onTheWay_def)
qed

lemma on_to_gender:
  assumes "onTheWay st BirthYearStep [(''name'', JStr name)] a" "acceptedProfile x year name y" "year - 13 < 2 ^ 53"
  shows "\<exists>b. canReach u reg own x year p a b
    \<and> onTheWay st GenderStep [(''name'', JStr name), (''birthYear'', JNum (of_int y))] b"
proof -
  let ?sh = "signupShape x year p"
  obtain i where i: "i < length (birthYearOptions year)" "snd (birthYearOptions year ! i) = y" "1900 \<le> y"
    using accepted_year_offered[OF assms(2,3)] .
  let ?b = "a\<lparr>su_screen := signupEvent own x year ?sh (su_screen a) (SelectYear i), su_open := False\<rparr>"
  have k: "sf_step (su_flow a) = BirthYearStep" using assms(1) by (simp add: onTheWay_def)
  have "canReach u reg own x year p a (a\<lparr>su_open := True\<rparr>)" by (rule canReach_open[OF k])
  also have "canReach u reg own x year p (a\<lparr>su_open := True\<rparr>) ?b"
    using canReach_select[of "a\<lparr>su_open := True\<rparr>" i year u reg own x p] k i(1) by simp
  finally have r: "canReach u reg own x year p a ?b" .
  have "onTheWay st BirthYearStep [(''name'', JStr name), (''birthYear'', JNum (of_int y))] ?b"
    and "isCurrentStepValid (su_flow ?b)"
    using assms(1) i by (simp_all add: answering)
  with onTheWay_next[OF r this(1)] accepted_year[OF assms(2)] show ?thesis
    by (simp add: onTheWay_def)
qed

text \<open>
  C28. Every profile the name field can show can be submitted: whatever the state of the signup
  screen, if its store is not busy the user can, by presses and typed texts that the rendered
  screen offers at that moment, submit every year and every name that the schema accepts,
  among the names as the field writes them (it capitalizes the words of whatever is typed),
  with either gender, without leaving the screen; exactly one form is submitted, and the store
  is busy afterwards if the screen knows whom to sign up. Other names, such as one in small
  letters, are accepted by the schema but cannot be entered.
\<close>

theorem every_profile_can_be_submitted:
  assumes "acceptedProfile x year (capitalizeWords (x_toUpperCase x) (x_toLowerCase x) text) y" "year - 13 < 2 ^ 53"
    and "\<not> su_loading st"
  shows "\<exists>gs f st'. foldl (signupGesture u reg own x year p) st gs = st'
      \<and> ss_submitted (su_screen st') = ss_submitted (su_screen st) @ [f]
      \<and> fm_data f (lit ''name'') = Some (JStr (capitalizeWords (x_toUpperCase x) (x_toLowerCase x) text))
      \<and> fm_data f (lit ''birthYear'') = Some (JNum (of_int y))
      \<and> fm_data f (lit ''gender'') = Some (JStr (genderText g))
      \<and> ss_left (su_screen st') = ss_left (su_screen st)
      \<and> su_loading st' = (isOAuthSignup p \<or> truthyOpt (sp_phone p))"
proof -
  let ?name = "capitalizeWords (x_toUpperCase x) (x_toLowerCase x) text" and ?sh = "signupShape x year p"
  let ?reach = "canReach u reg own x year p"
  obtain a where a: "?reach st a" "onTheWay st NameStep [] a"
    using canReach_start[of u reg own x year p st] assms(3) by (fastforce simp: onTheWay_def)
  obtain b where b: "?reach a b" "onTheWay st BirthYearStep [(''name'', JStr ?name)] b"
    using on_to_year[OF a(2) assms(1)] by blast
  obtain c where c: "?reach b c" "onTheWay st GenderStep [(''name'', JStr ?name), (''birthYear'', JNum (of_int y))] c"
    using on_to_gender[OF b(2) assms(1,2)] by blast
  define d where "d = signupAction own x year p c (Wizard (PressGender g))"
  have d: "onTheWay st GenderStep [(''name'', JStr ?name), (''birthYear'', JNum (of_int y)), (''gender'', JStr (genderText g))] d"
    and valid: "isCurrentStepValid (su_flow d)" "\<not> su_loading d"
    unfolding d_def using c(2) by (cases g; simp add: answering genderText_def)+
  have k: "sf_step (su_flow d) = GenderStep" "sf_step (su_flow c) = GenderStep"
    using c(2) d by (simp_all add: onTheWay_def)
  have "?reach st d"
    using a(1) b(1) c(1) canReach_gender[OF k(2), of u reg own x year p g] unfolding d_def
    by (blast intro: canReach_trans)
  moreover have "fieldOk ?sh (sf_form (su_flow d)) (stepField GenderStep)"
    using d by (auto simp: onTheWay_def intro: accepted_gender)
  moreover have "sf_step (su_flow d) = GenderStep" by (rule k)
  ultimately have reach: "?reach st d" and ok: "fieldOk ?sh (sf_form (su_flow d)) (stepField (sf_step (su_flow d)))"
    by simp_all
  obtain e where e: "?reach st e" "fm_data (sf_form (su_flow e)) = fm_data (sf_form (su_flow d))"
      "ss_submitted (su_screen e) = ss_submitted (su_screen d) @ [sf_form (su_flow e)]"
      "ss_left (su_screen e) = ss_left (su_screen d)" "su_loading e = (isOAuthSignup p \<or> truthyOpt (sp_phone p))"
    by (rule canReach_answered[OF reach valid ok]) (rule that, assumption, simp_all add: k)
  then obtain gs where "foldl (signupGesture u reg own x year p) st gs = e" unfolding canReach_def by blast
  with d e show ?thesis
    by (intro exI[of _ gs] exI[of _ "sf_form (su_flow e)"] exI[of _ e]) (simp add: onTheWay_def)
qed

definition sample_signup_ui :: signup_ui where
  "sample_signup_ui = \<lparr>su_screen = signupScreen sample_ext 1913 sample_signup_params, su_open = False, su_loading = False\<rparr>"

text \<open>A light screen of 800 points, and classes that are only joined.\<close>

definition sample_ui_env :: ui_env where
  "sample_ui_env = \<lparr>ux_cn = \<lambda>cs. join (lit '' '') (filter (\<lambda>c. c \<noteq> []) cs),
     ux_color = \<lambda>name shade. lit name @ natToString 10 shade, ux_isDark = False, ux_insets = (0, 0), ux_screenHeight = 800\<rparr>"

theorem every_profile_can_be_submitted_witness:
  "\<exists>gs. length (ss_submitted (su_screen (foldl (signupGesture sample_ui_env appSvgRegistry [] sample_ext 1913
     sample_signup_params) sample_signup_ui gs))) = 1"
proof -
  have "acceptedProfile sample_ext 1913 (capitalizeWords (x_toUpperCase sample_ext) (x_toLowerCase sample_ext) (lit ''Ada'')) 1900"
    by (simp add: acceptedProfile_def sample_name sample_profile)
  from every_profile_can_be_submitted[OF this, of sample_signup_ui sample_ui_env appSvgRegistry "[]" sample_signup_params Female]
  obtain gs f where "ss_submitted (su_screen (foldl (signupGesture sample_ui_env appSvgRegistry [] sample_ext 1913
      sample_signup_params) sample_signup_ui gs)) = ss_submitted (su_screen sample_signup_ui) @ [f]"
    by (auto simp: sample_signup_ui_def)
  then show ?thesis
    by (intro exI[of _ gs]) (simp add: sample_signup_ui_def signupScreen_def)
qed

section \<open>What the user cannot reach\<close>

lemma gestured_offered: "gestured v g = Some a \<Longrightarrow> a \<in> set (presses v) \<or> (\<exists>f \<in> set (edits v). \<exists>t. a = f t)"
  by (cases g) (auto split: if_splits intro: nth_mem)

text \<open>While the store is busy no gesture submits anything.\<close>

lemma busy_submits_nothing:
  assumes "su_loading st"
  shows "ss_submitted (su_screen (signupGesture u reg own x year p st g)) = ss_submitted (su_screen st)"
proof -
  have other: "ss_submitted (signupEvent own x year sh s e) = ss_submitted s" if "e \<noteq> PressNext" for sh s e
    using that by (cases e) (simp_all add: updateForm_def split: option.splits)
  have "a \<noteq> Wizard PressNext"
    if "gestured (signupView u reg year (su_open st) (su_loading st) (su_flow st)) g = Some a" for a
    using that assms
    by (auto dest!: gestured_offered simp: signup_offers signup_fields split: if_splits signup_step.splits)
  then have "ss_submitted (su_screen (signupAction own x year p st a)) = ss_submitted (su_screen st)"
    if "gestured (signupView u reg year (su_open st) (su_loading st) (su_flow st)) g = Some a" for a
    using that other
    by (cases "(own, x, year, p, st, a)" rule: signupAction.cases)
      (auto simp: Let_def handleItemSelect_def updateForm_def split: prod.splits option.splits)
  then show ?thesis by (simp add: signupGesture_def split: option.splits)
qed

text \<open>The name in the form is empty, as at the start, or a typed text with its words capitalized.\<close>

definition namedAsTyped :: "ext \<Rightarrow> form \<Rightarrow> bool" where
  "namedAsTyped x f \<longleftrightarrow> fm_data f (lit ''name'') \<in> {None, Some (JStr [])}
     \<union> range (\<lambda>t. Some (JStr (capitalizeWords (x_toUpperCase x) (x_toLowerCase x) t)))"

definition typedNames :: "ext \<Rightarrow> signup_screen \<Rightarrow> bool" where
  "typedNames x s \<longleftrightarrow> namedAsTyped x (sf_form (ss_flow s)) \<and> list_all (namedAsTyped x) (ss_submitted s)"

lemma namedAsTyped_cong: "fm_data g (lit ''name'') = fm_data f (lit ''name'') \<Longrightarrow> namedAsTyped x g = namedAsTyped x f"
  by (simp add: namedAsTyped_def)

lemma handleNext_data: "fm_data (sf_form (fst (handleNext own sh fl))) = fm_data (sf_form fl)"
  by (cases "sf_step fl") (simp_all add: handleNext_def form_validate_def Let_def)

lemma form_validate_data: "fm_data (snd (form_validate own sh k f)) = fm_data f"
  by (simp add: form_validate_def Let_def)

interpretation typed: event_machine "signupEvent own x year sh" "typedNames x"
  for own x year sh
proof
  fix s e assume s: "typedNames x s"
  show "typedNames x (signupEvent own x year sh s e)"
  proof (cases e)
    case PressNext
    have "namedAsTyped x (sf_form (fst (handleNext own sh (ss_flow s))))"
      using s namedAsTyped_cong[of "sf_form (fst (handleNext own sh (ss_flow s)))" "sf_form (ss_flow s)" x]
      by (simp add: typedNames_def handleNext_data)
    with s PressNext show ?thesis
      by (auto simp: typedNames_def pressNext_def split: prod.splits)
  next
    case BlurName
    with s namedAsTyped_cong[of "snd (form_validate own sh (Some (lit ''name'')) (sf_form (ss_flow s)))" "sf_form (ss_flow s)" x]
    show ?thesis by (simp add: typedNames_def updateForm_def form_validate_data)
  qed (use s in \<open>auto simp: typedNames_def updateForm_def form_set_def namedAsTyped_def signup_handleBack_def
        split: option.splits\<close>)
qed

text \<open>
  So every name that is ever submitted from a new screen is empty or has its words capitalized: the
  names of the property above are all there are.
\<close>

lemma submitted_names_capitalized:
  assumes "f \<in> set (ss_submitted (foldl (signupEvent own x year (signupShape x year p)) (signupScreen x year p) events))"
  shows "namedAsTyped x f"
proof -
  have "typedNames x (signupScreen x year p)"
    by (auto simp: typedNames_def signupScreen_def signupForm_def useForm_def namedAsTyped_def split: option.splits)
  from typed.run_good[OF this] assms show ?thesis
    by (auto simp: typedNames_def list_all_iff)
qed

end
