(* ===== verification/DemoScreen.thy ===== *)
theory DemoScreen
  imports ScreenViews
begin

text \<open>
  The showcase \<open>app/(auth)/demo.tsx\<close>: its state and handlers over the components of \<open>Views\<close>, and
  the tree it renders, section by section. A bullet or an emoji is written by its code units. The
  debug lines of the handlers and the animations are left out.
\<close>

section \<open>State and handlers\<close>

datatype demo_toast = SuccessToast | ErrorToast | WarningToast | InfoToast | SimpleToast

text \<open>\<open>dm_answering\<close> are the codes whose simulated call has not returned yet.\<close>

record demo =
  dm_text :: jstring
  dm_fieldVariant :: field_variant
  dm_isLoading :: bool
  dm_otp :: otp_input
  dm_answering :: "jstring list"
  dm_pickerValue :: jstring
  dm_pickerVariant :: field_variant
  dm_pickerOpen :: bool
  dm_toast :: "toast option \<times> nat"
  dm_left :: bool

definition demoStart :: "toast option \<times> nat \<Rightarrow> demo" where
  "demoStart toast = \<lparr>dm_text = [], dm_fieldVariant = FieldDefault, dm_isLoading = False,
     dm_otp = \<lparr>ot_text = [], ot_variant = VariantDefault\<rparr>, dm_answering = [], dm_pickerValue = [],
     dm_pickerVariant = FieldDefault, dm_pickerOpen = False, dm_toast = toast, dm_left = False\<rparr>"

datatype demo_action =
    DemoBack
  | SetFieldVariant field_variant
  | SetText jstring
  | ClearOtp
  | TypeOtp jstring
  | SetPickerVariant field_variant
  | DemoPicker picker_press
  | OpenProgrammatically
  | ShowDemoToast demo_toast

definition sampleItems :: "jstring picker_item list" where
  "sampleItems = map (\<lambda>(label, v). \<lparr>pi_label = lit label, pi_value = lit v, pi_disabled = False\<rparr>)
     [(''Apple'', ''apple''), (''Banana'', ''banana''), (''Cherry'', ''cherry''), (''Date'', ''date''),
      (''Elderberry'', ''elderberry''), (''Fig'', ''fig''), (''Grape'', ''grape''), (''Honeydew'', ''honeydew''),
      (''Kiwi'', ''kiwi''), (''Lemon'', ''lemon''), (''Mango'', ''mango''), (''Orange'', ''orange''),
      (''Papaya'', ''papaya''), (''Quince'', ''quince''), (''Raspberry'', ''raspberry''),
      (''Strawberry'', ''strawberry''), (''Tangerine'', ''tangerine''), (''Ugli fruit'', ''ugli''),
      (''Vanilla'', ''vanilla''), (''Watermelon'', ''watermelon'')]"

text \<open>What the simulated call of \<open>handleOtpComplete\<close> answers.\<close>

definition demoAnswer :: "jstring \<Rightarrow> bool" where
  "demoAnswer code \<longleftrightarrow> code = lit ''123456''"

definition handleOtpComplete :: "jstring \<Rightarrow> demo \<Rightarrow> demo" where
  "handleOtpComplete code s = s\<lparr>dm_isLoading := True, dm_answering := dm_answering s @ [code]\<rparr>"

text \<open>The call returns: first its \<open>finally\<close>, then the code input goes on with the answer.\<close>

definition otpAnswered :: "demo \<Rightarrow> demo" where
  "otpAnswered s = (case dm_answering s of
       [] \<Rightarrow> s
     | code # cs \<Rightarrow> s\<lparr>dm_isLoading := False, dm_answering := cs,
         dm_otp := otp_completed (Some (demoAnswer code)) (dm_otp s)\<rparr>)"

fun demoToast :: "demo_toast \<Rightarrow> toast_props" where
  "demoToast SuccessToast = \<lparr>tp_variant = Some AlertSuccess, tp_title = Some (lit ''Success!''),
     tp_message = lit ''Your data has been saved successfully.'', tp_showIcon = Some True, tp_dismiss = None\<rparr>"
| "demoToast ErrorToast = \<lparr>tp_variant = Some AlertError, tp_title = Some (lit ''Connection Failed''),
     tp_message = lit ''Unable to connect to the server. Please check your internet connection.'',
     tp_showIcon = Some True, tp_dismiss = Some (DismissText (lit ''5s''))\<rparr>"
| "demoToast WarningToast = \<lparr>tp_variant = Some AlertWarning, tp_title = Some (lit ''Low Storage''),
     tp_message = lit ''You'' @ [39] @ lit ''re running low on storage space. Consider freeing up some space.'',
     tp_showIcon = Some True, tp_dismiss = Some DismissManual\<rparr>"
| "demoToast InfoToast = \<lparr>tp_variant = Some AlertInfo, tp_title = Some (lit ''New Feature Available''),
     tp_message = lit ''Check out our latest update with new features and improvements!'',
     tp_showIcon = Some True, tp_dismiss = Some DismissAuto\<rparr>"
| "demoToast SimpleToast = \<lparr>tp_variant = None, tp_title = None,
     tp_message = lit ''Simple toast with just a message and no icon.'', tp_showIcon = None,
     tp_dismiss = Some DismissAuto\<rparr>"

fun demoPickerPress :: "demo \<Rightarrow> picker_press \<Rightarrow> demo" where
  "demoPickerPress s OpenPicker = s\<lparr>dm_pickerOpen := pickerOpen False (dm_pickerOpen s)\<rparr>"
| "demoPickerPress s ClosePicker = s\<lparr>dm_pickerOpen := closeModal (dm_pickerOpen s)\<rparr>"
| "demoPickerPress s (SelectItem i) =
     (if i < length sampleItems
      then case handleItemSelect (sampleItems ! i) i (dm_pickerOpen s) of (isOpen, call) \<Rightarrow>
        s\<lparr>dm_pickerOpen := isOpen, dm_pickerValue := (case call of None \<Rightarrow> dm_pickerValue s | Some (v, _) \<Rightarrow> v)\<rparr>
      else s)"

fun demoAction :: "demo \<Rightarrow> demo_action \<Rightarrow> demo" where
  "demoAction s DemoBack = s\<lparr>dm_left := True\<rparr>"
| "demoAction s (SetFieldVariant v) = s\<lparr>dm_fieldVariant := v\<rparr>"
| "demoAction s (SetText t) = s\<lparr>dm_text := t\<rparr>"
| "demoAction s ClearOtp = s\<lparr>dm_otp := otp_reset (dm_otp s)\<rparr>"
| "demoAction s (TypeOtp t) = (case handleTextChange 6 t (dm_otp s) of (input, call) \<Rightarrow>
     let s' = s\<lparr>dm_otp := input\<rparr> in case call of None \<Rightarrow> s' | Some code \<Rightarrow> handleOtpComplete code s')"
| "demoAction s (SetPickerVariant v) = s\<lparr>dm_pickerVariant := v\<rparr>"
| "demoAction s (DemoPicker e) = demoPickerPress s e"
| "demoAction s OpenProgrammatically = s\<lparr>dm_pickerOpen := pickerOpen False (dm_pickerOpen s)\<rparr>"
| "demoAction s (ShowDemoToast t) = s\<lparr>dm_toast := toastEvent (dm_toast s) (ShowToast (demoToast t))\<rparr>"

section \<open>What is rendered\<close>

fun fieldVariantText :: "field_variant \<Rightarrow> jstring" where
  "fieldVariantText FieldDefault = lit ''default''"
| "fieldVariantText FieldError = lit ''error''"
| "fieldVariantText FieldSuccess = lit ''success''"
| "fieldVariantText FieldWarning = lit ''warning''"

text \<open>The name of a variant with its first letter in upper case.\<close>

fun buttonVariantText :: "button_variant \<Rightarrow> jstring" where
  "buttonVariantText ButtonDefault = lit ''Default''"
| "buttonVariantText ButtonOutline = lit ''Outline''"
| "buttonVariantText ButtonDanger = lit ''Danger''"

definition demoTextSection :: "ui_env \<Rightarrow> demo_action view" where
  "demoTextSection u =
    box ''View'' ''mb-8''
    [textView u TextDefault (lit ''mb-4 text-3xl font-bold'') []
      [VText (lit ''Text Component'')],
      textView u TextDefault (lit ''mb-4 text-slate-700 dark:text-slate-300'') []
      [VText (lit ''All text variants meet ''),
        textView u TextDefault (lit ''font-bold'') []
        [VText (lit ''WCAG AAA'')],
        VText (lit '' accessibility standards with proper contrast ratios.'')],
      textView u TextDefault (lit ''mb-2 text-4xl font-bold'') []
      [VText (lit ''Heading 1 (36px, Bold)'')],
      textView u TextDefault (lit ''mb-2 text-3xl font-bold'') []
      [VText (lit ''Heading 2 (30px, Bold)'')],
      textView u TextDefault (lit ''mb-2 text-2xl font-semibold'') []
      [VText (lit ''Heading 3 (24px, Semibold)'')],
      textView u TextDefault (lit ''mb-2'') []
      [VText (lit ''Default text (16px, Normal) - Main content and descriptions'')],
      textView u TextDefault (lit ''mb-2 text-sm font-medium'') []
      [VText (lit ''Small text (14px, Medium) - Form labels and interactive elements'')]]"

definition demoIconSizes :: "ui_env \<Rightarrow> demo_action view" where
  "demoIconSizes u =
    box ''View'' ''mb-6''
    [textView u TextDefault (lit ''mb-2 text-2xl font-semibold'') []
      [VText (lit ''Size (default color)'')],
      textView u TextDefault (lit ''mb-4 text-slate-700 dark:text-slate-300'') []
      [VText (lit ''Set icons size with default color for automatic light/dark color scheme handling.'')],
      box ''View'' ''flex-row flex-wrap gap-8''
      [box ''View'' ''items-center''
        [iconView u ''person'' 16 None None None,
          textView u TextDefault (lit ''mt-2 text-xs'') []
          [VText (lit ''person'')],
          textView u TextDefault (lit ''text-xs'') []
          [VText (lit ''size: 16'')]],
        box ''View'' ''items-center''
        [iconView u ''settings'' 24 None None None,
          textView u TextDefault (lit ''mt-2 text-xs'') []
          [VText (lit ''settings'')],
          textView u TextDefault (lit ''text-xs'') []
          [VText (lit ''default: 24'')]],
        box ''View'' ''items-center''
        [iconView u ''heart'' 32 None None None,
          textView u TextDefault (lit ''mt-2 text-xs'') []
          [VText (lit ''heart'')],
          textView u TextDefault (lit ''text-xs'') []
          [VText (lit ''size: 32'')]],
        box ''View'' ''items-center''
        [iconView u ''star'' 48 None None None,
          textView u TextDefault (lit ''mt-2 text-xs'') []
          [VText (lit ''star'')],
          textView u TextDefault (lit ''text-xs'') []
          [VText (lit ''size: 48'')]]]]"

definition demoIconColors :: "ui_env \<Rightarrow> demo_action view" where
  "demoIconColors u =
    box ''View'' ''mb-6''
    [textView u TextDefault (lit ''mb-2 text-2xl font-semibold'') []
      [VText (lit ''Single Color'')],
      textView u TextDefault (lit ''mb-4 text-slate-700 dark:text-slate-300'') []
      [VText (lit ''Use a single custom color for both light/dark modes.'')],
      box ''View'' ''flex-row flex-wrap gap-8''
      [box ''View'' ''items-center''
        [iconView u ''checkmark'' 32 (Some (ux_color u ''green'' 500)) None None,
          textView u TextDefault (lit ''mt-2 text-sm font-medium'') []
          [VText (lit ''green-500'')]],
        box ''View'' ''items-center''
        [iconView u ''close'' 32 (Some (ux_color u ''red'' 500)) None None,
          textView u TextDefault (lit ''mt-2 text-sm font-medium'') []
          [VText (lit ''red-500'')]],
        box ''View'' ''items-center''
        [iconView u ''warning'' 32 (Some (ux_color u ''yellow'' 500)) None None,
          textView u TextDefault (lit ''mt-2 text-sm font-medium'') []
          [VText (lit ''yellow-500'')]],
        box ''View'' ''items-center''
        [iconView u ''information'' 32 (Some (ux_color u ''blue'' 500)) None None,
          textView u TextDefault (lit ''mt-2 text-sm font-medium'') []
          [VText (lit ''blue-500'')]]]]"

definition demoIconThemes :: "ui_env \<Rightarrow> demo_action view" where
  "demoIconThemes u =
    box ''View'' ''mb-6''
    [textView u TextDefault (lit ''mb-2 text-2xl font-semibold'') []
      [VText (lit ''Theme-Aware Colors'')],
      textView u TextDefault (lit ''mb-4 text-slate-700 dark:text-slate-300'') []
      [VText (lit ''Use two custom colors for automatic switch between light/dark modes.'')],
      box ''View'' ''flex-row flex-wrap gap-8''
      [box ''View'' ''items-center''
        [iconView u ''home'' 32 None (Some (ux_color u ''indigo'' 600)) (Some (ux_color u ''indigo'' 400)),
          textView u TextDefault (lit ''mt-2 text-sm font-medium'') []
          [VText (lit ''home'')],
          textView u TextDefault (lit ''text-sm font-medium'') []
          [VText ([9728, 65039] @ lit '' indigo-600'')],
          textView u TextDefault (lit ''text-sm font-medium'') []
          [VText ([55356, 57113] @ lit '' indigo-400'')]],
        box ''View'' ''items-center''
        [iconView u ''person'' 32 None (Some (ux_color u ''emerald'' 500)) (Some (ux_color u ''pink'' 500)),
          textView u TextDefault (lit ''mt-2 text-sm font-medium'') []
          [VText (lit ''person'')],
          textView u TextDefault (lit ''text-sm font-medium'') []
          [VText ([9728] @ lit '' emerald-500'')],
          textView u TextDefault (lit ''text-sm font-medium'') []
          [VText ([55356, 57113] @ lit '' pink-500'')]],
        box ''View'' ''items-center''
        [iconView u ''settings'' 32 None (Some (ux_color u ''blue'' 500)) (Some (ux_color u ''purple'' 500)),
          textView u TextDefault (lit ''mt-2 text-sm font-medium'') []
          [VText (lit ''settings'')],
          textView u TextDefault (lit ''text-sm font-medium'') []
          [VText ([9728] @ lit '' blue-500'')],
          textView u TextDefault (lit ''text-sm font-medium'') []
          [VText ([55356, 57113] @ lit '' purple-500'')]]]]"

definition demoIconSection :: "ui_env \<Rightarrow> demo_action view" where
  "demoIconSection u =
    box ''View'' ''mb-8''
    [textView u TextDefault (lit ''mb-4 text-3xl font-bold'') []
      [VText (lit ''Icon Component (Ionicons)'')],
      demoIconSizes u,
      demoIconColors u,
      demoIconThemes u]"

definition demoSvgSizes :: "ui_env \<Rightarrow> svg_registry \<Rightarrow> demo_action view" where
  "demoSvgSizes u reg =
    box ''View'' ''mb-6''
    [textView u TextDefault (lit ''mb-2 text-2xl font-semibold'') []
      [VText (lit ''Size (default color)'')],
      textView u TextDefault (lit ''mb-4 text-slate-700 dark:text-slate-300'') []
      [VText (lit ''Set SVG dimensions with default color for automatic light/dark color scheme handling.'')],
      box ''View'' ''flex-row flex-wrap gap-8''
      [box ''View'' ''items-center''
        (svgView u reg (lit ''male'') 24 24 None None None
          @ [textView u TextDefault (lit ''mt-2 text-xs'') []
          [VText (lit ''male'')],
          textView u TextDefault (lit ''text-xs'') []
          [VText (lit ''24x24'')]]),
        box ''View'' ''items-center''
        (svgView u reg (lit ''female'') 32 32 None None None
          @ [textView u TextDefault (lit ''mt-2 text-xs'') []
          [VText (lit ''female'')],
          textView u TextDefault (lit ''text-xs'') []
          [VText (lit ''32x32'')]]),
        box ''View'' ''items-center''
        (svgView u reg (lit ''logo'') 64 64 None None None
          @ [textView u TextDefault (lit ''mt-2 text-xs'') []
          [VText (lit ''logo'')],
          textView u TextDefault (lit ''text-xs'') []
          [VText (lit ''64x64'')]])]]"

definition demoSvgColors :: "ui_env \<Rightarrow> svg_registry \<Rightarrow> demo_action view" where
  "demoSvgColors u reg =
    box ''View'' ''mb-6''
    [textView u TextDefault (lit ''mb-2 text-2xl font-semibold'') []
      [VText (lit ''Single Color'')],
      textView u TextDefault (lit ''mb-4 text-slate-700 dark:text-slate-300'') []
      [VText (lit ''Use a single custom color for both light/dark modes.'')],
      box ''View'' ''flex-row flex-wrap gap-8''
      [box ''View'' ''items-center''
        (svgView u reg (lit ''male'') 32 32 (Some (ux_color u ''blue'' 500)) None None
          @ [textView u TextDefault (lit ''mt-2 text-sm font-medium'') []
          [VText (lit ''blue-500'')]]),
        box ''View'' ''items-center''
        (svgView u reg (lit ''female'') 32 32 (Some (ux_color u ''pink'' 500)) None None
          @ [textView u TextDefault (lit ''mt-2 text-sm font-medium'') []
          [VText (lit ''pink-500'')]]),
        box ''View'' ''items-center''
        (svgView u reg (lit ''logo'') 64 64 (Some (ux_color u ''yellow'' 500)) None None
          @ [textView u TextDefault (lit ''mt-2 text-sm font-medium'') []
          [VText (lit ''yellow-500'')]])]]"

definition demoSvgThemes :: "ui_env \<Rightarrow> svg_registry \<Rightarrow> demo_action view" where
  "demoSvgThemes u reg =
    box ''View'' ''mb-6''
    [textView u TextDefault (lit ''mb-2 text-2xl font-semibold'') []
      [VText (lit ''Theme-Aware Colors'')],
      textView u TextDefault (lit ''mb-4 text-slate-700 dark:text-slate-300'') []
      [VText (lit ''Use two custom colors for automatic switch between light/dark modes.'')],
      box ''View'' ''flex-row flex-wrap gap-8''
      [box ''View'' ''items-center''
        (svgView u reg
            (lit ''male'') 32 32 None (Some (ux_color u ''indigo'' 600)) (Some (ux_color u ''indigo'' 400))
          @ [textView u TextDefault (lit ''mt-2 text-sm font-medium'') []
          [VText (lit ''male'')],
          textView u TextDefault (lit ''text-sm font-medium'') []
          [VText ([9728, 65039] @ lit '' indigo-600'')],
          textView u TextDefault (lit ''text-sm font-medium'') []
          [VText ([55356, 57113] @ lit '' indigo-400'')]]),
        box ''View'' ''items-center''
        (svgView u reg
            (lit ''female'') 32 32 None (Some (ux_color u ''emerald'' 500)) (Some (ux_color u ''pink'' 500))
          @ [textView u TextDefault (lit ''mt-2 text-sm font-medium'') []
          [VText (lit ''female'')],
          textView u TextDefault (lit ''text-sm font-medium'') []
          [VText ([9728] @ lit '' emerald-500'')],
          textView u TextDefault (lit ''text-sm font-medium'') []
          [VText ([55356, 57113] @ lit '' pink-500'')]]),
        box ''View'' ''items-center''
        (svgView u reg (lit ''logo'') 96 32 None (Some (ux_color u ''blue'' 500)) (Some (ux_color u ''purple'' 500))
          @ [textView u TextDefault (lit ''mt-2 text-sm font-medium'') []
          [VText (lit ''logo'')],
          textView u TextDefault (lit ''text-sm font-medium'') []
          [VText ([9728] @ lit '' blue-500'')],
          textView u TextDefault (lit ''text-sm font-medium'') []
          [VText ([55356, 57113] @ lit '' purple-500'')]])]]"

definition demoSvgSection :: "ui_env \<Rightarrow> svg_registry \<Rightarrow> demo_action view" where
  "demoSvgSection u reg =
    box ''View'' ''mb-8''
    [textView u TextDefault (lit ''mb-4 text-3xl font-bold'') []
      [VText (lit ''SVG Component'')],
      demoSvgSizes u reg,
      demoSvgColors u reg,
      demoSvgThemes u reg]"

definition demoButtonPair :: "ui_env \<Rightarrow> button_variant \<Rightarrow> demo_action view" where
  "demoButtonPair u v =
    VElem ''View'' [(''className'', AText (lit ''mb-2''))]
    [buttonView u v False (lit ''mb-2'') []
      [VText (buttonVariantText v),
        VText (lit '' Button'')],
      buttonView u v True (lit ''mb-2'') []
      [VText (lit ''Disabled ''),
        VText (buttonVariantText v),
        VText (lit '' Button'')]]"

definition demoButtonSection :: "ui_env \<Rightarrow> demo_action view" where
  "demoButtonSection u =
    box ''View'' ''mb-8''
    [textView u TextDefault (lit ''mb-4 text-3xl font-bold'') []
      [VText (lit ''Button Component'')],
      box ''View'' ''mb-6''
      ([textView u TextDefault (lit ''mb-3 text-2xl font-semibold'') []
        [VText (lit ''Variants and States'')]]
        @ map (demoButtonPair u) [ButtonDefault, ButtonOutline, ButtonDanger])]"

definition demoInputVariants :: "ui_env \<Rightarrow> demo_action view" where
  "demoInputVariants u =
    box ''View'' ''mb-6''
    [textView u TextDefault (lit ''mb-3 text-2xl font-semibold'') []
      [VText (lit ''Variants'')],
      textInputView u FieldDefault (lit ''mb-2'') [(''placeholder'', AText (lit ''Default variant''))],
      textInputView u FieldError (lit ''mb-2'') [(''placeholder'', AText (lit ''Error variant''))],
      textInputView u FieldSuccess (lit ''mb-2'') [(''placeholder'', AText (lit ''Success variant''))],
      textInputView u FieldWarning (lit ''mb-2'') [(''placeholder'', AText (lit ''Warning variant''))]]"

definition demoInputInteractive :: "ui_env \<Rightarrow> demo \<Rightarrow> demo_action view" where
  "demoInputInteractive u s =
    box ''View'' ''mb-6''
    [textView u TextDefault (lit ''mb-3 text-2xl font-semibold'') []
      [VText (lit ''Interactive Demo'')],
      textView u TextDefault (lit ''mb-3'') []
      [VText (lit ''Click buttons to change the input variant below'')],
      box ''View'' ''mb-3 gap-2''
      [box ''View'' ''flex-row gap-2''
        [buttonView u ButtonOutline False (lit ''flex-1'') [(''onPress'', APress (SetFieldVariant FieldDefault))]
          [VText (lit ''Default'')],
          buttonView u ButtonOutline False (lit ''flex-1'') [(''onPress'', APress (SetFieldVariant FieldError))]
          [VText (lit ''Error'')]],
        box ''View'' ''flex-row gap-2''
        [buttonView u ButtonOutline False (lit ''flex-1'') [(''onPress'', APress (SetFieldVariant FieldSuccess))]
          [VText (lit ''Success'')],
          buttonView u ButtonOutline False (lit ''flex-1'') [(''onPress'', APress (SetFieldVariant FieldWarning))]
          [VText (lit ''Warning'')]]],
      textInputView u (dm_fieldVariant s) (lit ''mb-2'') [(''placeholder'', AText
          (lit ''Interactive input - try changing variants above'')), (''value'', AText (dm_text s)),
              (''onChangeText'', AEdit SetText)],
      textView u TextDefault [] []
      [VText (lit ''Current variant: ''),
        VText (fieldVariantText (dm_fieldVariant s))]]"

definition demoInputSection :: "ui_env \<Rightarrow> demo \<Rightarrow> demo_action view" where
  "demoInputSection u s =
    box ''View'' ''mb-8''
    [textView u TextDefault (lit ''mb-4 text-3xl font-bold'') []
      [VText (lit ''TextInput Component'')],
      demoInputVariants u,
      demoInputInteractive u s]"

definition demoOtpInteractive :: "ui_env \<Rightarrow> demo \<Rightarrow> demo_action view" where
  "demoOtpInteractive u s =
    box ''View'' ''mb-6''
    [textView u TextDefault (lit ''mb-3 text-2xl font-semibold'') []
      [VText (lit ''Interactive Demo'')],
      textView u TextDefault (lit ''mb-3'') []
      [VText (lit ''Enter any 6-digit code. Use '' @ [34] @ lit ''123456'' @ [34]
          @ lit '' for success, any other code for error.'')],
      otpInputView u 6 (lit ''mb-4'') (dm_isLoading s) [] TypeOtp (dm_otp s),
      box ''View'' ''gap-2''
      [buttonView u ButtonOutline (dm_isLoading s) (lit ''w-full'') [(''onPress'', APress ClearOtp)]
        [VText (if dm_isLoading s then lit ''Verifying OTP...'' else lit ''Clear OTP'')]]]"

definition demoOtpFeatures :: "ui_env \<Rightarrow> demo_action view" where
  "demoOtpFeatures u =
    box ''View'' ''mb-6''
    [textView u TextDefault (lit ''mb-3 text-2xl font-semibold'') []
      [VText (lit ''Key Features'')],
      box ''View'' ''gap-2''
      [textView u TextDefault (lit ''text-slate-700 dark:text-slate-300'') []
        [VText ([8226] @ lit '' Automatic success/error styling based on API response'')],
        textView u TextDefault (lit ''text-slate-700 dark:text-slate-300'') []
        [VText ([8226] @ lit '' Auto-clear and refocus on error'')],
        textView u TextDefault (lit ''mb-2 text-slate-700 dark:text-slate-300'') []
        [VText ([8226] @ lit '' Programmatic reset via ref'')]]]"

definition demoOtpSection :: "ui_env \<Rightarrow> demo \<Rightarrow> demo_action view" where
  "demoOtpSection u s =
    box ''View'' ''mb-8''
    [textView u TextDefault (lit ''mb-4 text-3xl font-bold'') []
      [VText (lit ''OTP Input Component'')],
      textView u TextDefault (lit ''mb-4 text-slate-700 dark:text-slate-300'') []
      [VText
          (lit ''A high-performance 6-digit OTP input component with automatic focus management and theme support.'')],
      demoOtpInteractive u s,
      demoOtpFeatures u]"

definition demoPickerControls :: "ui_env \<Rightarrow> demo \<Rightarrow> demo_action view" where
  "demoPickerControls u s =
    box ''View'' ''mb-6''
    ([textView u TextDefault (lit ''mb-3'') []
      [VText (lit ''Click buttons to change the input variant below'')],
      box ''View'' ''mb-3 gap-2''
      [box ''View'' ''flex-row gap-2''
        [buttonView u ButtonOutline False (lit ''flex-1'') [(''onPress'', APress (SetPickerVariant FieldDefault))]
          [VText (lit ''Default'')],
          buttonView u ButtonOutline False (lit ''flex-1'') [(''onPress'', APress (SetPickerVariant FieldError))]
          [VText (lit ''Error'')]],
        box ''View'' ''flex-row gap-2''
        [buttonView u ButtonOutline False (lit ''flex-1'') [(''onPress'', APress (SetPickerVariant FieldSuccess))]
          [VText (lit ''Success'')],
          buttonView u ButtonOutline False (lit ''flex-1'') [(''onPress'', APress (SetPickerVariant FieldWarning))]
          [VText (lit ''Warning'')]]]]
      @ map (map_view DemoPicker) (pickerView u sampleItems (Some (dm_pickerValue s))
          (lit ''Select a fruit...'') (dm_pickerVariant s) False
          (lit ''mb-3'') (lit ''Choose Your Fruit'') False (dm_pickerOpen s))
      @ [buttonView u ButtonOutline False (lit ''mb-2'') [(''onPress'', APress OpenProgrammatically)]
      [VText (lit ''Open Picker Programmatically'')],
      textView u TextDefault (lit ''text-sm text-slate-600 dark:text-slate-400'') []
      [VText (lit ''Selected: ''),
        VText (if dm_pickerValue s = [] then lit ''None'' else dm_pickerValue s),
        VText (lit '' | Variant: ''),
        VText (fieldVariantText (dm_pickerVariant s))]])"

definition demoPickerFeatures :: "ui_env \<Rightarrow> demo_action view" where
  "demoPickerFeatures u =
    box ''View'' ''mb-6''
    [textView u TextDefault (lit ''mb-3 text-2xl font-semibold'') []
      [VText (lit ''Key Features'')],
      box ''View'' ''gap-2''
      [textView u TextDefault (lit ''text-slate-700 dark:text-slate-300'') []
        [VText ([8226] @ lit '' Identical appearance on iOS and Android'')],
        textView u TextDefault (lit ''text-slate-700 dark:text-slate-300'') []
        [VText ([8226] @ lit '' Modal-based dropdown interface'')],
        textView u TextDefault (lit ''text-slate-700 dark:text-slate-300'') []
        [VText ([8226] @ lit '' Four variants: default, error, success, warning'')],
        textView u TextDefault (lit ''text-slate-700 dark:text-slate-300'') []
        [VText ([8226] @ lit '' Dark mode support with theme-aware colors'')],
        textView u TextDefault (lit ''text-slate-700 dark:text-slate-300'') []
        [VText ([8226] @ lit '' Programmatic control via ref (open/close)'')],
        textView u TextDefault (lit ''text-slate-700 dark:text-slate-300'') []
        [VText ([8226] @ lit '' Disabled state support'')],
        textView u TextDefault (lit ''text-slate-700 dark:text-slate-300'') []
        [VText ([8226] @ lit '' Customizable modal title and styling'')],
        textView u TextDefault (lit ''text-slate-700 dark:text-slate-300'') []
        [VText ([8226] @ lit '' Configurable item alignment (left/center)'')],
        textView u TextDefault (lit ''text-slate-700 dark:text-slate-300'') []
        [VText ([8226] @ lit '' Smooth animations and transitions'')],
        textView u TextDefault (lit ''text-slate-700 dark:text-slate-300'') []
        [VText ([8226] @ lit '' Accessible with proper touch targets'')],
        textView u TextDefault (lit ''mb-2 text-slate-700 dark:text-slate-300'') []
        [VText ([8226] @ lit '' TypeScript support with full type safety'')]]]"

definition demoPickerSection :: "ui_env \<Rightarrow> demo \<Rightarrow> demo_action view" where
  "demoPickerSection u s =
    box ''View'' ''mb-8''
    [textView u TextDefault (lit ''mb-4 text-3xl font-bold'') []
      [VText (lit ''Picker Component'')],
      textView u TextDefault (lit ''mb-4 text-slate-700 dark:text-slate-300'') []
      [VText
          (lit ''Cross-platform picker component that looks identical on iOS and Android. Tap to open a modal with options. Perfect for forms and settings.'')],
      demoPickerControls u s,
      demoPickerFeatures u]"

definition demoInlineAlerts :: "ui_env \<Rightarrow> demo_action view" where
  "demoInlineAlerts u =
    box ''View'' ''mb-6''
    [textView u TextDefault (lit ''mb-3 text-2xl font-semibold'') []
      [VText (lit ''Inline Alerts'')],
      textView u TextDefault (lit ''mb-4 text-slate-700 dark:text-slate-300'') []
      [VText
          (lit ''Static alerts that are always visible. Perfect for form validation errors and success messages. These alerts are not closable and remain persistent.'')],
      alertView u AlertSuccess None (Some (lit ''Success!''))
          (lit ''Your action was completed successfully. All changes have been saved.'') True (lit ''mb-4'') [],
      alertView u AlertError None (Some (lit ''Error occurred''))
          (lit ''Something went wrong while processing your request. Please try again.'') True (lit ''mb-4'') [],
      alertView u AlertWarning None (Some (lit ''Warning''))
          (lit ''Please review your information before proceeding. Some fields may be incomplete.'') True
              (lit ''mb-4'') [],
      alertView u AlertInfo None (Some (lit ''Information'')) (lit ''Here'' @ [39]
          @ lit ''s some helpful information about the current process and what to expect next.'') True
              (lit ''mb-4'') [],
      alertView u AlertInfo None (Some (lit ''No Icon Alert''))
          (lit ''This alert has no icon (showIcon={false}). Useful when you want a cleaner look.'') False
              (lit ''mb-4'') [],
      alertView u AlertSuccess None None
          (lit ''This alert has no title, just a message. Perfect for simple notifications.'') True
              (lit ''mb-4'') []]"

definition demoToastButtons :: "ui_env \<Rightarrow> demo_action view" where
  "demoToastButtons u =
    box ''View'' ''mb-6''
    [textView u TextDefault (lit ''mb-3 text-2xl font-semibold'') []
      [VText (lit ''Toast Alerts'')],
      textView u TextDefault (lit ''mb-4 text-slate-700 dark:text-slate-300'') []
      [VText
          (lit ''Single toast notifications with smooth slide-in animations. Only one toast can be shown at a time. Smart auto-dismiss based on message length, with manual control available.'')],
      box ''View'' ''gap-2''
      [box ''View'' ''flex-row gap-2''
        [buttonView u ButtonDefault False (lit ''flex-1'') [(''onPress'', APress (ShowDemoToast SuccessToast))]
          [VText (lit ''Success'')],
          buttonView u ButtonDefault False (lit ''flex-1'') [(''onPress'', APress (ShowDemoToast ErrorToast))]
          [VText (lit ''Error (5s)'')]],
        box ''View'' ''flex-row gap-2''
        [buttonView u ButtonDefault False (lit ''flex-1'') [(''onPress'', APress (ShowDemoToast WarningToast))]
          [VText (lit ''Warning (Manual)'')],
          buttonView u ButtonDefault False (lit ''flex-1'') [(''onPress'', APress (ShowDemoToast InfoToast))]
          [VText (lit ''Info'')]],
        buttonView u ButtonDefault False (lit ''w-full'') [(''onPress'', APress (ShowDemoToast SimpleToast))]
        [VText (lit ''Simple (Auto)'')]]]"

definition demoAlertFeatures :: "ui_env \<Rightarrow> demo_action view" where
  "demoAlertFeatures u =
    box ''View'' ''mb-6''
    [textView u TextDefault (lit ''mb-3 text-2xl font-semibold'') []
      [VText (lit ''Key Features'')],
      box ''View'' ''gap-2''
      [textView u TextDefault (lit ''text-slate-700 dark:text-slate-300'') []
        [VText ([8226] @ lit '' Four variants: success, error, warning, info'')],
        textView u TextDefault (lit ''text-slate-700 dark:text-slate-300'') []
        [VText ([8226] @ lit '' Two modes: inline (persistent) and toast (with close button)'')],
        textView u TextDefault (lit ''text-slate-700 dark:text-slate-300'') []
        [VText ([8226] @ lit '' Smooth animations with react-native-reanimated'')],
        textView u TextDefault (lit ''text-slate-700 dark:text-slate-300'') []
        [VText ([8226] @ lit '' Optional icons: showIcon=''),
          VText (lit '' for default, showIcon=''),
          VText (lit '' for none'')],
        textView u TextDefault (lit ''text-slate-700 dark:text-slate-300'') []
        [VText ([8226] @ lit '' Smart dismiss: '' @ [34] @ lit ''auto'' @ [34] @ lit '' (message-based), '' @ [34]
            @ lit ''manual'' @ [34] @ lit '' (forever), '' @ [34] @ lit ''3s'' @ [34] @ lit '' (custom)'')],
        textView u TextDefault (lit ''text-slate-700 dark:text-slate-300'') []
        [VText ([8226] @ lit '' Dark mode support'')],
        textView u TextDefault (lit ''text-slate-700 dark:text-slate-300'') []
        [VText ([8226] @ lit '' Accessible close button (44px minimum)'')],
        textView u TextDefault (lit ''text-slate-700 dark:text-slate-300'') []
        [VText ([8226] @ lit '' Single toast system (no stacking complexity)'')],
        textView u TextDefault (lit ''text-slate-700 dark:text-slate-300'') []
        [VText ([8226] @ lit '' Route-aware cleanup (auto-dismiss on navigation)'')],
        textView u TextDefault (lit ''mb-2 text-slate-700 dark:text-slate-300'') []
        [VText ([8226] @ lit '' Unicode-safe character counting for smart timing'')]]]"

definition demoAlertSection :: "ui_env \<Rightarrow> demo_action view" where
  "demoAlertSection u =
    box ''View'' ''mb-8''
    [textView u TextDefault (lit ''mb-4 text-3xl font-bold'') []
      [VText (lit ''Alert Component'')],
      textView u TextDefault (lit ''mb-4 text-slate-700 dark:text-slate-300'') []
      [VText
          (lit ''Alert component with both inline and toast modes. Inline alerts are persistent and perfect for form validation, while toast alerts auto-dismiss with smooth animations.'')],
      demoInlineAlerts u,
      demoToastButtons u,
      demoAlertFeatures u]"

definition demoView :: "ui_env \<Rightarrow> svg_registry \<Rightarrow> demo \<Rightarrow> demo_action view list" where
  "demoView u reg s =
    [box ''View'' ''bg-white p-4 pt-16 dark:bg-slate-900''
    [buttonView u ButtonOutline False [] [(''onPress'', APress DemoBack)]
      [VText (lit ''Back to Login'')]],
    box ''ScrollView'' ''flex-1 bg-white dark:bg-slate-900''
    [box ''View'' ''mb-80 p-4''
      [textView u TextDefault (lit ''mb-5 text-4xl font-bold'') []
        [VText (lit ''UI Components Demo'')],
        demoTextSection u,
        box ''View'' ''mb-8 h-px bg-slate-200 dark:bg-slate-700'' [],
        demoIconSection u,
        box ''View'' ''mb-8 h-px bg-slate-200 dark:bg-slate-700'' [],
        demoSvgSection u reg,
        box ''View'' ''mb-8 h-px bg-slate-200 dark:bg-slate-700'' [],
        demoButtonSection u,
        box ''View'' ''mb-8 h-px bg-slate-200 dark:bg-slate-700'' [],
        demoInputSection u s,
        box ''View'' ''mb-8 h-px bg-slate-200 dark:bg-slate-700'' [],
        demoOtpSection u s,
        box ''View'' ''mb-8 h-px bg-slate-200 dark:bg-slate-700'' [],
        demoPickerSection u s,
        box ''View'' ''mb-8 h-px bg-slate-200 dark:bg-slate-700'' [],
        demoAlertSection u]]]"

section \<open>What the screen shows\<close>

lemmas demo_sections = demoTextSection_def demoIconSizes_def demoIconColors_def demoIconThemes_def demoIconSection_def
  demoSvgSizes_def demoSvgColors_def demoSvgThemes_def demoSvgSection_def demoInputVariants_def
  demoInputInteractive_def demoInputSection_def demoOtpInteractive_def demoOtpFeatures_def demoOtpSection_def
  demoPickerControls_def demoPickerFeatures_def demoPickerSection_def demoInlineAlerts_def demoToastButtons_def
  demoAlertFeatures_def demoAlertSection_def

text \<open>
  The buttons of the button section mix an expression with a text, so their children are not one
  text and are not wrapped: these texts stand outside of \<open>Text\<close>, and no others.
\<close>

lemma demo_bare_texts:
  "concat (map bareTexts (demoView u reg s)) = map lit
     [''Default'', '' Button'', ''Disabled '', ''Default'', '' Button'',
      ''Outline'', '' Button'', ''Disabled '', ''Outline'', '' Button'',
      ''Danger'', '' Button'', ''Disabled '', ''Danger'', '' Button'']"
  by (simp add: demoView_def demo_sections demoButtonSection_def demoButtonPair_def)

text \<open>
  C39. Where the application shows texts outside of \<open>Text\<close>: whatever the state, none of the sign-in
  and signup screens, the layouts, the tabs, the settings, the speech popup and the image grid
  shows a text outside of a \<open>Text\<close> element, which React Native does not allow. The demo screen
  does: the labels of the six buttons of its button section, exactly these and no others,
  because \<open>Button\<close> wraps only a child that is one text.
\<close>

theorem screens_wrap_texts:
  "bareTexts (loginView u reg am available i f) = [] \<and> bareTexts (codeView u w input) = []
   \<and> bareTexts (signupView u reg year isOpen isLoading fl) = [] \<and> concat (map bareTexts (rootView u s toast)) = []
   \<and> bareTexts (authLayoutView u) = [] \<and> bareTexts (tabsView u) = [] \<and> bareTexts (stackView names) = []
   \<and> bareTexts (notFoundView u) = [] \<and> bareTexts (homeView u) = [] \<and> bareTexts (messagesView u) = []
   \<and> bareTexts (messageView u) = [] \<and> bareTexts (ordersView u) = [] \<and> bareTexts (orderView u) = []
   \<and> bareTexts (settingsView u) = [] \<and> bareTexts (speechView u speech) = []
   \<and> bareTexts (imageGridView u st isSaving selectedIndex displayUrl maxImages images) = []
   \<and> concat (map bareTexts (demoView u reg demo)) = map lit
     [''Default'', '' Button'', ''Disabled '', ''Default'', '' Button'',
      ''Outline'', '' Button'', ''Disabled '', ''Outline'', '' Button'',
      ''Danger'', '' Button'', ''Disabled '', ''Danger'', '' Button'']"
  by (simp add: bareTexts_login bareTexts_code bareTexts_signup bareTexts_root bareTexts_grid bareTexts_layouts
      bareTexts_plain demo_bare_texts)

text \<open>The braces of the text about \<open>showIcon\<close> are an expression: the values are not shown.\<close>

lemma demo_hides_values:
  "[8226] @ lit '' Optional icons: showIcon='' \<in> set (shownTexts (demoAlertFeatures u))"
  "lit '' for default, showIcon='' \<in> set (shownTexts (demoAlertFeatures u))"
  by (simp_all add: demoAlertFeatures_def textView_def box_def)

text \<open>The toast that says it has no icon has one: only an explicit \<open>false\<close> leaves it out.\<close>

lemma demo_simple_toast_icon:
  "to_showIcon (makeToast (demoToast SimpleToast))" "to_message (makeToast (demoToast SimpleToast)) = lit ''Simple toast with just a message and no icon.''"
  by (simp_all add: makeToast_def)

text \<open>
  While a code is checked the input is locked and cannot be cleared; the check accepts 123456 and
  clears every other code.
\<close>

lemma demo_otp_offers:
  "presses (demoOtpInteractive u s) = (if dm_isLoading s then [] else [ClearOtp])"
  "edits (demoOtpInteractive u s) = (if dm_isLoading s then [] else [TypeOtp])"
  by (simp_all add: demoOtpInteractive_def otpInputView_def hiddenStyle_def ownPress_def ownEdit_def comp_def)

lemma demo_code_checked:
  assumes "take 6 (stripNonDigits t) = code" "length code = 6" "dm_answering s = []"
  shows "dm_isLoading (demoAction s (TypeOtp t)) \<and> \<not> dm_isLoading (otpAnswered (demoAction s (TypeOtp t)))
    \<and> dm_otp (otpAnswered (demoAction s (TypeOtp t))) =
        (if code = lit ''123456'' then \<lparr>ot_text = code, ot_variant = VariantSuccess\<rparr>
         else \<lparr>ot_text = [], ot_variant = VariantError\<rparr>)"
  using assms by (simp add: handleTextChange_def handleOtpComplete_def otpAnswered_def otp_completed_def demoAnswer_def
    otp_handleError_def Let_def)

text \<open>A fruit that is chosen is the value of the picker, under its label.\<close>

lemma demo_picker_shows:
  assumes "i < length sampleItems"
  shows "pickerLabel sampleItems (Some (dm_pickerValue (demoAction s (DemoPicker (SelectItem i))))) ph = pi_label (sampleItems ! i)"
    and "\<not> dm_pickerOpen (demoAction s (DemoPicker (SelectItem i)))"
proof -
  have "distinct (map pi_value sampleItems)" by (simp add: sampleItems_def lit_def)
  moreover have "\<not> pi_disabled (sampleItems ! i)" "pi_label (sampleItems ! i) \<noteq> []"
    using nth_mem[OF assms] by (auto simp: sampleItems_def lit_def)
  ultimately show "pickerLabel sampleItems (Some (dm_pickerValue (demoAction s (DemoPicker (SelectItem i))))) ph = pi_label (sampleItems ! i)"
    and "\<not> dm_pickerOpen (demoAction s (DemoPicker (SelectItem i)))"
    using assms selected_after_select[of "sampleItems ! i" i "dm_pickerOpen s" False "pi_value (sampleItems ! i)" i sampleItems]
    by (auto simp: pickerLabel_def handleItemSelect_def)
qed

text \<open>The toast of an error closes after five seconds, the one of a warning only by hand.\<close>

lemma demo_toast_durations:
  "toastDuration (makeToast (demoToast ErrorToast)) = Some (Inr 5000)"
  "toastDuration (makeToast (demoToast WarningToast)) = None"
  by code_simp+

end
