(* ===== verification/MailTemplate.thy ===== *)
theory MailTemplate
  imports Views ClientStore
begin

text \<open>
  The e-mail that welcomes a user, \<open>apps/api/src/emails/welcome.tsx\<close>, as a tree of elements of the
  e-mail library. The rendering to HTML and the styles of Tailwind are the library's.
\<close>

record welcome_props =
  wp_appName :: "jstring option"
  wp_username :: "jstring option"
  wp_dashboardUrl :: "jstring option"
  wp_supportUrl :: "jstring option"

text \<open>A property that is \<open>undefined\<close> has its default.\<close>

definition orDefault :: "jstring option \<Rightarrow> string \<Rightarrow> jstring" where
  "orDefault v d = (case v of None \<Rightarrow> lit d | Some t \<Rightarrow> t)"

definition welcomeMail :: "welcome_props \<Rightarrow> 'a view" where
  "welcomeMail p =
    (let appName = orDefault (wp_appName p) ''MyApp''; username = orDefault (wp_username p) ''John Doe'';
         dashboardUrl = orDefault (wp_dashboardUrl p) ''https://www.myapp.com/dashboard'';
         supportUrl = orDefault (wp_supportUrl p) ''https://www.myapp.com/support'' in
      VElem ''Html'' []
      [VElem ''Head'' [] [],
        VElem ''Tailwind'' [(''config'', AText (lit ''pixelBasedPreset''))]
        [box ''Body'' ''bg-slate-50 font-sans''
          [VElem ''Preview'' []
            [VText (lit ''Your account is ready. Let'' @ [39] @ lit ''s get started!'')],
            box ''Container'' ''mx-auto bg-white pb-12''
            [box ''Section'' ''px-8''
              [box ''Heading'' ''text-2xl text-blue-700''
                [VText appName],
                box ''Hr'' ''my-5 border-slate-200'' [],
                box ''Text'' ''text-left text-base leading-6 text-slate-900''
                [VText (lit ''Hi ''),
                  VText username,
                  VText (lit '','')],
                box ''Text'' ''text-left text-base leading-6 text-slate-900''
                [VText (lit ''We'' @ [39]
                    @ lit ''re excited to have you on board. Your account is all set and ready to go.'')],
                box ''Text'' ''text-left text-base leading-6 text-slate-900''
                [VText (lit ''Get started by exploring your dashboard, where you'' @ [39]
                    @ lit ''ll find everything you need to get the most out of ''),
                  VText appName,
                  VText (lit ''.'')],
                box ''Section'' ''my-8 text-center''
                [VElem ''Button'' [(''className'', AText
                    (lit ''rounded bg-blue-700 px-5 py-3 text-center text-base font-semibold leading-none text-white no-underline'')), (''href'', AText dashboardUrl)]
                  [VText (lit ''Go to your Dashboard'')]],
                box ''Text'' ''text-left text-base leading-6 text-slate-900''
                [VText (lit ''Need help? We'' @ [39] @ lit ''re here for you. Visit our''),
                  VText (lit '' ''),
                  VElem ''Link'' [(''className'', AText (lit ''text-blue-700'')), (''href'', AText supportUrl)]
                  [VText (lit ''support center'')],
                  VText (lit '' ''),
                  VText (lit ''for quick answers and to reach our team anytime.'')],
                box ''Text'' ''text-left text-base leading-6 text-slate-900''
                [VText (lit ''Let'' @ [39] @ lit ''s get started,'')],
                box ''Text'' ''text-left text-base leading-6 text-slate-900''
                [VText ([8212] @ lit '' The ''),
                  VText appName,
                  VText (lit '' team'')]]]]]])"

text \<open>The addresses a tree links to.\<close>

primrec links :: "'a view \<Rightarrow> jstring list" where
  "links (VText t) = []"
| "links (VElem tag as children) =
     (case map_of as ''href'' of Some (AText h) \<Rightarrow> [h] | _ \<Rightarrow> []) @ concat (map links children)"

text \<open>The mail links to the two addresses, and names the user and the application.\<close>

lemma welcome_links:
  "links (welcomeMail p) = [orDefault (wp_dashboardUrl p) ''https://www.myapp.com/dashboard'',
     orDefault (wp_supportUrl p) ''https://www.myapp.com/support'']"
  by (simp add: welcomeMail_def box_def Let_def)

lemma welcome_names: "orDefault (wp_username p) ''John Doe'' \<in> set (shownTexts (welcomeMail p))"
  "orDefault (wp_appName p) ''MyApp'' \<in> set (shownTexts (welcomeMail p))"
  by (simp_all add: welcomeMail_def box_def Let_def)

end
