(* ===== verification/Numbers.thy ===== *)
theory Numbers
  imports Text
begin

text \<open>
  \<open>packages/utils/shared/src/number.ts\<close>: numbers in the Indian format, as \<open>Intl.NumberFormat\<close>
  writes them for \<open>en-IN\<close> with a fixed number of decimals. A number that is written and read back
  is the number rounded to these decimals.
\<close>

section \<open>The format\<close>

datatype js_float = Finite rat | NegZero | NotANumber | Infinite bool

text \<open>Groups of two digits, from the right; the last three digits stand alone.\<close>

fun pairsFromRight :: "jstring \<Rightarrow> jstring" where
  "pairsFromRight (a # b # c # ds) = a # b # 44 # pairsFromRight (c # ds)"
| "pairsFromRight ds = ds"

definition indianGroups :: "jstring \<Rightarrow> jstring" where
  "indianGroups ds = (if length ds \<le> 3 then ds
     else rev (pairsFromRight (rev (take (length ds - 3) ds))) @ lit '','' @ drop (length ds - 3) ds)"

text \<open>The magnitude in units of the last decimal, half of a unit rounded away from zero.\<close>

definition roundedUnits :: "nat \<Rightarrow> rat \<Rightarrow> nat" where
  "roundedUnits d q = nat \<lfloor>\<bar>q\<bar> * 10 ^ d + 1 / 2\<rfloor>"

definition formatMagnitude :: "nat \<Rightarrow> nat \<Rightarrow> jstring" where
  "formatMagnitude d m = indianGroups (natToString 10 (m div 10 ^ d))
     @ (if d = 0 then [] else lit ''.'' @ padStart d 48 (natToString 10 (m mod 10 ^ d)))"

text \<open>\<open>Inl\<close> is the \<open>RangeError\<close> of a number of decimals that \<open>Intl\<close> does not take.\<close>

definition formatNumber :: "js_float \<Rightarrow> int option \<Rightarrow> jstring + jstring" where
  "formatNumber num decimals =
     (let decimalPlaces = (case decimals of None \<Rightarrow> 0 | Some d \<Rightarrow> d) in
      if decimalPlaces < 0 \<or> 100 < decimalPlaces then Inl (lit ''RangeError'')
      else let d = nat decimalPlaces in Inr (case num of
          Finite q \<Rightarrow> (if q < 0 then lit ''-'' else []) @ formatMagnitude d (roundedUnits d q)
        | NegZero \<Rightarrow> lit ''-'' @ formatMagnitude d 0
        | NotANumber \<Rightarrow> lit ''NaN''
        | Infinite neg \<Rightarrow> (if neg then lit ''-'' else []) @ [8734]))"

section \<open>Reading a number back\<close>

definition withoutCommas :: "jstring \<Rightarrow> jstring" where
  "withoutCommas s = filter (\<lambda>u. u \<noteq> 44) s"

lemma withoutCommas_simps [simp]:
  "withoutCommas [] = []" "withoutCommas (u # s) = (if u = 44 then withoutCommas s else u # withoutCommas s)"
  "withoutCommas (s @ t) = withoutCommas s @ withoutCommas t" "withoutCommas (rev s) = rev (withoutCommas s)"
  by (simp_all add: withoutCommas_def rev_filter)

lemma withoutCommas_digits [simp]: "list_all isDigit ds \<Longrightarrow> withoutCommas ds = ds"
  by (induction ds) (auto simp: isDigit_def)

lemma withoutCommas_pairs: "withoutCommas (pairsFromRight ds) = withoutCommas ds"
  by (induction ds rule: pairsFromRight.induct) simp_all

lemma withoutCommas_groups: "withoutCommas (indianGroups ds) = withoutCommas ds"
proof (cases "length ds \<le> 3")
  case False
  have "withoutCommas (take n ds) @ withoutCommas (drop n ds) = withoutCommas ds" for n
    by (simp flip: withoutCommas_simps(3))
  with False show ?thesis by (simp add: indianGroups_def withoutCommas_pairs lit_def)
qed (simp add: indianGroups_def)

text \<open>Every comma leaves a multiple of two digits and three more behind it.\<close>

lemma pairs_blocks:
  "list_all isDigit ds \<Longrightarrow> i < length (pairsFromRight ds) \<Longrightarrow> pairsFromRight ds ! i = 44 \<longleftrightarrow> i mod 3 = 2"
proof (induction ds arbitrary: i rule: pairsFromRight.induct)
  case (1 a b c ds)
  show ?case
  proof (cases "i < 3")
    case True
    then have "i = 0 \<or> i = 1 \<or> i = 2" by arith
    with 1(2) show ?thesis by (auto simp: isDigit_def)
  next
    case False
    then obtain j where j: "i = j + 3" using le_Suc_ex[of 3 i] by (auto simp: add.commute)
    with 1 show ?thesis by simp
  qed
qed (auto simp: isDigit_def less_Suc_eq nth_Cons')

lemma digits_natToString: "list_all isDigit (natToString 10 n)"
  using radixDigits_less[of 10 _ n] by (auto simp: natToString_def list_all_iff intro: digitUnit_digit)

lemma digits_padStart: "list_all isDigit s \<Longrightarrow> list_all isDigit (padStart n 48 s)"
  by (auto simp: padStart_def list_all_iff isDigit_def)

lemma digitsValue_snoc [simp]: "digitsValue (ds @ [u]) = digitsValue ds * 10 + of_nat (unat u - 48)"
  by (simp add: digitsValue_def)

lemma digitsValue_digits: "\<forall>d \<in> set ds. d < 10 \<Longrightarrow> digitsValue (map digitUnit ds) = of_nat (radixValue 10 ds)"
  by (induction ds rule: rev_induct) (simp_all add: unat_digitUnit, simp add: digitsValue_def)

lemma digitsValue_natToString [simp]: "digitsValue (natToString 10 n) = of_nat n"
  unfolding natToString_def
  by (subst digitsValue_digits) (auto simp: radixValue_radixDigits intro: radixDigits_less)

lemma digitsValue_padStart [simp]: "digitsValue (padStart n 48 s) = digitsValue s"
proof -
  have "foldl (\<lambda>acc u. acc * 10 + of_nat (unat u - 48)) 0 (replicate k (48 :: code_unit)) = (0 :: rat)" for k
    by (induction k) simp_all
  then show ?thesis by (simp add: digitsValue_def padStart_def)
qed

lemma span_digits: "list_all isDigit ds \<Longrightarrow> \<not> isDigit u
    \<Longrightarrow> takeWhile isDigit (ds @ u # s) = ds \<and> dropWhile isDigit (ds @ u # s) = u # s"
  by (induction ds) auto

lemma parseDecimal_digits:
  assumes "list_all isDigit ws" "ws \<noteq> []" "list_all isDigit fs" "fs \<noteq> []"
  shows "parseDecimal ws = Some (digitsValue ws, [])"
    and "parseDecimal (ws @ 46 # fs) = Some (digitsValue ws + digitsValue fs / 10 ^ length fs, [])"
proof -
  have t: "takeWhile isDigit ws = ws" "takeWhile isDigit fs = fs" "dropWhile isDigit ws = []" "dropWhile isDigit fs = []"
    using assms by (auto simp: list_all_iff takeWhile_eq_all_conv dropWhile_eq_Nil_conv)
  have "\<not> isDigit 46" by (simp add: isDigit_def)
  note s = span_digits[OF assms(1) this, of fs]
  show "parseDecimal ws = Some (digitsValue ws, [])"
    unfolding parseDecimal_def Let_def t using assms(2) by simp
  show "parseDecimal (ws @ 46 # fs) = Some (digitsValue ws + digitsValue fs / 10 ^ length fs, [])"
    unfolding parseDecimal_def Let_def s[THEN conjunct1] s[THEN conjunct2] using assms(2,4) by (simp add: t lit_def)
qed

lemma natToString_neq_Nil [simp]: "natToString b n \<noteq> []"
  by (simp add: natToString_def)

lemma magnitude_reads_back:
  "parseDecimal (withoutCommas (formatMagnitude d m)) = Some (of_nat m / 10 ^ d, [])"
proof (cases "d = 0")
  case True
  then show ?thesis
    using parseDecimal_digits(1)[OF digits_natToString[of m], of "[48]"] digits_natToString[of m]
    by (simp add: formatMagnitude_def withoutCommas_groups isDigit_def)
next
  case False
  let ?w = "natToString 10 (m div 10 ^ d)" and ?f = "padStart d 48 (natToString 10 (m mod 10 ^ d))"
  have f: "list_all isDigit ?f" by (simp add: digits_padStart digits_natToString)
  have "length (natToString 10 (m mod 10 ^ d)) \<le> d"
    using False by (simp add: natToString_def length_radixDigits_le)
  then have len: "length ?f = d" by (simp add: length_padStart)
  with False have "?f \<noteq> []" by (metis length_0_conv)
  then have "parseDecimal (?w @ 46 # ?f) = Some (digitsValue ?w + digitsValue ?f / 10 ^ length ?f, [])"
    using f by (intro parseDecimal_digits(2)) (simp_all add: digits_natToString)
  also have "digitsValue ?w + digitsValue ?f / 10 ^ length ?f = of_nat m / 10 ^ d"
  proof -
    have "(of_nat m :: rat) = of_nat (m div 10 ^ d) * 10 ^ d + of_nat (m mod 10 ^ d)"
      using arg_cong[OF div_mult_mod_eq[of m "10 ^ d"], of "of_nat :: nat \<Rightarrow> rat"]
      by (simp only: of_nat_add of_nat_mult of_nat_power of_nat_numeral)
    then show ?thesis by (simp add: len add_divide_distrib)
  qed
  finally show ?thesis
    using False f by (simp add: formatMagnitude_def withoutCommas_groups digits_natToString lit_def)
qed

text \<open>The number that is written is within half of a unit of its last decimal.\<close>

lemma roundedUnits_close: "\<bar>of_nat (roundedUnits d q) / 10 ^ d - \<bar>q\<bar>\<bar> \<le> 1 / (2 * 10 ^ d)"
proof -
  let ?x = "\<bar>q\<bar> * 10 ^ d"
  have "\<bar>of_int \<lfloor>?x + 1 / 2\<rfloor> - ?x\<bar> \<le> 1 / 2" by linarith
  moreover have "0 \<le> \<lfloor>?x + 1 / 2\<rfloor>" by simp
  ultimately have "\<bar>of_nat (roundedUnits d q) - ?x\<bar> \<le> 1 / 2"
    by (simp add: roundedUnits_def of_nat_nat)
  then have "\<bar>of_nat (roundedUnits d q) - ?x\<bar> / 10 ^ d \<le> (1 / 2) / 10 ^ d"
    by (rule divide_right_mono) simp
  moreover have "\<bar>of_nat (roundedUnits d q) - ?x\<bar> / 10 ^ d = \<bar>(of_nat (roundedUnits d q) - ?x) / 10 ^ d\<bar>"
    by simp
  ultimately show ?thesis by (simp add: diff_divide_distrib)
qed

text \<open>The examples of the source.\<close>

lemma example_units: "roundedUnits 0 123456 = 123456" "roundedUnits 2 (246913 / 2) = 12345650"
  "roundedUnits (Suc 0) (1234567 / 10) = 1234567"
  by (simp_all add: roundedUnits_def nat_eq_iff floor_eq_iff)

lemma example_digits: "natToString 10 123456 = lit ''123456''" "natToString 10 50 = lit ''50''" "natToString 10 7 = lit ''7''"
  by (simp_all add: natToString_def radixDigits.simps[of 10 "numeral k" for k] radixDigits.simps[of 10 "Suc 0"] digitUnit_def lit_def)

lemma format_examples:
  "formatNumber (Finite 123456) None = Inr (lit ''1,23,456'')"
  "formatNumber (Finite (1234565 / 10)) (Some 2) = Inr (lit ''1,23,456.50'')"
  "formatNumber (Finite (1234567 / 10)) (Some 1) = Inr (lit ''1,23,456.7'')"
  by (simp_all add: formatNumber_def example_units formatMagnitude_def example_digits indianGroups_def padStart_def lit_def)

end
