(* ===== verification/Animations.thy ===== *)
theory Animations
  imports UiComponents
begin

text \<open>
  The animated values of \<open>packages/ui/expo\<close>: of the toast (\<open>alert.tsx\<close>), the modal of the picker
  (\<open>picker.tsx\<close>) and the thumb of the toggle (\<open>toggle.tsx\<close>). A motion is what the code asks of the
  animation libraries; where it ends is documented behaviour, the path between is left to them.
\<close>

section \<open>Motions\<close>

datatype motion = Jump rat | Timing rat nat | Spring rat nat nat

type_synonym motions = "(string \<times> motion) list"
type_synonym animated = "string \<Rightarrow> rat"

fun target :: "motion \<Rightarrow> rat" where
  "target (Jump v) = v"
| "target (Timing v ms) = v"
| "target (Spring v damping stiffness) = v"

text \<open>The time after which a motion is over; a spring swings for as long as it does.\<close>

fun lasts :: "motion \<Rightarrow> nat option" where
  "lasts (Jump v) = Some 0"
| "lasts (Timing v ms) = Some ms"
| "lasts (Spring v damping stiffness) = None"

text \<open>Where the values are when the motions have ended: a later motion of a value replaces an earlier one.\<close>

definition settled :: "motions \<Rightarrow> animated \<Rightarrow> animated" where
  "settled ms a = foldl (\<lambda>a (name, m). a(name := target m)) a ms"

section \<open>Toasts\<close>

definition alertStart :: "bool \<Rightarrow> animated" where
  "alertStart toast = (\<lambda>name. 0)
     (''translateY'' := (if toast then - 100 else 0), ''opacity'' := (if toast then 0 else 1),
      ''scale'' := (if toast then 95 / 100 else 1))"

definition alertShow :: "bool \<Rightarrow> motions" where
  "alertShow toast = (if toast then [(''translateY'', Spring 0 22 400), (''opacity'', Timing 1 150),
     (''scale'', Spring 1 22 400)] else [])"

definition alertClose :: motions where
  "alertClose = [(''translateY'', Timing (- 100) 250), (''opacity'', Timing 0 250), (''scale'', Timing (95 / 100) 250)]"

text \<open>The delay after which \<open>handleClose\<close> hides the toast.\<close>

definition hideDelay :: nat where
  "hideDelay = 250"

definition animatedStyle :: "bool \<Rightarrow> animated \<Rightarrow> (string \<times> rat) list" where
  "animatedStyle toast a = (if \<not> toast then [] else
     [(''translateY'', a ''translateY''), (''scale'', a ''scale''), (''opacity'', a ''opacity'')])"

text \<open>
  A toast is off the screen and transparent when it is mounted, in place and opaque when it has come
  in, and back where it started when it is hidden: every motion of the closing is over by then.
\<close>

lemma toast_motions:
  "settled (alertShow True) (alertStart True) = alertStart False
   \<and> settled alertClose (settled (alertShow True) (alertStart True)) = alertStart True
   \<and> list_all (\<lambda>(name, m). \<exists>ms. lasts m = Some ms \<and> ms \<le> hideDelay) alertClose"
  by (auto simp: settled_def alertShow_def alertStart_def alertClose_def hideDelay_def)

lemma inline_alert_rests:
  "settled (alertShow False) (alertStart False) = alertStart False \<and> animatedStyle False a = []"
  by (simp add: settled_def alertShow_def animatedStyle_def)

section \<open>The modal of the picker\<close>

definition pickerStart :: animated where
  "pickerStart = (\<lambda>name. 0)(''overlayOpacity'' := 0, ''modalTranslateY'' := 300)"

definition pickerMotions :: "bool \<Rightarrow> motions" where
  "pickerMotions isModalOpen =
     (if isModalOpen then [(''overlayOpacity'', Timing 1 300), (''modalTranslateY'', Timing 0 300)]
      else [(''overlayOpacity'', Jump 0), (''modalTranslateY'', Jump 300)])"

text \<open>
  However often the modal was opened and closed: closed, it is at once where it started, so that it
  slides in again; open, it settles in place within 300 milliseconds.
\<close>

lemma picker_motions:
  "settled (concat (map pickerMotions (opens @ [False]))) pickerStart = pickerStart
   \<and> settled (concat (map pickerMotions (opens @ [True]))) pickerStart
       = pickerStart(''overlayOpacity'' := 1, ''modalTranslateY'' := 0)
   \<and> list_all (\<lambda>(name, m). lasts m = Some (if b then 300 else 0)) (pickerMotions b)"
proof -
  have "settled (concat (map pickerMotions opens)) pickerStart
      \<in> {pickerStart, pickerStart(''overlayOpacity'' := 1, ''modalTranslateY'' := 0)}"
    by (induction opens rule: rev_induct) (auto simp: settled_def pickerMotions_def pickerStart_def)
  then show ?thesis
    by (auto simp: settled_def pickerMotions_def pickerStart_def fun_upd_twist)
qed

section \<open>The thumb of the toggle\<close>

definition toggleMotion :: "bool \<Rightarrow> motions" where
  "toggleMotion value = [(''animatedValue'', Timing (if value then 1 else 0) 200)]"

text \<open>\<open>interpolate\<close> between the two ends of the range.\<close>

definition thumbAt :: "toggle_size \<Rightarrow> rat \<Rightarrow> rat" where
  "thumbAt sz v = of_int (fst (thumbRange sz)) + v * (of_int (snd (thumbRange sz)) - of_int (fst (thumbRange sz)))"

text \<open>
  Whatever the value was changed to and fro, the thumb settles where the last value belongs, and on
  its way, with a value between 0 and 1, it stays inside of the container with four pixels to spare.
\<close>

lemma toggle_thumb:
  "settled (concat (map toggleMotion (values @ [v]))) a ''animatedValue'' = (if v then 1 else 0)
   \<and> (0 \<le> p \<and> p \<le> 1 \<longrightarrow> 4 \<le> thumbAt sz p
        \<and> thumbAt sz p + of_int (snd (toggleSizes sz)) \<le> of_int (fst (toggleSizes sz)) - 4)"
  by (cases sz) (auto simp: settled_def toggleMotion_def thumbAt_def thumbRange_def)

end
