(* ===== verification/Configuration.thy ===== *)
theory Configuration
  imports Server
begin

text \<open>
  What the program computes before it serves anyone: the script that renews the signing secret
  (\<open>apps/api/scripts/generate-jwt-secret.js\<close>), the identifiers of the mobile application
  (\<open>apps/mobile/app.config.ts\<close>), the database of the migrations (\<open>drizzle.config.ts\<close>), and the
  headers of \<open>apps/api/src/config/cors.ts\<close> around the application.
\<close>

section \<open>The signing secret\<close>

definition base62 :: jstring where
  "base62 = lit ''0123456789abcdefghijklmnopqrstuvwxyzABCDEFGHIJKLMNOPQRSTUVWXYZ''"

text \<open>\<open>bytes\<close> are the random bytes that the script draws.\<close>

definition generateBase62Secret :: "nat \<Rightarrow> 8 word list \<Rightarrow> jstring" where
  "generateBase62Secret len bytes = map (\<lambda>i. base62 ! (unat (bytes ! i) mod 62)) [0..<len]"

text \<open>
  \<open>content.replace(/^JWT_SECRET=.*$/m, line)\<close>, or \<open>None\<close> if there is no match: the first line that
  starts with the name, up to the next line terminator. The new line has no \<open>$\<close>, which is the only
  character that is special in a replacement.
\<close>

definition isLineEnd :: "code_unit \<Rightarrow> bool" where
  "isLineEnd u \<longleftrightarrow> u \<in> {0x0A, 0x0D, 0x2028, 0x2029}"

fun replaceSecretLine :: "bool \<Rightarrow> jstring \<Rightarrow> jstring \<Rightarrow> jstring option" where
  "replaceSecretLine lineStart line [] = None"
| "replaceSecretLine lineStart line (u # s) =
     (if lineStart \<and> startsWith (u # s) (lit ''JWT_SECRET='')
      then Some (line @ dropWhile (\<lambda>u. \<not> isLineEnd u) (u # s))
      else map_option (Cons u) (replaceSecretLine (isLineEnd u) line s))"

text \<open>The file \<open>.dev.vars\<close>, the failures of the file system, the random bytes, and the console.\<close>

record script_world =
  sw_file :: "jstring option"
  sw_readError :: "jstring option"
  sw_writeError :: "jstring option"
  sw_bytes :: "8 word list"
  sw_log :: "jstring list"
  sw_errors :: "jstring list"

definition ansi :: "string \<Rightarrow> jstring" where
  "ansi code = 0x1B # lit (''['' @ code @ ''m'')"

definition updateJWTSecret :: "script_world \<Rightarrow> (jstring + unit) \<times> script_world" where
  "updateJWTSecret w = (case sw_file w of
       None \<Rightarrow> (Inl (lit ''.dev.vars file not found''), w)
     | Some content \<Rightarrow>
     (case sw_readError w of
       Some e \<Rightarrow> (Inl e, w)
     | None \<Rightarrow>
     let newSecret = generateBase62Secret 64 (sw_bytes w) in
     (case replaceSecretLine True (lit ''JWT_SECRET='' @ newSecret) content of
       None \<Rightarrow> (Inl (lit ''JWT_SECRET not found in .dev.vars''), w)
     | Some content' \<Rightarrow>
     (case sw_writeError w of
       Some e \<Rightarrow> (Inl e, w)
     | None \<Rightarrow> (Inr (), w\<lparr>sw_file := Some content', sw_log := sw_log w @
         [ansi ''32'' @ 0x2713 # ansi ''0'' @ lit '' Generated new JWT secret '' @ ansi ''32'' @ take 20 newSecret
            @ lit ''...'' @ ansi ''0'',
          lit ''  Length: 64 characters (~380 bits entropy)'',
          lit ''  '' @ ansi ''33'' @ lit ''Updated .dev.vars with the new secret'' @ ansi ''0'']\<rparr>)))))"

definition secretScript :: "script_world \<Rightarrow> script_world" where
  "secretScript w = (case updateJWTSecret w of
       (Inl message, w') \<Rightarrow> w'\<lparr>sw_errors := sw_errors w' @ [ansi ''31'' @ message @ ansi ''0'']\<rparr>
     | (Inr _, w') \<Rightarrow> w')"

lemma length_base62: "length base62 = 62"
  by (simp add: base62_def)

lemma secret_shape:
  "length (generateBase62Secret n bytes) = n \<and> set (generateBase62Secret n bytes) \<subseteq> set base62"
  using length_base62 by (auto simp: generateBase62Secret_def)

text \<open>
  Over all bytes, every character is drawn from four of them and the first eight from a fifth one.
\<close>

lemma secret_bias:
  "generateBase62Secret 256 (map of_nat [0..<256]) = concat (replicate 4 base62) @ take 8 base62"
proof -
  have mods: "map (\<lambda>b. b mod 62) [0..<256] = concat (replicate 4 [0..<62]) @ [0..<(8 :: nat)]" by code_simp
  have "generateBase62Secret 256 (map of_nat [0..<256]) = map (\<lambda>b. base62 ! (b mod 62)) [0..<256]"
    by (simp add: generateBase62Secret_def unat_of_nat)
  also have "\<dots> = map ((!) base62) (map (\<lambda>b. b mod 62) [0..<256])" by simp
  also have "\<dots> = concat (replicate 4 (map ((!) base62) [0..<62])) @ map ((!) base62) [0..<8]"
    unfolding mods by (simp add: map_concat)
  also have "map ((!) base62) [0..<62] = base62"
    using map_nth[of base62] by (simp add: length_base62)
  also have "map ((!) base62) [0..<8] = take 8 base62"
    by (simp add: list_eq_iff_nth_eq length_base62)
  finally show ?thesis .
qed

lemma replaceSecretLine_Some:
  assumes "replaceSecretLine b line s = Some s'"
  shows "\<exists>pre old post. s = pre @ lit ''JWT_SECRET='' @ old @ post \<and> s' = pre @ line @ post
    \<and> (pre = [] \<and> b \<or> pre \<noteq> [] \<and> isLineEnd (last pre))
    \<and> list_all (\<lambda>u. \<not> isLineEnd u) old \<and> (post = [] \<or> isLineEnd (hd post))"
  using assms
proof (induction b line s arbitrary: s' rule: replaceSecretLine.induct)
  case (2 b line u s)
  show ?case
  proof (cases "b \<and> startsWith (u # s) (lit ''JWT_SECRET='')")
    case True
    then obtain r where r: "u # s = lit ''JWT_SECRET='' @ r" by (auto simp: startsWith_iff)
    have "dropWhile (\<lambda>u. \<not> isLineEnd u) (lit ''JWT_SECRET='' @ r) = dropWhile (\<lambda>u. \<not> isLineEnd u) r"
      by (simp add: lit_def isLineEnd_def)
    moreover have "s' = line @ dropWhile (\<lambda>u. \<not> isLineEnd u) (u # s)" using True 2(2) by simp
    ultimately have "s' = line @ dropWhile (\<lambda>u. \<not> isLineEnd u) r" using r by simp
    moreover have "r = takeWhile (\<lambda>u. \<not> isLineEnd u) r @ dropWhile (\<lambda>u. \<not> isLineEnd u) r" by simp
    moreover have "list_all (\<lambda>u. \<not> isLineEnd u) (takeWhile (\<lambda>u. \<not> isLineEnd u) r)"
      by (auto simp: list_all_iff dest: set_takeWhileD)
    moreover have "dropWhile (\<lambda>u. \<not> isLineEnd u) r = [] \<or> isLineEnd (hd (dropWhile (\<lambda>u. \<not> isLineEnd u) r))"
      using hd_dropWhile[of "\<lambda>u. \<not> isLineEnd u" r] by auto
    ultimately show ?thesis using r True by (metis append_Nil)
  next
    case False
    with 2(2) obtain t where t: "replaceSecretLine (isLineEnd u) line s = Some t" "s' = u # t" by auto
    from 2(1)[OF False t(1)] obtain pre old post where
      "s = pre @ lit ''JWT_SECRET='' @ old @ post" "t = pre @ line @ post"
      "pre = [] \<and> isLineEnd u \<or> pre \<noteq> [] \<and> isLineEnd (last pre)"
      "list_all (\<lambda>u. \<not> isLineEnd u) old" "post = [] \<or> isLineEnd (hd post)" by blast
    then show ?thesis using t(2) by (intro exI[of _ "u # pre"] exI[of _ old] exI[of _ post]) auto
  qed
qed simp

text \<open>
  The script changes the value in the line of the secret and nothing else: what is before and after
  the line stays, the new value has 64 characters of the alphabet, and when there is no such line,
  no file, or a failure, the file stays as it is and the reason is shown.
\<close>

lemma secret_renewed:
  "(case sw_file (secretScript w) of
      Some content' \<Rightarrow> \<exists>content. sw_file w = Some content \<and>
        (content' = content \<or> (\<exists>pre old post. content = pre @ lit ''JWT_SECRET='' @ old @ post
           \<and> content' = pre @ lit ''JWT_SECRET='' @ generateBase62Secret 64 (sw_bytes w) @ post
           \<and> (pre = [] \<or> isLineEnd (last pre)) \<and> list_all (\<lambda>u. \<not> isLineEnd u) old
           \<and> (post = [] \<or> isLineEnd (hd post))))
    | None \<Rightarrow> sw_file w = None)
   \<and> (sw_errors (secretScript w) = sw_errors w \<longleftrightarrow>
        (\<exists>content. sw_file w = Some content \<and> sw_readError w = None \<and> sw_writeError w = None
           \<and> replaceSecretLine True (lit ''JWT_SECRET='' @ generateBase62Secret 64 (sw_bytes w)) content \<noteq> None))"
proof -
  have "\<exists>pre old post. s = pre @ lit ''JWT_SECRET='' @ old @ post
           \<and> s' = pre @ lit ''JWT_SECRET='' @ generateBase62Secret 64 (sw_bytes w) @ post
           \<and> (pre = [] \<or> isLineEnd (last pre)) \<and> list_all (\<lambda>u. \<not> isLineEnd u) old
           \<and> (post = [] \<or> isLineEnd (hd post))"
    if "replaceSecretLine True (lit ''JWT_SECRET='' @ generateBase62Secret 64 (sw_bytes w)) s = Some s'" for s s'
    using replaceSecretLine_Some[OF that] by auto
  then show ?thesis
    by (simp add: secretScript_def updateJWTSecret_def Let_def split: option.split sum.split prod.split)
qed

section \<open>Static configuration\<close>

text \<open>
  \<open>app.config.ts\<close>: the slug is the name in lower case without white space; an object that is
  spread but absent adds nothing.
\<close>

definition fieldsOf :: "json option \<Rightarrow> fields" where
  "fieldsOf j = (case j of Some (JObj fs) \<Rightarrow> fs | _ \<Rightarrow> [])"

definition appSlug :: "ext \<Rightarrow> jstring \<Rightarrow> jstring" where
  "appSlug x name = filter (\<lambda>u. \<not> isSpace u) (x_toLowerCase x name)"

definition appConfig :: "ext \<Rightarrow> jstring option \<Rightarrow> jstring \<Rightarrow> fields \<Rightarrow> fields" where
  "appConfig x googleIosUrlScheme name expo =
     (let slug = appSlug x name;
          applicationId = lit ''com.viralapps.'' @ slug;
          plugins = (case map_of expo (lit ''plugins'') of Some (JArr ps) \<Rightarrow> ps | _ \<Rightarrow> [])
      in spread expo
        [(lit ''slug'', JStr slug), (lit ''scheme'', JStr slug),
         (lit ''ios'', JObj (spread (fieldsOf (map_of expo (lit ''ios''))) [(lit ''bundleIdentifier'', JStr applicationId)])),
         (lit ''android'', JObj (spread (fieldsOf (map_of expo (lit ''android''))) [(lit ''package'', JStr applicationId)])),
         (lit ''plugins'', JArr (plugins @ [JArr [JStr (lit ''@react-native-google-signin/google-signin''),
            JObj (case googleIosUrlScheme of None \<Rightarrow> [] | Some s \<Rightarrow> [(lit ''iosUrlScheme'', JStr s)])]]))])"

definition databaseUrl :: "jstring option \<Rightarrow> jstring + jstring" where
  "databaseUrl url = (if \<not> truthyOpt url then Inl (lit ''DATABASE_URL environment variable is not set!'')
     else Inr (the url))"

text \<open>Both platforms and the URL scheme are named after the same slug, which has no white space.\<close>

lemma app_identifiers_agree:
  "map_of (appConfig x g name expo) (lit ''scheme'') = Some (JStr (appSlug x name))
   \<and> (\<exists>i a. map_of (appConfig x g name expo) (lit ''ios'') = Some (JObj i)
        \<and> map_of (appConfig x g name expo) (lit ''android'') = Some (JObj a)
        \<and> map_of i (lit ''bundleIdentifier'') = Some (JStr (lit ''com.viralapps.'' @ appSlug x name))
        \<and> map_of a (lit ''package'') = Some (JStr (lit ''com.viralapps.'' @ appSlug x name)))
   \<and> list_all (\<lambda>u. \<not> isSpace u) (appSlug x name)"
  by (simp add: appConfig_def Let_def spread_def update_conv' appSlug_def list_all_iff)

section \<open>CORS\<close>

record cors_config =
  cc_origin :: string
  cc_allowMethods :: "string list"
  cc_allowHeaders :: "string list"
  cc_maxAge :: nat
  cc_credentials :: bool

definition corsConfig :: cors_config where
  "corsConfig = \<lparr>cc_origin = ''*'', cc_allowMethods = [''GET'', ''POST'', ''PUT'', ''DELETE'', ''OPTIONS''],
     cc_allowHeaders = [''Content-Type'', ''Authorization''], cc_maxAge = 86400, cc_credentials = False\<rparr>"

text \<open>
  The documented behaviour of Hono's middleware: the origin on every response; a preflight is
  answered with 204, no body and what is allowed, before anything else runs.
\<close>

definition corsHeaders :: "cors_config \<Rightarrow> (string \<times> jstring) list" where
  "corsHeaders cc = (''Access-Control-Allow-Origin'', lit (cc_origin cc))
     # (if cc_credentials cc then [(''Access-Control-Allow-Credentials'', lit ''true'')] else [])"

definition preflightHeaders :: "cors_config \<Rightarrow> (string \<times> jstring) list" where
  "preflightHeaders cc = corsHeaders cc @
     [(''Access-Control-Max-Age'', natToString 10 (cc_maxAge cc)),
      (''Access-Control-Allow-Methods'', join (lit '','') (map lit (cc_allowMethods cc))),
      (''Access-Control-Allow-Headers'', join (lit '','') (map lit (cc_allowHeaders cc)))]"

definition corsApp :: "ctx \<Rightarrow> request \<Rightarrow> (world, exn, response \<times> (string \<times> jstring) list) prog" where
  "corsApp c req =
     (if q_method req = lit ''OPTIONS'' then Ret (\<lparr>r_status = 204, r_body = None\<rparr>, preflightHeaders corsConfig)
      else bindP (app c req) (\<lambda>r. Ret (r, corsHeaders corsConfig)))"

text \<open>
  Every response names the origin \<open>*\<close> and none allows credentials; a preflight changes nothing and
  reaches no route.
\<close>

lemma cors_answers:
  assumes "run (corsApp c req) w = (Done (r, hs), w')"
  shows "map_of hs ''Access-Control-Allow-Origin'' = Some (lit ''*'')
    \<and> map_of hs ''Access-Control-Allow-Credentials'' = None
    \<and> (if q_method req = lit ''OPTIONS'' then r_status r = 204 \<and> w' = w else run (app c req) w = (Done r, w'))"
  using assms
  by (auto simp: corsApp_def corsHeaders_def preflightHeaders_def corsConfig_def split: outcome.splits prod.splits if_splits)

end
