(* ===== verification/Spec2Isabelle.thy ===== *)
theory Spec2Isabelle
  imports Journey ClientRefresh SessionHistory UploadJourney Adapters StreetView SignupTaps
    DemoScreen MailTemplate Numbers Animations Configuration
begin

text \<open>
  A verification library of the Prism Stack repository: a Hono API on Cloudflare Workers with a
  Postgres database (\<open>apps/api\<close>), an Expo mobile application (\<open>apps/mobile\<close>) and the packages they
  share (\<open>packages/auth\<close>, \<open>schemas\<close>, \<open>types\<close>, \<open>utils\<close>, \<open>ui\<close>, \<open>email\<close>).

  \<^bold>\<open>The program.\<close> A user signs up or in with a phone and a one-time code, or with Google or Apple.
  The server stores codes, accounts, profiles and sessions; it answers with a short-lived access
  token and a refresh token, which the client keeps in the secure storage, attaches to private
  requests and renews. Messages, e-mails and the deletion of half-made accounts run as background
  tasks. Images are uploaded through the server to an object store.

  \<^bold>\<open>Foundations.\<close> \<open>Prelude\<close>: strings as lists of 16-bit code units, JSON, lists. \<open>Interfaces\<close>: the
  contracts as locales (a keyed store, a transition system, an event machine, a block codec).
  \<open>Runtime\<close>: programs with effects as a datatype \<open>prog\<close> whose \<open>await\<close>s are the points of
  interleaving (a promise that is pending makes its reader wait), their execution alone (\<open>run\<close>, with the outcomes \<open>Done\<close>, \<open>Thrown\<close> and \<open>Hung\<close>), the
  step relation \<open>sys_step\<close> of several programs on one world, and guarantees that hold along every
  interleaving. \<open>Interleaving\<close>: assertions per program with credits, whose sum is a budget that all
  programs share. \<open>Platform\<close>: the world of the server (database, clock, random bytes, statements
  that fail or lose their answer, background tasks, requests sent) and the third-party functions as a record of
  parameters. \<open>Samples\<close>: concrete instances for the witnesses.

  \<^bold>\<open>The server.\<close>
  \<^item> \<open>Database\<close>: tables, constraints and statements of \<open>db/schema.ts\<close> and the handlers' queries.
  \<^item> \<open>Responses\<close> (\<open>utils/response.ts\<close>), \<open>Text\<close> (\<open>utils/shared/src/text.ts\<close>), \<open>Schemas\<close>
    (\<open>packages/schemas\<close>).
  \<^item> \<open>AuthTokens\<close>, \<open>AuthHandlers\<close>: \<open>modules/auth/handlers.ts\<close>, one definition per function.
    \<open>AuthInvariants\<close>: what every statement keeps. \<open>AuthOtp\<close>: one-time codes, refinement of a
    specification on one row, limit on guesses, cooldown. \<open>AuthSessions\<close>: rotation, refusal and
    revocation of refresh tokens. \<open>SessionHistory\<close>: the contract of the sessions as a table from
    tokens to sessions, which the handlers refine over whole histories of requests; a token is good
    once. \<open>AuthAccounts\<close>: signup and sign-in on every branch, and what a signup
    leaves behind on a network that fails or loses an answer.
  \<^item> \<open>Adapters\<close>: text messages, e-mails, background tasks. \<open>Upload\<close>: uploads and the Signature V4
    code. \<open>Server\<close>: middlewares, routes and the application; it always answers and keeps the
    database consistent in every interleaving. \<open>StreetView\<close>: \<open>utils/property-image.ts\<close>; an address
    cannot add parameters to the request. \<open>Configuration\<close>: the script that renews the signing
    secret, the identifiers of the application, and the CORS headers around the server.

  \<^bold>\<open>The client.\<close>
  \<^item> \<open>ClientStore\<close>: logger, device, secure storage, and the persisted store of \<open>store.ts\<close>; every
    change of the store issues a write, writes reach the storage in order and later.
  \<^item> \<open>ClientApi\<close>: \<open>api.ts\<close>, the interceptors, the shared refresh promise, refresh and logout. The
    recursion of a call through its interceptors is bounded by \<open>callDepth = 3\<close>; \<open>api_depth\<close> shows
    that a larger bound changes nothing, since a call goes at most from the request to the refresh
    and to one retry. A call that awaits its own pending refresh is \<open>Hung\<close>, as in the source.
  \<^item> \<open>ClientService\<close>: \<open>service.ts\<close>, and that the storage mirrors the store. \<open>ClientSession\<close>: sessions
    survive a restart, expired tokens are refreshed once, calls return, logout clears; a failed
    refresh disables later ones. \<open>ClientRefresh\<close>: calls that run at the same time share one refresh;
    concrete runs show what a late answer and a sign-out during a refresh do.
  \<^item> \<open>ClientForms\<close>: \<open>use-form.ts\<close> and the signup wizard (\<open>useSignupFlow.ts\<close>, \<open>signup.tsx\<close>).
    \<open>ClientScreens\<close>: the other hooks, navigation and the root layout. \<open>ClientImages\<close>: image URLs,
    \<open>use-image-upload.ts\<close>, \<open>ImageGrid.tsx\<close>. \<open>UiComponents\<close>: code input, picker, toggle, toasts.
    \<open>Animations\<close>: where the animated values of the components settle.
    \<open>AppScreens\<close>: the login and code screens around the hooks; after a code was sent again, the code
    screen sends nothing for a minute. \<open>Numbers\<close>: \<open>utils/shared/src/number.ts\<close>.
  \<^item> \<open>Views\<close>: the components of \<open>packages/ui\<close> and the tables of \<open>theme.ts\<close> as functions from props and
    state to a tree of elements, with what a tree offers (\<open>presses\<close>, \<open>edits\<close>) and shows.
    \<open>ScreenViews\<close>: the trees of the screens of \<open>apps/mobile\<close>. \<open>SignupTaps\<close>: the signup screen in use,
    a gesture hitting what is rendered. \<open>DemoScreen\<close>: the showcase with its state. \<open>MailTemplate\<close>:
    the tree of the welcome mail.
  \<^item> \<open>System\<close>: the network of the client instantiated with the application of the server. \<open>Journey\<close>:
    the hooks of the login and code screens on that network. \<open>UploadJourney\<close>: the upload hook against
    the upload routes, up to the requests to the object store. The properties below run the client
    against the server.

  \<^bold>\<open>Conventions.\<close> Libraries are parameters with named hypotheses that state documented behaviour:
  \<open>jwt_laws\<close> (a signed token verifies until it expires), \<open>errors_only\<close> (libraries reject with
  errors), \<open>transmits\<close> (a JSON body is read back), the round trip of the persisted state. The
  documented behaviour of Hono (error handlers), zustand (persistence) and axios (interceptors,
  rejection by status) is part of the model. \<open>serving\<close> says that the worker is connected and no
  statement fails; properties without it hold on any network, where every statement may fail
  before it is executed, or be executed and lose its answer. The rejection loop of the code
  generator is a \<open>partial_function\<close>; it ends when the random source keeps producing bytes below 250
  (\<open>live\<close>). Times are integers in milliseconds, numbers in JSON rationals. In the client, fields of
  an answer that are not strings are read as absent, the threshold of the proactive refresh is
  computed exactly, and the uploads of one image run one after the other. A repeated query
  parameter is an array, as the validator makes it.

  \<^bold>\<open>Interfaces.\<close> The locales are interpreted on the model: \<open>keyed_store\<close> by the tables of \<open>Database\<close>
  and by the secure storage, \<open>event_machine\<close> by the signup wizard (for the validity of what it submits
  and for the names it can submit), the image grid and the code input, \<open>block_codec\<close> by the hexadecimal coding of \<open>Upload\<close>, the guarantee of \<open>Runtime\<close> by the
  statements of the server, and its extensions \<open>api_guarantee\<close> and \<open>service_guarantee\<close> (what every call
  of the client keeps) by the mirrored storage of \<open>ClientService\<close> and the clock of \<open>ClientRefresh\<close>;
  \<open>shared_budget\<close> by the single refresh of \<open>ClientRefresh\<close>.

  \<^bold>\<open>Not modelled.\<close> The merging of classes, the palette and the layout of rendered trees, which are
  the work of libraries; the path of an animated value between its ends, focus and feedback;
  constants for the bundler and the linter, which compute nothing; the web template, generated
  declarations, tests and documentation. What is left uncovered of the sources is imports, types,
  comments and these.

  \<^bold>\<open>Plan.\<close> What remains is the concurrent calls of the client against the server, of which
  \<open>ClientRefresh\<close> has the client's part, with the server's answers as a hypothesis.
\<close>

section \<open>End to end\<close>

text \<open>
  C1. A returning user gets in, end to end: when the user types a phone that the schema accepts
  and that belongs to a complete account, and no code was sent to it in the last minute, the
  first screen leads to the code screen and the server hands one text message with a code to the
  background. Typing this code at any time until five minutes after the request leads home: the
  client is signed in with the tokens of a new session of that account, which the server has
  stored, the code is used up, and the server admits the requests the client sends with its new
  access token.
\<close>

theorem phone_login_journey:
  assumes server: "serving c (cl_server v)" "jwt_laws (c_ext c)" "live (w_rand (cl_server v))"
      "cx_send x = network c st d" "d \<le> 5000"
    and typed: "phone (Some (JStr p)) = Inr ph" "transmits c st (JObj (otpFields p))"
      "\<And>s. isOtp s \<Longrightarrow> transmits c st (JObj (injectDeviceInfo x (signInFields p s)))"
    and client: "knownOs (dv_os (cx_device x))"
    and account: "\<not> cooling ph (cl_server v)" "selectAuth Phone ph (w_db (cl_server v)) = Some a"
      "selectUser (a_id a) (w_db (cl_server v)) \<noteq> None"
      "\<And>n. sessionFresh (a_id a) ((cl_server v)\<lparr>w_randPos := n\<rparr>)"
    and time: "t \<le> w_now (cl_server v) + 300000"
  shows "\<exists>f v1 s v2 tok di. run (handleSendOtp x own (typedPhone p)) v = (Done f, v1)
    \<and> cl_router v1 = cl_router v @ [Push OtpScreen [(lit ''phone'', p), (lit ''purpose'', lit ''login'')]]
    \<and> w_tasks (cl_server v1) = w_tasks (cl_server v) @ [SendOtpTask ph s]
    \<and> run (handleVerifyOtp x (loginParams p) s) (serverAt t v1) = (Done True, v2)
    \<and> cl_router v2 = cl_router v1 @ [Replace HomeScreen] \<and> s_isAuthenticated (cl_store v2)
    \<and> s_refreshToken (cl_store v2) = Some tok
    \<and> selectToken tok (w_db (cl_server v2)) = Some (newSession (a_id a) (Some di) (cl_server (serverAt t v1)))
    \<and> selectOtp ph (w_db (cl_server v2)) = None
    \<and> (\<forall>req. q_authorization req = Some (bearer (s_accessToken (cl_store v2))) \<longrightarrow> authorised c req (cl_server v2))"
proof -
  let ?w = "cl_server v"
  have "phoneUser ph (w_db ?w)" using account(2,3) by (simp add: phoneUser_def)
  with journey_codeSent[OF server(1,3-5) typed(1,2) account(1)] obtain f v1 s j where
    one: "run (handleSendOtp x own (typedPhone p)) v = (Done f, v1)"
      "cl_server v1 = (codeSent ph s j ?w)\<lparr>w_now := w_now ?w + int d\<rparr>"
      "cl_router v1 = cl_router v @ [Push OtpScreen [(lit ''phone'', p), (lit ''purpose'', lit ''login'')]]"
    and code: "isOtp s" by metis
  define u where "u = cl_server (serverAt t v1)"
  have at: "cl_server (serverAt t v1) = u" "cl_router (serverAt t v1) = cl_router v1"
    by (simp_all add: u_def serverAt_def)
  have u: "u = (codeSent ph s j ?w)\<lparr>w_now := t\<rparr>" by (simp add: u_def serverAt_def one(2))
  have db: "selectAuth Phone ph (w_db u) = Some a" "selectUser (a_id a) (w_db u) \<noteq> None"
    using account(2,3) by (simp_all add: u codeSent_def selectAuth_def selectUser_def upsertOtp_def)
  have row: "selectOtp ph (w_db u) = Some (freshOtp s (w_now ?w))"
    by (simp add: u codeSent_def otp_lookups)
  have "serving c u" using server(1) by (simp add: u codeSent_def)
  moreover have "verdict ph s u = OtpSuccess"
    using time by (simp add: verdict_def row freshOtp_def u[THEN arg_cong[of _ _ w_now]])
  moreover have fresh: "sessionFresh (a_id a) u"
    using account(4)[of j] by (simp add: u codeSent_def sessionFresh_def upsertOtp_def nextRefreshToken_def)
  moreover have "otp (Some (JStr s)) = Inr s"
    using code isOtp_not_space[of s] by (auto simp: otp_eq_Inr isOtp_def)
  ultimately obtain v2 di e where two: "run (handleVerifyOtp x (loginParams p) s) (serverAt t v1) = (Done True, v2)"
    "s_accessToken (cl_store v2) = Some (accessTokenAt c (a_id a) (w_now u))"
    "s_refreshToken (cl_store v2) = Some (nextRefreshToken u)" "s_isAuthenticated (cl_store v2)"
    "cl_router v2 = cl_router v1 @ [Replace HomeScreen]" "otp_change ph None (w_db u) e"
    "cl_server v2 = u\<lparr>w_randPos := w_randPos u + 16, w_idPos := Suc (w_idPos u),
       w_db := e\<lparr>tokens := tokens (w_db u) @ [newSession (a_id a) (Some di) u]\<rparr>, w_now := w_now u + int d\<rparr>"
    using run_handleVerifyOtp[of c "serverAt t v1" x st d p ph s s a] server(4,5) typed(1) typed(3)[OF code] client db
    unfolding at by blast
  have "selectToken (nextRefreshToken u) (w_db (cl_server v2)) = Some (newSession (a_id a) (Some di) u)"
    using selectToken_appended[OF fresh] by (simp add: two(7))
  moreover have "selectUser (a_id a) (w_db (cl_server v2)) \<noteq> None" "selectOtp ph (w_db (cl_server v2)) = None"
    using db(2) two(6) by (simp_all add: two(7) otp_change_def selectUser_def selectOtp_def)
  moreover from this(1) have "authorised c req (cl_server v2)"
    if "q_authorization req = Some (bearer (s_accessToken (cl_store v2)))" for req
    using that server(5) by (intro accessToken_authorises[OF server(2), of _ "a_id a" "w_now u"])
      (auto simp: two(2,7) bearer_def)
  moreover have "w_tasks (cl_server v1) = w_tasks ?w @ [SendOtpTask ph s]" by (simp add: one(2) codeSent_def)
  ultimately show ?thesis
    unfolding at(1)[symmetric] using one(1,3) two(1,3-5)
    by (intro exI[of _ f] exI[of _ v1] exI[of _ s] exI[of _ v2] exI[of _ "nextRefreshToken u"] exI[of _ di]) (auto simp: at)
qed

theorem phone_login_journey_witness:
  "\<exists>f v1 s v2. run (handleSendOtp journey_cext [] (typedPhone sample_phone))
       (system_client (sample_world (deleteOtp sample_phone sample_db)) initialStore) = (Done f, v1)
     \<and> run (handleVerifyOtp journey_cext (loginParams sample_phone) s) (serverAt 1200000 v1) = (Done True, v2)
     \<and> s_isAuthenticated (cl_store v2)"
proof -
  let ?w = "sample_world (deleteOtp sample_phone sample_db)" and ?v = "system_client (sample_world (deleteOtp sample_phone sample_db)) initialStore"
  have v: "cl_server ?v = ?w" by (simp add: system_client_def)
  have rows: "selectAuth Phone sample_phone (w_db ?w) = Some sample_auth" "selectUser (a_id sample_auth) (w_db ?w) \<noteq> None"
    "tokens (w_db ?w) = [sample_token]" "auth (w_db ?w) = [sample_auth]" "\<not> cooling sample_phone ?w"
    by (simp_all add: selectAuth_def selectUser_def sample_db_def sample_auth_def sample_user_def deleteOtp_def
        cooling_def selectOtp_def)
  have "phone (Some (JStr sample_phone)) = Inr sample_phone"
    by (simp add: phone_eq_Inr sample_phone_def js_simps isDigit29_def)
  moreover have "sessionFresh (a_id sample_auth) (?w\<lparr>w_randPos := n\<rparr>)" for n
    using rows by (auto simp: sessionFresh_def lit_def[of "''t1''"])
  moreover have "knownOs (dv_os (cx_device journey_cext))"
    by (simp add: journey_cext_def system_cext_def sample_device_def knownOs_def)
  ultimately show ?thesis
    using phone_login_journey[of journey_ctx ?v journey_cext journeyText 40 sample_phone sample_phone sample_auth 1200000 "[]",
        OF _ journey_laws _ _ _ _ journey_transmits(2,1)] rows(1,2,5) journey_serving
    unfolding v by (simp add: journey_cext_def) blast
qed

text \<open>
  C6. A stale session recovers end to end: when the access token of the client is due for a
  refresh and its session is neither revoked nor expired nor refreshed in the last five minutes,
  one private call is enough. The client sends a refresh and then the call, the server rotates
  the session and admits the call, the call returns the answer of its handler, and the client
  holds the new refresh token, which names the extended session, while the old one names none.
\<close>

theorem stale_session_end_to_end:
  assumes server: "serving c (cl_server v)" "jwt_laws (c_ext c)" "cx_send x = network c st d" "d \<le> 5000"
      "db_ok (w_db (cl_server v))"
    and client: "refreshDue x v" "s_refreshToken (cl_store v) = Some tok" "isRefreshTokenText tok" "cl_refreshPromise v = None"
    and request: "transmits c st (rq_data (refreshRequest tok))" "transmits c st (rq_data (presignedRequest f))"
      "f \<noteq> []" "length f \<le> 100"
    and session: "selectToken tok (w_db (cl_server v)) = Some r" "t_revokedAt r = None"
      "w_now (cl_server v) \<le> t_expiresAt r" "300000 \<le> w_now (cl_server v) - t_lastUsedAt r"
      "selectToken (nextRefreshToken (cl_server v)) (w_db (cl_server v)) = None"
      "selectUser (t_authId r) (w_db (cl_server v)) \<noteq> None"
  shows "\<exists>v' new. run (apiCall x (presignedRequest f)) v = (Done (Resp (clientResponse (presignedAnswer f))), v')
    \<and> s_refreshToken (cl_store v') = Some new
    \<and> selectToken new (w_db (cl_server v')) = Some (r\<lparr>t_token := new,
         t_expiresAt := w_now (cl_server v) + thirtyDays, t_lastUsedAt := w_now (cl_server v)\<rparr>)
    \<and> selectToken tok (w_db (cl_server v')) = None \<and> length (cl_sent v') = length (cl_sent v) + 2"
proof -
  let ?w = "cl_server v" and ?new = "nextRefreshToken (cl_server v)"
  let ?a = "accessTokenAt c (t_authId r) (w_now ?w)"
  obtain e where rot: "rotateToken tok ?new (w_now ?w + thirtyDays) (w_now ?w) (w_db ?w) = Inr e"
    and run: "run (refreshTokens c \<lparr>rr_refreshToken = tok\<rparr>) ?w = (Done (res_ok (tokenFields (?a, ?new)) noOptions),
         ?w\<lparr>w_randPos := w_randPos ?w + 16, w_db := e\<rparr>)"
    using run_refreshTokens_rotates[OF server(1,5) session(1-5)] by blast
  define w1 where "w1 = ?w\<lparr>w_randPos := w_randPos ?w + 16, w_db := e, w_now := w_now ?w + int d\<rparr>"
  define q1 where "q1 = (presignedRequest f)\<lparr>rq_url := tl (rq_url (presignedRequest f)),
     rq_authorization := Some (bearer (Some ?a))\<rparr>"
  have sent1: "cx_send x ?w (refreshRequest tok) = (Inr (clientResponse (res_ok (tokenFields (?a, ?new)) noOptions)), d, w1)"
    using network_answer[OF request(1) route_refresh[OF client(3) request(1) run] server(4)]
    by (simp add: server(3) w1_def)
  have "selectUser (t_authId r) e = selectUser (t_authId r) (w_db ?w)"
    using rot by (auto simp: rotateToken_def selectUser_def split: if_splits)
  then have "authorised c (serverRequest st q1) w1"
    using session(6) server(4)
    by (intro accessToken_authorises[OF server(2), of _ "t_authId r" "w_now ?w"])
      (auto simp: w1_def q1_def serverRequest_def bearer_def)
  then have "run (route c (serverRequest st q1)) w1 = (Done (presignedAnswer f), w1)"
    using server(1) request(2-4)
    by (intro route_presigned) (simp_all add: w1_def q1_def presignedRequest_def postRequest_def lit_def)
  then have sent2: "cx_send x w1 q1 = (Inr (clientResponse (presignedAnswer f)), d, w1\<lparr>w_now := w_now w1 + int d\<rparr>)"
    using network_answer[of c st q1 w1] request(2) server(3,4) by (simp add: q1_def)
  have "tok \<noteq> []" using trim_refreshTokenText[OF client(3)] by simp
  moreover have "privateUrl (presignedRequest f)"
    by (simp add: privateUrl_def presignedRequest_def postRequest_def startsWith_def lit_def)
  ultimately obtain v' where "run (apiCall x (presignedRequest f)) v = (Done (Resp (clientResponse (presignedAnswer f))), v')"
    "cl_store v' = refreshedStore ?a ?new (cl_store v)" "cl_server v' = w1\<lparr>w_now := w_now w1 + int d\<rparr>"
    "cl_sent v' = cl_sent v @ [refreshRequest tok, q1]"
    using run_due_call[of "presignedRequest f" x v tok _ ?a ?new q1 "clientResponse (presignedAnswer f)",
        OF _ client(1,2) _ client(4) _ tokenAnswer_ok q1_def] sent1 sent2 presignedAnswer_status
    by auto
  moreover have "tok \<noteq> ?new" using session(1,5) by auto
  ultimately show ?thesis
    using selectToken_rotateToken[OF server(5) rot session(1)]
    by (auto simp: w1_def refreshedStore_def)
qed

theorem stale_session_end_to_end_witness:
  "\<exists>v'. run (apiCall (system_cext sample_stale_bodies) (presignedRequest (lit ''a.jpg''))) sample_stale_client
      = (Done (Resp (clientResponse (presignedAnswer (lit ''a.jpg'')))), v')
    \<and> s_refreshToken (cl_store v') \<noteq> Some sample_stale_token"
proof -
  let ?v = sample_stale_client and ?x = "system_cext sample_stale_bodies" and ?t = sample_stale_token
  let ?r = "sample_token\<lparr>t_token := ?t\<rparr>"
  have w: "cl_server ?v = sample_stale_world" "cl_refreshPromise ?v = None" "s_refreshToken (cl_store ?v) = Some ?t"
    by (simp_all add: sample_stale_client_def system_client_def)
  have db: "w_db sample_stale_world = sample_db\<lparr>tokens := [?r]\<rparr>" "w_now sample_stale_world = 1000000"
    by (simp_all add: sample_stale_world_def)
  have "serving (system_ctx sample_stale_bodies) sample_stale_world"
    using system_serving by (simp add: sample_stale_world_def serving_def quiet_def connected_def)
  moreover have "db_ok (w_db sample_stale_world)"
    using sample_db_ok unfolding db by (simp add: db_ok_def)
  moreover have "refreshDue ?x ?v"
    by (simp add: refreshDue_def sample_stale_client_def system_client_def sample_session_def needsTokenRefresh_def
        system_cext_def db)
  moreover have "isRefreshTokenText ?t"
    by (simp add: sample_stale_token_def isRefreshTokenText_def list_all_iff isLowerAlpha_def)
  moreover have "transmits (system_ctx sample_stale_bodies) (sampleJsonText sample_stale_bodies) j"
    if "j \<in> set sample_stale_bodies" for j
    using that by (rule sampleJsonText_transmits) (simp add: sample_stale_bodies_def)
  moreover have "selectToken ?t (w_db sample_stale_world) = Some ?r" "selectToken (replicate 24 48) (w_db sample_stale_world) = None"
    by (simp_all add: db selectToken_def sample_stale_token_def)
  moreover have "selectUser (t_authId ?r) (w_db sample_stale_world) \<noteq> None"
    by (simp add: db selectUser_def)
  ultimately show ?thesis
    using stale_session_end_to_end[of "system_ctx sample_stale_bodies" ?v ?x "sampleJsonText sample_stale_bodies" 40 ?t
        "lit ''a.jpg''" ?r, OF _ system_laws] w db sample_stale_next
    by (auto simp: system_cext_def sample_stale_bodies_def sample_token_def lit_def)
qed

end
